(* ===== verification/Prelude.thy ===== *)
theory Prelude
  imports Complex_Main "HOL-Library.Word" "HOL-Library.Char_ord" "HOL-Library.List_Lexorder"
    "HOL-Library.Code_Target_Numeral" "HOL-Library.Multiset"
begin

text \<open>
  The shared base of the development: Rust's result type and its \<open>?\<close> operator, the saturating
  and wrapping arithmetic of the machine integers the agent uses, the iterator adaptors
  \<open>max_by\<close>, \<open>filter_map\<close> and the order-preserving de-duplication loop that several components
  contain, and decimal printing. Signed 64-bit integers are \<open>int\<close> with the width written out
  where an operation saturates or wraps; unsigned ones are words.
\<close>

named_theorems rackio_simps \<open>unfolding rules of the small model functions\<close>

type_synonym ('e, 'a) result = "'e + 'a"
type_synonym u8 = "8 word"
type_synonym u16 = "16 word"
type_synonym u32 = "32 word"
type_synonym u64 = "64 word"
type_synonym i64 = int
type_synonym bytes = "8 word list"

section \<open>Results\<close>

definition rbind :: "('e, 'a) result \<Rightarrow> ('a \<Rightarrow> ('e, 'b) result) \<Rightarrow> ('e, 'b) result" where
  "rbind m f = (case m of Inl e \<Rightarrow> Inl e | Inr x \<Rightarrow> f x)"

definition map_err :: "('e \<Rightarrow> 'f) \<Rightarrow> ('e, 'a) result \<Rightarrow> ('f, 'a) result" where
  "map_err g m = (case m of Inl e \<Rightarrow> Inl (g e) | Inr x \<Rightarrow> Inr x)"

definition map_result :: "('a \<Rightarrow> 'b) \<Rightarrow> ('e, 'a) result \<Rightarrow> ('e, 'b) result" where
  "map_result g m = (case m of Inl e \<Rightarrow> Inl e | Inr x \<Rightarrow> Inr (g x))"

definition ok_or :: "'e \<Rightarrow> 'a option \<Rightarrow> ('e, 'a) result" where
  "ok_or e m = (case m of None \<Rightarrow> Inl e | Some x \<Rightarrow> Inr x)"

definition is_ok :: "('e, 'a) result \<Rightarrow> bool" where
  "is_ok m = (case m of Inl _ \<Rightarrow> False | Inr _ \<Rightarrow> True)"

definition result_ok :: "('e, 'a) result \<Rightarrow> 'a option" where
  "result_ok m = (case m of Inl _ \<Rightarrow> None | Inr x \<Rightarrow> Some x)"

lemma rbind_simps [simp]:
  "rbind (Inl e) f = Inl e"
  "rbind (Inr x) f = f x"
  by (simp_all add: rbind_def)

lemma map_err_simps [simp]:
  "map_err g (Inl e) = Inl (g e)"
  "map_err g (Inr x) = Inr x"
  by (simp_all add: map_err_def)

lemma map_result_simps [simp]:
  "map_result g (Inl e) = Inl e"
  "map_result g (Inr x) = Inr (g x)"
  by (simp_all add: map_result_def)

lemma ok_or_simps [simp]:
  "ok_or e None = Inl e"
  "ok_or e (Some x) = Inr x"
  by (simp_all add: ok_or_def)

lemma is_ok_simps [simp]:
  "\<not> is_ok (Inl e)"
  "is_ok (Inr x)"
  by (simp_all add: is_ok_def)

lemma result_ok_simps [simp]:
  "result_ok (Inl e) = None"
  "result_ok (Inr x) = Some x"
  by (simp_all add: result_ok_def)

lemma rbind_eq_Inr: "rbind m f = Inr y \<longleftrightarrow> (\<exists>x. m = Inr x \<and> f x = Inr y)"
  by (cases m) simp_all

lemma rbind_eq_Inl: "rbind m f = Inl e \<longleftrightarrow> m = Inl e \<or> (\<exists>x. m = Inr x \<and> f x = Inl e)"
  by (cases m) simp_all

lemma map_err_eq_Inr [simp]: "map_err g m = Inr y \<longleftrightarrow> m = Inr y"
  by (cases m) simp_all

lemma map_err_eq_Inl: "map_err g m = Inl y \<longleftrightarrow> (\<exists>e. m = Inl e \<and> y = g e)"
  by (cases m) auto

lemma ok_or_eq_Inr [simp]: "ok_or e m = Inr x \<longleftrightarrow> m = Some x"
  by (cases m) simp_all

lemma ok_or_eq_Inl [simp]: "ok_or e m = Inl e' \<longleftrightarrow> m = None \<and> e' = e"
  by (cases m) auto

lemma is_ok_iff: "is_ok m \<longleftrightarrow> (\<exists>x. m = Inr x)"
  by (cases m) simp_all

text \<open>\<open>collect::<Result<Vec<_>, _>>()\<close>: the first error wins, otherwise all values in order.\<close>

fun collect_results :: "('e, 'a) result list \<Rightarrow> ('e, 'a list) result" where
  "collect_results [] = Inr []"
| "collect_results (m # ms) = rbind m (\<lambda>x. rbind (collect_results ms) (\<lambda>xs. Inr (x # xs)))"

lemma collect_results_Inr [simp]: "collect_results (map Inr xs) = Inr xs"
  by (induction xs) simp_all

lemma collect_results_eq_Inr: "collect_results ms = Inr xs \<longleftrightarrow> ms = map Inr xs"
proof (induction ms arbitrary: xs)
  case Nil
  then show ?case by auto
next
  case (Cons m ms)
  then show ?case
    by (cases xs) (auto simp: rbind_eq_Inr Cons.IH)
qed

section \<open>Machine integers\<close>

definition i64_min :: int where "i64_min = - (2 ^ 63)"
definition i64_max :: int where "i64_max = 2 ^ 63 - 1"

definition in_i64 :: "int \<Rightarrow> bool" where
  "in_i64 x \<longleftrightarrow> i64_min \<le> x \<and> x \<le> i64_max"

definition i64_saturate :: "int \<Rightarrow> int" where
  "i64_saturate x = max i64_min (min i64_max x)"

definition i64_saturating_add :: "int \<Rightarrow> int \<Rightarrow> int" where
  "i64_saturating_add a b = i64_saturate (a + b)"

definition i64_saturating_sub :: "int \<Rightarrow> int \<Rightarrow> int" where
  "i64_saturating_sub a b = i64_saturate (a - b)"

definition i64_saturating_mul :: "int \<Rightarrow> int \<Rightarrow> int" where
  "i64_saturating_mul a b = i64_saturate (a * b)"

text \<open>Plain \<open>+\<close> and \<open>-\<close> on \<open>i64\<close> in the release profile, which has no overflow checks.\<close>

definition i64_wrap :: "int \<Rightarrow> int" where
  "i64_wrap x = (x + 2 ^ 63) mod 2 ^ 64 - 2 ^ 63"

text \<open>\<open>i64::try_from(u64).ok()\<close>.\<close>

definition i64_try_from_u64 :: "u64 \<Rightarrow> int option" where
  "i64_try_from_u64 w = (if uint w \<le> i64_max then Some (uint w) else None)"

text \<open>\<open>u64::try_from(i64).ok()\<close>.\<close>

definition u64_try_from_i64 :: "int \<Rightarrow> u64 option" where
  "u64_try_from_i64 x = (if 0 \<le> x then Some (word_of_int x) else None)"

definition u64_max :: nat where "u64_max = 2 ^ 64 - 1"
definition u32_max :: nat where "u32_max = 2 ^ 32 - 1"
definition u128_max :: nat where "u128_max = 2 ^ 128 - 1"

definition u128_saturating_mul :: "nat \<Rightarrow> nat \<Rightarrow> nat" where
  "u128_saturating_mul a b = min u128_max (a * b)"

definition u64_saturating_add :: "u64 \<Rightarrow> u64 \<Rightarrow> u64" where
  "u64_saturating_add a b = of_nat (min u64_max (unat a + unat b))"

definition u64_saturating_sub :: "u64 \<Rightarrow> u64 \<Rightarrow> u64" where
  "u64_saturating_sub a b = of_nat (unat a - unat b)"

definition u32_saturating_add :: "u32 \<Rightarrow> u32 \<Rightarrow> u32" where
  "u32_saturating_add a b = of_nat (min u32_max (unat a + unat b))"

definition u16_saturating_add :: "u16 \<Rightarrow> u16 \<Rightarrow> u16" where
  "u16_saturating_add a b = of_nat (min (2 ^ 16 - 1) (unat a + unat b))"

definition u8_saturating_add :: "u8 \<Rightarrow> u8 \<Rightarrow> u8" where
  "u8_saturating_add a b = of_nat (min 255 (unat a + unat b))"

lemmas i64_limits = i64_min_def i64_max_def

lemma in_i64_saturate [simp, intro]: "in_i64 (i64_saturate x)"
  by (simp add: in_i64_def i64_saturate_def i64_limits)

lemma i64_saturate_id [simp]: "in_i64 x \<Longrightarrow> i64_saturate x = x"
  by (simp add: in_i64_def i64_saturate_def)

lemma i64_saturate_mono: "x \<le> y \<Longrightarrow> i64_saturate x \<le> i64_saturate y"
  by (simp add: i64_saturate_def)

lemma i64_wrap_id [simp]: "in_i64 x \<Longrightarrow> i64_wrap x = x"
  by (simp add: in_i64_def i64_wrap_def i64_limits)

lemma in_i64_wrap [simp, intro]: "in_i64 (i64_wrap x)"
proof -
  have "0 \<le> (x + 2 ^ 63) mod 2 ^ 64" and "(x + 2 ^ 63) mod 2 ^ 64 < (2 :: int) ^ 64"
    by simp_all
  then show ?thesis
    unfolding in_i64_def i64_wrap_def i64_limits by simp
qed

lemma unat_u64_bound: "unat (w :: u64) < 2 ^ 64"
  using unsigned_less [of w] by simp

lemma unat_u32_bound: "unat (w :: u32) < 2 ^ 32"
  using unsigned_less [of w] by simp

lemma unat_u8_bound: "unat (w :: u8) < 256"
  using unsigned_less [of w, where 'a = nat] by simp

lemma unat_u64_saturating_add [simp]:
  "unat (u64_saturating_add a b) = min u64_max (unat a + unat b)"
  by (simp add: u64_saturating_add_def u64_max_def unat_of_nat)

lemma unat_u64_saturating_sub [simp]: "unat (u64_saturating_sub a b) = unat a - unat b"
proof -
  have "unat a - unat b < 2 ^ 64" using unat_u64_bound [of a] by simp
  then show ?thesis by (simp add: u64_saturating_sub_def unat_of_nat)
qed

lemma unat_u32_saturating_add [simp]:
  "unat (u32_saturating_add a b) = min u32_max (unat a + unat b)"
  by (simp add: u32_saturating_add_def u32_max_def unat_of_nat)

lemma unat_u8_saturating_add [simp]:
  "unat (u8_saturating_add a b) = min 255 (unat a + unat b)"
  by (simp add: u8_saturating_add_def unat_of_nat)

lemma unat_u16_saturating_add [simp]:
  "unat (u16_saturating_add a b) = min (2 ^ 16 - 1) (unat a + unat b)"
  by (simp add: u16_saturating_add_def unat_of_nat)

text \<open>The product of two \<open>u64\<close> always fits a \<open>u128\<close>: the saturation in the source is never reached.\<close>

lemma u128_saturating_mul_u64 [simp]:
  "u128_saturating_mul (unat (a :: u64)) (unat (b :: u64)) = unat a * unat b"
proof -
  have "unat a \<le> 2 ^ 64 - 1" "unat b \<le> 2 ^ 64 - 1"
    using unat_u64_bound [of a] unat_u64_bound [of b] by simp_all
  then have "unat a * unat b \<le> (2 ^ 64 - 1) * (2 ^ 64 - 1)"
    by (rule mult_le_mono)
  also have "\<dots> \<le> u128_max" by (simp add: u128_max_def)
  finally show ?thesis by (simp add: u128_saturating_mul_def)
qed

lemma u128_saturating_mul_small:
  assumes "c \<le> 2 ^ 64"
  shows "u128_saturating_mul (unat (a :: u64)) c = unat a * c"
proof -
  have "unat a \<le> 2 ^ 64 - 1" using unat_u64_bound [of a] by simp
  then have "unat a * c \<le> (2 ^ 64 - 1) * 2 ^ 64"
    using assms by (rule mult_le_mono)
  also have "\<dots> \<le> u128_max" by (simp add: u128_max_def)
  finally show ?thesis by (simp add: u128_saturating_mul_def)
qed

lemma frac_less_iff_nat:
  assumes "0 < b" and "0 < d"
  shows "(of_nat a / of_nat b :: rat) < of_nat c / of_nat d \<longleftrightarrow> a * d < c * b"
proof -
  have "(of_nat a / of_nat b :: rat) < of_nat c / of_nat d \<longleftrightarrow>
      (of_nat (a * d) :: rat) < of_nat (c * b)"
    using assms by (simp add: divide_less_eq less_divide_eq mult.commute field_simps)
  then show ?thesis by (simp only: of_nat_less_iff)
qed

section \<open>Iterator adaptors\<close>

text \<open>
  \<open>Iterator::max_by\<close>: a left fold that keeps the accumulated element only when the comparison
  says it is strictly greater, so the last of several maximal elements is returned. The argument
  \<open>gt x y\<close> stands for \<open>compare(x, y) == Ordering::Greater\<close>.
\<close>

fun max_by_from :: "('a \<Rightarrow> 'a \<Rightarrow> bool) \<Rightarrow> 'a \<Rightarrow> 'a list \<Rightarrow> 'a" where
  "max_by_from gt x [] = x"
| "max_by_from gt x (y # ys) = max_by_from gt (if gt x y then x else y) ys"

fun max_by :: "('a \<Rightarrow> 'a \<Rightarrow> bool) \<Rightarrow> 'a list \<Rightarrow> 'a option" where
  "max_by gt [] = None"
| "max_by gt (x # xs) = Some (max_by_from gt x xs)"

lemma max_by_eq_None [simp]: "max_by gt xs = None \<longleftrightarrow> xs = []"
  by (cases xs) simp_all

lemma max_by_from_in: "max_by_from gt x xs \<in> insert x (set xs)"
  by (induction xs arbitrary: x) (simp_all, metis insertCI insertE)

lemma max_by_in_set: "max_by gt xs = Some m \<Longrightarrow> m \<in> set xs"
  using max_by_from_in by (cases xs) fastforce+

text \<open>
  The contract a comparison must meet for \<open>max_by\<close> to be meaningful: a strict weak order on the
  elements it is applied to. The carrier matters, since the cross-multiplied comparison of disks
  is an order only on disks with a positive capacity.
\<close>

locale cmp_order =
  fixes carrier :: "'a \<Rightarrow> bool"
    and gt :: "'a \<Rightarrow> 'a \<Rightarrow> bool"
  assumes gt_asym: "carrier x \<Longrightarrow> carrier y \<Longrightarrow> gt x y \<Longrightarrow> \<not> gt y x"
    and gt_cotrans: "carrier x \<Longrightarrow> carrier y \<Longrightarrow> carrier z \<Longrightarrow> gt x z \<Longrightarrow> gt x y \<or> gt y z"
begin

lemma le_trans_gt:
  assumes "carrier x" "carrier y" "carrier z" and "\<not> gt x y" "\<not> gt y z"
  shows "\<not> gt x z"
  using assms gt_cotrans by blast

lemma max_by_from_maximal:
  assumes "carrier x" and "list_all carrier xs"
  shows "\<not> gt y (max_by_from gt x xs) \<or> y \<notin> insert x (set xs)"
  using assms
proof (induction xs arbitrary: x y)
  case Nil
  then show ?case using gt_asym by auto
next
  case (Cons z zs)
  let ?a = "if gt x z then x else z"
  have a: "carrier ?a" using Cons.prems by simp
  have carrier_max: "carrier (max_by_from gt ?a zs)"
    using max_by_from_in [of gt ?a zs] a Cons.prems(2) by (auto simp: list_all_iff)
  have "\<not> gt ?a (max_by_from gt ?a zs)"
    using Cons.IH [OF a, of ?a] Cons.prems(2) by simp
  moreover have "\<not> gt x ?a" "\<not> gt z ?a"
    using Cons.prems gt_asym by (auto split: if_splits)
  ultimately have "\<not> gt x (max_by_from gt ?a zs)" "\<not> gt z (max_by_from gt ?a zs)"
    using le_trans_gt [OF _ a carrier_max] Cons.prems by (auto simp del: max_by_from.simps)
  then show ?case
    using Cons.IH [OF a, of y] Cons.prems(2) by auto
qed

lemma max_by_maximal:
  assumes "list_all carrier xs" and "max_by gt xs = Some m" and "y \<in> set xs"
  shows "\<not> gt y m"
  using assms max_by_from_maximal by (cases xs) auto

lemma max_by_from_last:
  assumes "carrier x" and "list_all carrier xs"
  shows "\<exists>ys zs. x # xs = ys @ max_by_from gt x xs # zs \<and> list_all (gt (max_by_from gt x xs)) zs"
  using assms
proof (induction xs arbitrary: x)
  case Nil
  then show ?case by (intro exI [of _ "[]"]) simp
next
  case (Cons z zs)
  show ?case
  proof (cases "gt x z")
    case False
    from Cons.prems obtain ys us where
      "z # zs = ys @ max_by_from gt z zs # us" "list_all (gt (max_by_from gt z zs)) us"
      using Cons.IH [of z] by auto
    then have "x # z # zs = (x # ys) @ max_by_from gt z zs # us"
      "list_all (gt (max_by_from gt z zs)) us" by simp_all
    moreover have "max_by_from gt x (z # zs) = max_by_from gt z zs" using False by simp
    ultimately show ?thesis by metis
  next
    case True
    from Cons.prems obtain ys us where
      split: "x # zs = ys @ max_by_from gt x zs # us" "list_all (gt (max_by_from gt x zs)) us"
      using Cons.IH [of x] by auto
    show ?thesis
    proof (cases ys)
      case Nil
      with split True have "x # z # zs = [] @ max_by_from gt x (z # zs) # z # zs"
        "list_all (gt (max_by_from gt x (z # zs))) (z # zs)" by auto
      then show ?thesis by blast
    next
      case (Cons b bs)
      with split True have "x # z # zs = (x # z # bs) @ max_by_from gt x (z # zs) # us"
        "list_all (gt (max_by_from gt x (z # zs))) us" by auto
      then show ?thesis by blast
    qed
  qed
qed

lemma max_by_last:
  assumes "list_all carrier xs" and "max_by gt xs = Some m"
  shows "\<exists>ys zs. xs = ys @ m # zs \<and> list_all (gt m) zs"
  using assms max_by_from_last by (cases xs) auto

end

text \<open>
  The loop \<open>if !acc.contains(x) { acc.push(x) }\<close>, which keeps the first occurrence of every
  element in order.
\<close>

fun push_new :: "'a list \<Rightarrow> 'a list \<Rightarrow> 'a list" where
  "push_new acc [] = acc"
| "push_new acc (x # xs) = push_new (if x \<in> set acc then acc else acc @ [x]) xs"

lemma set_push_new [simp]: "set (push_new acc xs) = set acc \<union> set xs"
  by (induction xs arbitrary: acc) auto

lemma distinct_push_new: "distinct acc \<Longrightarrow> distinct (push_new acc xs)"
  by (induction xs arbitrary: acc) auto

lemma push_new_prefix: "\<exists>rest. push_new acc xs = acc @ rest"
proof (induction xs arbitrary: acc)
  case (Cons x xs)
  obtain rest where "push_new (if x \<in> set acc then acc else acc @ [x]) xs =
      (if x \<in> set acc then acc else acc @ [x]) @ rest"
    using Cons.IH by blast
  then show ?case by auto
qed simp

lemma push_new_subset: "set xs \<subseteq> set acc \<Longrightarrow> push_new acc xs = acc"
  by (induction xs arbitrary: acc) auto

lemma push_new_append: "push_new acc (xs @ ys) = push_new (push_new acc xs) ys"
  by (induction xs arbitrary: acc) auto

lemma push_new_distinct: "distinct (acc @ xs) \<Longrightarrow> push_new acc xs = acc @ xs"
  by (induction xs arbitrary: acc) auto

lemma distinct_map_Cons_neq: "distinct (map f (x # xs)) \<Longrightarrow> y \<in> set xs \<Longrightarrow> f y \<noteq> f x"
  using image_iff by fastforce

lemma filter_split:
  assumes "filter P xs = ys @ m # zs"
  shows "\<exists>us vs. xs = us @ m # vs \<and> P m \<and> ys = filter P us \<and> zs = filter P vs"
  using assms
proof (induction xs arbitrary: ys)
  case (Cons x xs)
  show ?case
  proof (cases "P x \<and> ys = []")
    case True
    with Cons.prems show ?thesis by (intro exI [of _ "[]"] exI [of _ xs]) simp
  next
    case False
    then have "filter P xs = (if P x then tl ys else ys) @ m # zs"
      using Cons.prems by (cases ys) (auto split: if_splits)
    from Cons.IH [OF this] obtain us vs where
      "xs = us @ m # vs" "P m" "(if P x then tl ys else ys) = filter P us" "zs = filter P vs" by blast
    with False Cons.prems show ?thesis
      by (intro exI [of _ "x # us"] exI [of _ vs]) (cases ys; auto split: if_splits)
  qed
qed simp

text \<open>\<open>Vec::find\<close> through \<open>iter_mut\<close>: apply a change to the first element that matches.\<close>

fun update_first :: "('a \<Rightarrow> bool) \<Rightarrow> ('a \<Rightarrow> 'a) \<Rightarrow> 'a list \<Rightarrow> 'a list option" where
  "update_first p f [] = None"
| "update_first p f (x # xs) =
     (if p x then Some (f x # xs) else map_option ((#) x) (update_first p f xs))"

lemma update_first_None: "update_first p f xs = None \<longleftrightarrow> \<not> list_ex p xs"
  by (induction xs) auto

lemma update_first_length: "update_first p f xs = Some ys \<Longrightarrow> length ys = length xs"
  by (induction xs arbitrary: ys) (auto split: if_splits)

lemma update_first_map:
  assumes "update_first p f xs = Some ys" and "\<And>x. p x \<Longrightarrow> g (f x) = g x"
  shows "map g ys = map g xs"
  using assms(1)
  by (induction xs arbitrary: ys) (auto simp: assms(2) split: if_splits)

lemma update_first_split:
  assumes "update_first p f xs = Some ys"
  shows "\<exists>us x vs. xs = us @ x # vs \<and> list_all (\<lambda>u. \<not> p u) us \<and> p x \<and> ys = us @ f x # vs"
  using assms
proof (induction xs arbitrary: ys)
  case (Cons x xs)
  show ?case
  proof (cases "p x")
    case True
    with Cons.prems show ?thesis by (intro exI [of _ "[]"]) simp
  next
    case False
    with Cons.prems obtain zs where zs: "update_first p f xs = Some zs" "ys = x # zs" by auto
    from Cons.IH [OF zs(1)] obtain us v vs where
      "xs = us @ v # vs" "list_all (\<lambda>u. \<not> p u) us" "p v" "zs = us @ f v # vs" by blast
    with zs False show ?thesis
      by (intro exI [of _ "x # us"] exI [of _ v] exI [of _ vs]) simp
  qed
qed simp

section \<open>Decimal printing\<close>

definition digit_char :: "nat \<Rightarrow> char" where
  "digit_char d = char_of (48 + d)"

fun show_nat :: "nat \<Rightarrow> string" where
  "show_nat n = (if n < 10 then [digit_char n] else show_nat (n div 10) @ [digit_char (n mod 10)])"

declare show_nat.simps [simp del]

definition ends_with :: "string \<Rightarrow> string \<Rightarrow> bool" where
  "ends_with s suffix \<longleftrightarrow> drop (length s - length suffix) s = suffix"

definition strip_prefix :: "string \<Rightarrow> string \<Rightarrow> string option" where
  "strip_prefix pre s =
     (if take (length pre) s = pre then Some (drop (length pre) s) else None)"

lemma strip_prefix_append [simp]: "strip_prefix pre (pre @ s) = Some s"
  by (simp add: strip_prefix_def)

lemma strip_prefix_Some: "strip_prefix pre s = Some t \<Longrightarrow> s = pre @ t"
  unfolding strip_prefix_def by (metis append_take_drop_id option.discI option.sel)

text \<open>\<open>str::trim\<close> and \<open>str::trim_end\<close> over ASCII white space.\<close>

definition blank :: "char \<Rightarrow> bool" where
  "blank c \<longleftrightarrow> of_char c = (32 :: nat) \<or> (9 \<le> (of_char c :: nat) \<and> (of_char c :: nat) \<le> 13)"

definition trim_end :: "string \<Rightarrow> string" where
  "trim_end s = rev (dropWhile blank (rev s))"

definition trim_text :: "string \<Rightarrow> string" where
  "trim_text s = trim_end (dropWhile blank s)"

lemma trim_end_id: "s = [] \<or> \<not> blank (last s) \<Longrightarrow> trim_end s = s"
  by (cases "rev s") (auto simp: trim_end_def)

lemma trim_text_id: "\<forall>c \<in> set s. \<not> blank c \<Longrightarrow> trim_text s = s"
proof (cases s)
  case (Cons a list)
  assume clean: "\<forall>c \<in> set s. \<not> blank c"
  then have "\<not> blank (last s)" using Cons by simp
  then show ?thesis using clean Cons trim_end_id [of s] by (simp add: trim_text_def)
qed (simp add: trim_text_def trim_end_def)

end
