(* ===== verification/Ieee.thy ===== *)
theory Ieee
  imports Prelude "HOL-Library.Log_Nat" "HOL-Library.Product_Lexorder"
begin

text \<open>
  The IEEE 754 binary arithmetic behind Rust's \<open>f32\<close> and \<open>f64\<close>. A finite value carries the exact
  rational it denotes; every operation computes the exact rational result and rounds it once, to
  nearest with ties to even, at the precision and exponent range of the format. The two facts the
  components use are that rounding is exact on representable values and that it is monotone.
  NaN payloads are not distinguished.
\<close>

section \<open>Values and formats\<close>

datatype fl = NaN | Inf bool | NegZero | Fin rat

record fmt =
  precision :: nat
  ulp_min :: int
  exp_max :: int

definition f64_fmt :: fmt where
  "f64_fmt = \<lparr>precision = 53, ulp_min = -1074, exp_max = 1023\<rparr>"

definition f32_fmt :: fmt where
  "f32_fmt = \<lparr>precision = 24, ulp_min = -149, exp_max = 127\<rparr>"

text \<open>The largest power of two that is not above a positive rational.\<close>

definition ilog2 :: "rat \<Rightarrow> int" where
  "ilog2 x =
     (let (a, b) = quotient_of x; k = bitlen a - bitlen b
      in if 2 powi k \<le> x then k else k - 1)"

definition round_half_even :: "rat \<Rightarrow> int" where
  "round_half_even x =
     (let f = \<lfloor>x\<rfloor>; d = x - of_int f
      in if d < 1 / 2 then f else if 1 / 2 < d then f + 1 else if even f then f else f + 1)"

definition ulp_exp :: "fmt \<Rightarrow> rat \<Rightarrow> int" where
  "ulp_exp F x = max (ilog2 x - (int (precision F) - 1)) (ulp_min F)"

definition round_mag :: "fmt \<Rightarrow> rat \<Rightarrow> rat" where
  "round_mag F x = of_int (round_half_even (x / 2 powi (ulp_exp F x))) * 2 powi (ulp_exp F x)"

definition round_to :: "fmt \<Rightarrow> rat \<Rightarrow> fl" where
  "round_to F x =
     (if x = 0 then Fin 0
      else let y = round_mag F \<bar>x\<bar>
        in if 2 powi (exp_max F + 1) \<le> y then Inf (x < 0)
           else if y = 0 then (if x < 0 then NegZero else Fin 0)
           else Fin (if x < 0 then - y else y))"

section \<open>Operations\<close>

fun is_finite :: "fl \<Rightarrow> bool" where
  "is_finite (Fin _) = True"
| "is_finite NegZero = True"
| "is_finite _ = False"

fun sign_bit :: "fl \<Rightarrow> bool" where
  "sign_bit NaN = False"
| "sign_bit (Inf s) = s"
| "sign_bit NegZero = True"
| "sign_bit (Fin q) = (q < 0)"

fun fval :: "fl \<Rightarrow> rat" where
  "fval (Fin q) = q"
| "fval _ = 0"

fun fl_neg :: "fl \<Rightarrow> fl" where
  "fl_neg NaN = NaN"
| "fl_neg (Inf s) = Inf (\<not> s)"
| "fl_neg NegZero = Fin 0"
| "fl_neg (Fin q) = (if q = 0 then NegZero else Fin (- q))"

definition zero_of :: "bool \<Rightarrow> fl" where
  "zero_of s = (if s then NegZero else Fin 0)"

fun fl_add :: "fmt \<Rightarrow> fl \<Rightarrow> fl \<Rightarrow> fl" where
  "fl_add F NaN _ = NaN"
| "fl_add F _ NaN = NaN"
| "fl_add F (Inf s) (Inf t) = (if s = t then Inf s else NaN)"
| "fl_add F (Inf s) _ = Inf s"
| "fl_add F _ (Inf t) = Inf t"
| "fl_add F NegZero NegZero = NegZero"
| "fl_add F x y = round_to F (fval x + fval y)"

definition fl_sub :: "fmt \<Rightarrow> fl \<Rightarrow> fl \<Rightarrow> fl" where
  "fl_sub F x y = fl_add F x (fl_neg y)"

fun fl_div :: "fmt \<Rightarrow> fl \<Rightarrow> fl \<Rightarrow> fl" where
  "fl_div F NaN _ = NaN"
| "fl_div F _ NaN = NaN"
| "fl_div F (Inf s) (Inf t) = NaN"
| "fl_div F (Inf s) y = Inf (s \<noteq> sign_bit y)"
| "fl_div F x (Inf t) = zero_of (sign_bit x \<noteq> t)"
| "fl_div F x y =
     (if fval y = 0 then (if fval x = 0 then NaN else Inf (sign_bit x \<noteq> sign_bit y))
      else if fval x = 0 then zero_of (sign_bit x \<noteq> sign_bit y)
      else round_to F (fval x / fval y))"

text \<open>\<open>value as f32\<close>, and \<open>f64::from(f32)\<close>, which is exact.\<close>

fun fl_round :: "fmt \<Rightarrow> fl \<Rightarrow> fl" where
  "fl_round F (Fin q) = round_to F q"
| "fl_round F x = x"

definition f64_from_f32 :: "fl \<Rightarrow> fl" where
  "f64_from_f32 x = x"

text \<open>The comparisons \<open><=\<close> and \<open>>=\<close>: false as soon as an operand is NaN, and \<open>-0.0 == 0.0\<close>.\<close>

fun fl_le :: "fl \<Rightarrow> fl \<Rightarrow> bool" where
  "fl_le NaN _ = False"
| "fl_le _ NaN = False"
| "fl_le (Inf True) _ = True"
| "fl_le _ (Inf False) = True"
| "fl_le (Inf False) _ = False"
| "fl_le _ (Inf True) = False"
| "fl_le x y = (fval x \<le> fval y)"

definition fl_ge :: "fl \<Rightarrow> fl \<Rightarrow> bool" where
  "fl_ge x y = fl_le y x"

text \<open>\<open>total_cmp\<close>: a total order in which \<open>-0.0\<close> lies below \<open>0.0\<close>.\<close>

fun total_key :: "fl \<Rightarrow> int \<times> rat \<times> int" where
  "total_key (Inf s) = (if s then (-1, 0, 0) else (1, 0, 0))"
| "total_key NegZero = (0, 0, -1)"
| "total_key (Fin q) = (0, q, 0)"
| "total_key NaN = (2, 0, 0)"

definition total_gt :: "fl \<Rightarrow> fl \<Rightarrow> bool" where
  "total_gt x y \<longleftrightarrow> total_key y < total_key x"

lemma fl_le_Inf [simp]:
  "fl_le (Inf s) (Fin q) \<longleftrightarrow> s"
  "fl_le (Fin q) (Inf s) \<longleftrightarrow> \<not> s"
  by (cases s; simp)+

section \<open>The exponent of a rational\<close>

lemma powi_pos [simp]: "0 < (2 :: rat) powi k"
  by simp

lemma powi_le_iff: "(2 :: rat) powi j \<le> 2 powi k \<longleftrightarrow> j \<le> k"
proof
  assume le: "(2 :: rat) powi j \<le> 2 powi k"
  show "j \<le> k"
  proof (rule ccontr)
    assume "\<not> j \<le> k"
    then have "(2 :: rat) powi k < 2 powi j" by (intro power_int_strict_increasing) auto
    with le show False by simp
  qed
qed (auto intro: power_int_increasing)

lemma powi_less_iff: "(2 :: rat) powi j < 2 powi k \<longleftrightarrow> j < k"
  using powi_le_iff by (metis linorder_not_le)

lemma powi_of_int: "0 \<le> k \<Longrightarrow> (2 :: rat) powi k = of_int (2 ^ nat k)"
  by (simp add: power_int_def)

lemma bitlen_rat_bounds:
  assumes "0 < a"
  shows "2 powi (bitlen a - 1) \<le> (of_int a :: rat)" and "(of_int a :: rat) < 2 powi (bitlen a)"
proof -
  have pos: "0 < bitlen a" using assms bitlen_eq_zero_iff [of a] bitlen_nonneg [of a] by linarith
  have b: "2 ^ nat (bitlen a - 1) \<le> a" "a < 2 ^ nat (bitlen a)"
    using bitlen_bounds [OF assms] by auto
  show "2 powi (bitlen a - 1) \<le> (of_int a :: rat)"
    using b(1) pos by (subst powi_of_int) (auto simp: of_int_le_iff simp del: of_int_power)
  show "(of_int a :: rat) < 2 powi (bitlen a)"
    using b(2) pos by (subst powi_of_int) (auto simp: of_int_less_iff simp del: of_int_power)
qed

lemma ilog2_bounds:
  assumes "0 < x"
  shows "2 powi (ilog2 x) \<le> x" and "x < 2 powi (ilog2 x + 1)"
proof -
  obtain a b where q: "quotient_of x = (a, b)" by (cases "quotient_of x")
  have x: "x = of_int a / of_int b" using q by (rule quotient_of_div)
  have b: "0 < b" using q by (rule quotient_of_denom_pos)
  then have a: "0 < a" using assms x by (simp add: zero_less_divide_iff)
  let ?k = "bitlen a - bitlen b"
  have "x < 2 powi (bitlen a) / 2 powi (bitlen b - 1)"
    unfolding x using bitlen_rat_bounds [OF a] bitlen_rat_bounds [OF b] a b
    by (intro frac_less) simp_all
  also have "\<dots> = 2 powi (?k + 1)"
    by (simp flip: power_int_diff add: algebra_simps)
  finally have up: "x < 2 powi (?k + 1)" .
  have "2 powi (bitlen a - 1) / 2 powi (bitlen b) \<le> x"
    unfolding x using bitlen_rat_bounds [OF a] bitlen_rat_bounds [OF b] a b
    by (intro frac_le) simp_all
  moreover have "2 powi (bitlen a - 1) / 2 powi (bitlen b) = (2 :: rat) powi (?k - 1)"
    by (simp flip: power_int_diff add: algebra_simps)
  ultimately have low: "2 powi (?k - 1) \<le> x" by simp
  show "2 powi (ilog2 x) \<le> x" using low by (simp add: ilog2_def q Let_def)
  show "x < 2 powi (ilog2 x + 1)" using up by (simp add: ilog2_def q Let_def)
qed

lemma ilog2_le:
  assumes "0 < x" and "x < 2 powi (k + 1)"
  shows "ilog2 x \<le> k"
proof -
  have "(2 :: rat) powi (ilog2 x) < 2 powi (k + 1)"
    using ilog2_bounds(1) [OF assms(1)] assms(2) by linarith
  then show ?thesis by (simp add: powi_less_iff)
qed

lemma ilog2_mono:
  assumes "0 < x" and "x \<le> y"
  shows "ilog2 x \<le> ilog2 y"
  using ilog2_le [OF assms(1)] ilog2_bounds(2) [of y] assms by fastforce

section \<open>Rounding\<close>

lemma round_half_even_of_int [simp]: "round_half_even (of_int m) = m"
  by (simp add: round_half_even_def)

lemma round_half_even_mono:
  assumes "x \<le> y"
  shows "round_half_even x \<le> round_half_even y"
proof (cases "\<lfloor>x\<rfloor> = \<lfloor>y\<rfloor>")
  case True
  then show ?thesis using assms by (auto simp: round_half_even_def Let_def)
next
  case False
  then have "\<lfloor>x\<rfloor> < \<lfloor>y\<rfloor>" using floor_mono [OF assms] by simp
  then have "round_half_even x \<le> \<lfloor>y\<rfloor>" by (auto simp: round_half_even_def Let_def)
  also have "\<lfloor>y\<rfloor> \<le> round_half_even y" by (simp add: round_half_even_def Let_def)
  finally show ?thesis .
qed

lemma round_half_even_le_int: "x \<le> of_int m \<Longrightarrow> round_half_even x \<le> m"
  using round_half_even_mono by fastforce

lemma round_half_even_ge_int: "of_int m \<le> x \<Longrightarrow> m \<le> round_half_even x"
  using round_half_even_mono by fastforce

lemma ulp_exp_mono: "0 < x \<Longrightarrow> x \<le> y \<Longrightarrow> ulp_exp F x \<le> ulp_exp F y"
  using ilog2_mono by (fastforce simp: ulp_exp_def)

lemma scaled_upper:
  assumes "0 < x" and "0 < precision F"
  shows "x / 2 powi (ulp_exp F x) < of_int (2 ^ precision F)"
proof -
  have "x < 2 powi (ilog2 x + 1)" using ilog2_bounds(2) [OF assms(1)] .
  also have "\<dots> \<le> 2 powi (ulp_exp F x + int (precision F))"
    by (subst powi_le_iff) (simp add: ulp_exp_def)
  finally show ?thesis
    by (simp add: divide_less_eq power_int_add mult.commute)
qed

lemma scaled_lower:
  assumes "0 < x" and "0 < precision F" and "ulp_min F < ulp_exp F x"
  shows "of_int (2 ^ (precision F - 1)) \<le> x / 2 powi (ulp_exp F x)"
proof -
  have e: "ulp_exp F x + int (precision F - 1) = ilog2 x"
    using assms by (simp add: ulp_exp_def max_def of_nat_diff split: if_splits)
  have "2 powi (ulp_exp F x) * 2 powi (int (precision F - 1)) = (2 :: rat) powi (ilog2 x)"
    unfolding e [symmetric] by (rule power_int_add [symmetric]) simp
  then have "2 powi (ulp_exp F x) * 2 powi (int (precision F - 1)) \<le> x"
    using ilog2_bounds(1) [OF assms(1)] by simp
  then show ?thesis by (simp add: le_divide_eq mult.commute)
qed

lemma round_mag_mono:
  assumes "0 < x" and "x \<le> y" and "0 < precision F"
  shows "round_mag F x \<le> round_mag F y"
proof (cases "ulp_exp F x = ulp_exp F y")
  case True
  have "x / 2 powi (ulp_exp F y) \<le> y / 2 powi (ulp_exp F y)"
    using assms by (simp add: divide_right_mono)
  then show ?thesis
    using round_half_even_mono unfolding round_mag_def True
    by (intro mult_right_mono) auto
next
  case False
  then have less: "ulp_exp F x < ulp_exp F y" using ulp_exp_mono [of x y F] assms by simp
  then have min: "ulp_min F < ulp_exp F y" by (auto simp: ulp_exp_def)
  let ?p = "int (precision F)"
  have "round_half_even (x / 2 powi (ulp_exp F x)) \<le> 2 ^ precision F"
    using scaled_upper [OF assms(1,3)] by (intro round_half_even_le_int) (simp add: less_imp_le)
  then have "round_mag F x \<le> of_int (2 ^ precision F) * 2 powi (ulp_exp F x)"
    unfolding round_mag_def by (intro mult_right_mono) (simp_all del: of_int_power)
  also have "\<dots> = 2 powi (?p + ulp_exp F x)" by (simp add: power_int_add)
  also have "\<dots> \<le> 2 powi (int (precision F - 1) + ulp_exp F y)"
    using less assms(3) by (subst powi_le_iff) simp
  also have "\<dots> = of_int (2 ^ (precision F - 1)) * 2 powi (ulp_exp F y)"
    by (simp add: power_int_add)
  also have "\<dots> \<le> round_mag F y"
    using scaled_lower [OF _ assms(3) min] assms unfolding round_mag_def
    by (intro mult_right_mono) (auto simp del: of_int_power intro: round_half_even_ge_int)
  finally show ?thesis .
qed

lemma round_mag_nonneg: "0 < x \<Longrightarrow> 0 \<le> round_mag F x"
  unfolding round_mag_def
  by (intro mult_nonneg_nonneg) (auto intro: round_half_even_ge_int)

text \<open>A positive multiple of a power of two that fits the precision is a fixed point.\<close>

lemma round_mag_exact:
  assumes "0 < m" and "m < 2 ^ precision F" and "ulp_min F \<le> e"
  shows "round_mag F (of_int m * 2 powi e) = of_int m * 2 powi e"
proof -
  let ?x = "of_int m * (2 :: rat) powi e"
  have pos: "0 < ?x" using assms by simp
  have m: "(of_int m :: rat) < 2 powi (int (precision F))"
    using assms(2) of_int_less_iff [of m "2 ^ precision F", where 'a = rat] by simp
  have "?x < 2 powi (int (precision F)) * 2 powi e"
    using m by (intro mult_strict_right_mono) simp_all
  also have "\<dots> = 2 powi (int (precision F) + e - 1 + 1)"
    by (simp add: power_int_add)
  finally have "ilog2 ?x \<le> int (precision F) + e - 1" using pos by (intro ilog2_le)
  then have le: "ulp_exp F ?x \<le> e" using assms(3) by (simp add: ulp_exp_def)
  have "?x / 2 powi (ulp_exp F ?x) = of_int m * 2 powi (e - ulp_exp F ?x)"
    by (simp add: power_int_diff)
  also have "\<dots> = of_int (m * 2 ^ nat (e - ulp_exp F ?x))"
    using le by (simp add: powi_of_int)
  finally have scaled: "?x / 2 powi (ulp_exp F ?x) = of_int (m * 2 ^ nat (e - ulp_exp F ?x))" .
  have "round_mag F ?x = ?x / 2 powi (ulp_exp F ?x) * 2 powi (ulp_exp F ?x)"
    by (simp add: round_mag_def scaled del: of_int_mult of_int_power)
  then show ?thesis by simp
qed

lemma precision_pos [simp]: "0 < precision f64_fmt" "0 < precision f32_fmt"
  by (simp_all add: f64_fmt_def f32_fmt_def)

lemma round_to_exact:
  assumes "\<bar>m\<bar> < 2 ^ precision F" and "ulp_min F \<le> e"
    and "int (precision F) + e \<le> exp_max F + 1"
  shows "round_to F (of_int m * 2 powi e) = Fin (of_int m * 2 powi e)"
proof (cases "m = 0")
  case True
  then show ?thesis by (simp add: round_to_def)
next
  case False
  let ?y = "of_int \<bar>m\<bar> * (2 :: rat) powi e"
  have abs: "\<bar>of_int m * (2 :: rat) powi e\<bar> = ?y" by (simp add: abs_mult)
  have y: "round_mag F ?y = ?y"
    using False assms by (intro round_mag_exact) simp_all
  have m: "(of_int \<bar>m\<bar> :: rat) < 2 powi (int (precision F))"
    using assms(1) of_int_less_iff [of "\<bar>m\<bar>" "2 ^ precision F", where 'a = rat] by simp
  have "?y < 2 powi (int (precision F)) * 2 powi e"
    using m by (intro mult_strict_right_mono) simp_all
  also have "\<dots> = 2 powi (int (precision F) + e)" by (simp add: power_int_add)
  also have "\<dots> \<le> 2 powi (exp_max F + 1)" using assms(3) by (subst powi_le_iff)
  finally have "\<not> 2 powi (exp_max F + 1) \<le> ?y" by simp
  then show ?thesis
    using False y abs powi_pos [of e]
    by (auto simp: round_to_def Let_def mult_less_0_iff dest: less_not_sym)
qed

text \<open>In double precision every fraction with a 53-bit numerator over a power of two is exact.\<close>

lemma round_to_f64_dyadic:
  assumes "\<bar>m\<bar> < 2 ^ 53" and "k \<le> 900"
  shows "round_to f64_fmt (of_int m / 2 ^ k) = Fin (of_int m / 2 ^ k)"
proof -
  have "round_to f64_fmt (of_int m * 2 powi (- int k)) = Fin (of_int m * 2 powi (- int k))"
    using assms by (intro round_to_exact) (simp_all add: f64_fmt_def)
  then show ?thesis by (simp add: power_int_minus divide_inverse)
qed

lemma round_to_f64_int: "\<bar>m\<bar> < 2 ^ 53 \<Longrightarrow> round_to f64_fmt (of_int m) = Fin (of_int m)"
  using round_to_f64_dyadic [of m 0] by simp

lemma round_to_zero [simp]: "round_to F 0 = Fin 0"
  by (simp add: round_to_def)

lemma round_to_not_NaN [simp]: "round_to F x \<noteq> NaN"
  by (simp add: round_to_def Let_def)

text \<open>Rounding is monotone for \<open><=\<close>, across zero and into the infinities.\<close>

definition signed_range :: "fl \<Rightarrow> bool \<Rightarrow> bool" where
  "signed_range x s \<longleftrightarrow>
     (case x of NaN \<Rightarrow> False | Inf t \<Rightarrow> t = s | NegZero \<Rightarrow> s | Fin q \<Rightarrow> if s then q \<le> 0 else 0 \<le> q)"

lemma round_to_signed: "x \<noteq> 0 \<Longrightarrow> signed_range (round_to F x) (x < 0)"
  using round_mag_nonneg [of "\<bar>x\<bar>" F]
  by (auto simp: round_to_def Let_def signed_range_def)

lemma signed_range_le: "signed_range a True \<Longrightarrow> signed_range b False \<Longrightarrow> fl_le a b"
  by (cases a; cases b) (auto simp: signed_range_def split: if_splits)

lemma signed_range_zero: "signed_range a True \<Longrightarrow> fl_le a (Fin 0)" "signed_range a False \<Longrightarrow> fl_le (Fin 0) a"
  by (cases a; auto simp: signed_range_def split: if_splits)+

lemma round_to_pos_mono:
  assumes "0 < x" and "x \<le> y" and "0 < precision F"
  shows "fl_le (round_to F x) (round_to F y)"
  using round_mag_mono [OF assms] round_mag_nonneg [of x F] round_mag_nonneg [of y F] assms
  by (auto simp: round_to_def Let_def)

lemma round_to_neg: "x \<noteq> 0 \<Longrightarrow> round_to F (- x) = fl_neg (round_to F x)"
  by (auto simp: round_to_def Let_def)

lemma fl_le_neg: "fl_le (fl_neg a) (fl_neg b) \<longleftrightarrow> fl_le b a"
proof (cases a; cases b)
  fix s t assume "a = Inf s" "b = Inf t"
  then show ?thesis by (cases s; cases t) auto
next
  fix s q assume "a = Inf s" "b = Fin q"
  then show ?thesis by (cases s) auto
next
  fix s q assume "a = Fin q" "b = Inf s"
  then show ?thesis by (cases s) auto
next
  fix s assume "a = Inf s" "b = NegZero"
  then show ?thesis by (cases s) auto
next
  fix s assume "a = NegZero" "b = Inf s"
  then show ?thesis by (cases s) auto
qed auto

lemma round_to_mono:
  assumes "x \<le> y" and "0 < precision F"
  shows "fl_le (round_to F x) (round_to F y)"
proof -
  consider "0 < x" | "y < 0" | "x < 0" "0 < y" | "x = 0" | "y = 0"
    using assms(1) by linarith
  then show ?thesis
  proof cases
    case 1
    then show ?thesis using assms by (intro round_to_pos_mono)
  next
    case 2
    have "fl_le (round_to F (- y)) (round_to F (- x))"
      using 2 assms by (intro round_to_pos_mono) simp_all
    then show ?thesis using 2 assms(1) by (simp add: round_to_neg fl_le_neg)
  next
    case 3
    then show ?thesis
      using round_to_signed [of x F] round_to_signed [of y F] by (intro signed_range_le) simp_all
  next
    case 4
    then show ?thesis
      using round_to_signed [of y F] assms(1) by (cases "y = 0") (simp_all add: signed_range_zero)
  next
    case 5
    then show ?thesis
      using round_to_signed [of x F] assms(1) by (cases "x = 0") (simp_all add: signed_range_zero)
  qed
qed

section \<open>The total order\<close>

lemma total_gt_le: "x \<noteq> NaN \<Longrightarrow> y \<noteq> NaN \<Longrightarrow> \<not> total_gt x y \<Longrightarrow> fl_le x y"
proof (cases x; cases y)
  fix s t assume "x = Inf s" "y = Inf t" "\<not> total_gt x y"
  then show "fl_le x y" by (cases s; cases t) (auto simp: total_gt_def)
next
  fix s q assume "x = Inf s" "y = Fin q" "\<not> total_gt x y"
  then show "fl_le x y" by (cases s) (auto simp: total_gt_def)
next
  fix s q assume "x = Fin q" "y = Inf s" "\<not> total_gt x y"
  then show "fl_le x y" by (cases s) (auto simp: total_gt_def)
next
  fix s assume "x = Inf s" "y = NegZero" "\<not> total_gt x y"
  then show "fl_le x y" by (cases s) (auto simp: total_gt_def)
next
  fix s assume "x = NegZero" "y = Inf s" "\<not> total_gt x y"
  then show "fl_le x y" by (cases s) (auto simp: total_gt_def)
qed (auto simp: total_gt_def)

interpretation total_cmp: cmp_order "\<lambda>_. True" total_gt
  by unfold_locales (auto simp: total_gt_def)

section \<open>Printing\<close>

text \<open>
  \<open>format!("{value:.1}")\<close> of a finite value: the exact value to one decimal, ties to even, with
  the sign kept for a negative zero. The infinities and NaN print as Rust prints them.
\<close>

definition show_tenths :: "rat \<Rightarrow> string" where
  "show_tenths q =
     (let t = nat (round_half_even (\<bar>q\<bar> * 10)) in show_nat (t div 10) @ ''.'' @ show_nat (t mod 10))"

fun format_1 :: "fl \<Rightarrow> string" where
  "format_1 NaN = ''NaN''"
| "format_1 (Inf s) = (if s then ''-inf'' else ''inf'')"
| "format_1 NegZero = ''-0.0''"
| "format_1 (Fin q) = (if q < 0 then ''-'' else '''') @ show_tenths q"

end
