(* ===== verification/Btree.thy ===== *)
theory Btree
  imports Prelude
begin

text \<open>
  \<open>BTreeMap\<close>: finite maps that iterate in key order, as association lists sorted strictly by key.
  The interface the components rely on is the locale \<open>ordered_dict\<close>; the algebra of updates
  (commuting inserts, overwriting, removing what was inserted) is proved there once and the list
  representation is its instance.
\<close>

section \<open>The interface\<close>

locale ordered_dict =
  fixes wf :: "'m \<Rightarrow> bool"
    and get :: "'m \<Rightarrow> 'k :: linorder \<Rightarrow> 'v option"
    and empty_map :: 'm
    and put :: "'k \<Rightarrow> 'v \<Rightarrow> 'm \<Rightarrow> 'm"
    and del :: "'k \<Rightarrow> 'm \<Rightarrow> 'm"
    and keep :: "('k \<Rightarrow> 'v \<Rightarrow> bool) \<Rightarrow> 'm \<Rightarrow> 'm"
    and entries :: "'m \<Rightarrow> ('k \<times> 'v) list"
  assumes wf_empty: "wf empty_map"
    and wf_put: "wf m \<Longrightarrow> wf (put k v m)"
    and wf_del: "wf m \<Longrightarrow> wf (del k m)"
    and wf_keep: "wf m \<Longrightarrow> wf (keep p m)"
    and get_empty: "get empty_map k = None"
    and get_put: "wf m \<Longrightarrow> get (put k v m) j = (if j = k then Some v else get m j)"
    and get_del: "wf m \<Longrightarrow> get (del k m) j = (if j = k then None else get m j)"
    and get_keep:
      "wf m \<Longrightarrow> get (keep p m) j = (case get m j of None \<Rightarrow> None | Some v \<Rightarrow> if p j v then Some v else None)"
    and entries_iff: "wf m \<Longrightarrow> (k, v) \<in> set (entries m) \<longleftrightarrow> get m k = Some v"
    and entries_sorted: "wf m \<Longrightarrow> sorted_wrt (<) (map fst (entries m))"
    and canonical: "wf m \<Longrightarrow> wf m' \<Longrightarrow> get m = get m' \<Longrightarrow> m = m'"
begin

lemmas wf_ops = wf_empty wf_put wf_del wf_keep
lemmas get_ops = get_empty get_put get_del get_keep

lemma put_put: "wf m \<Longrightarrow> put k v (put k u m) = put k v m"
  by (rule canonical) (auto simp: wf_ops get_ops)

lemma put_commute: "wf m \<Longrightarrow> j \<noteq> k \<Longrightarrow> put j u (put k v m) = put k v (put j u m)"
  by (rule canonical) (auto simp: wf_ops get_ops)

lemma put_del: "wf m \<Longrightarrow> put k v (del k m) = put k v m"
  by (rule canonical) (auto simp: wf_ops get_ops)

lemma del_put: "wf m \<Longrightarrow> get m k = None \<Longrightarrow> del k (put k v m) = m"
  by (rule canonical) (auto simp: wf_ops get_ops)

lemma put_same: "wf m \<Longrightarrow> get m k = Some v \<Longrightarrow> put k v m = m"
  by (rule canonical) (auto simp: wf_ops get_ops)

lemma entries_distinct: "wf m \<Longrightarrow> distinct (map fst (entries m))"
  using entries_sorted strict_sorted_iff by blast

lemma entries_keys: "wf m \<Longrightarrow> set (map fst (entries m)) = {j. get m j \<noteq> None}"
  using entries_iff by force

lemma entries_length: "wf m \<Longrightarrow> length (entries m) = card {j. get m j \<noteq> None}"
  using distinct_card [OF entries_distinct] entries_keys by (metis length_map)

lemma entries_length_put:
  assumes "wf m"
  shows "length (entries (put k v m)) = length (entries m) + (if get m k = None then 1 else 0)"
proof -
  have fin: "finite {j. get m j \<noteq> None}"
    unfolding entries_keys [OF assms, symmetric] by simp
  have "{j. get (put k v m) j \<noteq> None} = insert k {j. get m j \<noteq> None}"
    using assms by (auto simp: get_put)
  then show ?thesis
    using fin assms by (auto simp: entries_length wf_put insert_absorb)
qed

end

section \<open>Sorted association lists\<close>

type_synonym ('k, 'v) btree = "('k \<times> 'v) list"

definition bt_ok :: "('k :: linorder, 'v) btree \<Rightarrow> bool" where
  "bt_ok m \<longleftrightarrow> sorted_wrt (<) (map fst m)"

definition bt_get :: "('k :: linorder, 'v) btree \<Rightarrow> 'k \<Rightarrow> 'v option" where
  "bt_get m k = map_of m k"

fun bt_insert :: "'k :: linorder \<Rightarrow> 'v \<Rightarrow> ('k, 'v) btree \<Rightarrow> ('k, 'v) btree" where
  "bt_insert k v [] = [(k, v)]"
| "bt_insert k v ((j, u) # m) =
     (if k < j then (k, v) # (j, u) # m
      else if k = j then (k, v) # m
      else (j, u) # bt_insert k v m)"

definition bt_remove :: "'k :: linorder \<Rightarrow> ('k, 'v) btree \<Rightarrow> ('k, 'v) btree" where
  "bt_remove k m = filter (\<lambda>(j, _). j \<noteq> k) m"

definition bt_retain :: "('k :: linorder \<Rightarrow> 'v \<Rightarrow> bool) \<Rightarrow> ('k, 'v) btree \<Rightarrow> ('k, 'v) btree" where
  "bt_retain p m = filter (\<lambda>(j, v). p j v) m"

definition bt_values :: "('k :: linorder, 'v) btree \<Rightarrow> 'v list" where
  "bt_values m = map snd m"

lemma bt_ok_Nil [simp]: "bt_ok []"
  by (simp add: bt_ok_def)

lemma bt_ok_Cons: "bt_ok ((k, v) # m) \<longleftrightarrow> (\<forall>j \<in> fst ` set m. k < j) \<and> bt_ok m"
  by (simp add: bt_ok_def)

lemma bt_get_Nil [simp]: "bt_get [] k = None"
  by (simp add: bt_get_def)

lemma keys_bt_insert: "fst ` set (bt_insert k v m) = insert k (fst ` set m)"
  by (induction k v m rule: bt_insert.induct) auto

lemma bt_ok_insert [simp]: "bt_ok m \<Longrightarrow> bt_ok (bt_insert k v m)"
proof (induction k v m rule: bt_insert.induct)
  case (2 k v j u m)
  then show ?case by (auto simp: bt_ok_Cons keys_bt_insert)
qed (simp add: bt_ok_def)

lemma bt_ok_filter: "bt_ok m \<Longrightarrow> bt_ok (filter p m)"
  by (induction m) (auto simp: bt_ok_Cons)

lemma bt_ok_remove [simp]: "bt_ok m \<Longrightarrow> bt_ok (bt_remove k m)"
  unfolding bt_remove_def by (rule bt_ok_filter)

lemma bt_ok_retain [simp]: "bt_ok m \<Longrightarrow> bt_ok (bt_retain p m)"
  unfolding bt_retain_def by (rule bt_ok_filter)

lemma bt_get_insert [simp]:
  "bt_get (bt_insert k v m) j = (if j = k then Some v else bt_get m j)"
  by (induction k v m rule: bt_insert.induct) (auto simp: bt_get_def)

lemma bt_get_remove [simp]: "bt_get (bt_remove k m) j = (if j = k then None else bt_get m j)"
  by (induction m) (auto simp: bt_get_def bt_remove_def)

lemma bt_get_iff: "bt_ok m \<Longrightarrow> (k, v) \<in> set m \<longleftrightarrow> bt_get m k = Some v"
  unfolding bt_get_def bt_ok_def by (metis map_of_eq_Some_iff strict_sorted_iff)

lemma bt_get_retain [simp]:
  assumes "bt_ok m"
  shows "bt_get (bt_retain p m) j =
    (case bt_get m j of None \<Rightarrow> None | Some v \<Rightarrow> if p j v then Some v else None)"
proof (cases "bt_get (bt_retain p m) j")
  case None
  then have "(j, v) \<notin> set (bt_retain p m)" for v
    using bt_get_iff [OF bt_ok_retain [OF assms]] by (metis option.distinct(1))
  then show ?thesis
    using None bt_get_iff [OF assms]
    by (auto simp: bt_retain_def split: option.splits)
next
  case (Some v)
  then have "(j, v) \<in> set m" "p j v"
    using bt_get_iff [OF bt_ok_retain [OF assms]] by (auto simp: bt_retain_def)
  then show ?thesis using Some bt_get_iff [OF assms] by auto
qed

lemma bt_canonical:
  assumes "bt_ok m" "bt_ok m'" "bt_get m = bt_get m'"
  shows "m = m'"
proof (rule map_sorted_distinct_set_unique [where f = fst])
  have "set m = set m'"
    using bt_get_iff [OF assms(1)] bt_get_iff [OF assms(2)] assms(3) by auto
  then show "set m = set m'" .
  then show "inj_on fst (set m \<union> set m')"
    using assms(1) unfolding bt_ok_def by (simp add: strict_sorted_iff distinct_map)
qed (use assms in \<open>auto simp: bt_ok_def strict_sorted_iff\<close>)

interpretation btree: ordered_dict bt_ok bt_get "[]" bt_insert bt_remove bt_retain id
  by unfold_locales
    (simp_all add: bt_get_iff bt_ok_def [symmetric] bt_canonical split: option.splits)

lemma bt_get_Some_in: "bt_get m k = Some v \<Longrightarrow> (k, v) \<in> set m"
  unfolding bt_get_def by (rule map_of_SomeD)

lemma set_bt_values: "bt_ok m \<Longrightarrow> v \<in> set (bt_values m) \<longleftrightarrow> (\<exists>k. bt_get m k = Some v)"
  using bt_get_iff by (force simp: bt_values_def)

lemma bt_values_Nil [simp]: "bt_values [] = []"
  by (simp add: bt_values_def)

lemma bt_values_Nil_iff [simp]: "bt_values m = [] \<longleftrightarrow> m = []"
  by (simp add: bt_values_def)

end
