(* ===== verification/Model.thy ===== *)
theory Model
  imports Ieee Btree
begin

text \<open>
  The vocabulary every component shares (\<open>crates/rackio-core/src/model.rs\<close>) and the anchored
  clock (\<open>clock.rs\<close>): node states, samples, the projection of a sample to the live trend, and the
  bounded trend window. Record fields carry a prefix per struct because Isabelle's selectors are
  global; apart from that they are the source's names.
\<close>

section \<open>Data\<close>

datatype NodeState =
  Healthy | Warning | Critical | Stale | Offline | AuthError | Incompatible | Degraded

datatype ConnectionPath = LanDirect | WanDirect | Relayed | UnknownPath

datatype CapabilityState = Supported | Unsupported | PermissionDenied

type_synonym uuid = "128 word"

record MetricCapability =
  cap_name :: string
  cap_state :: CapabilityState
  cap_detail :: "string option"

record ProtocolVersion =
  pv_major :: u32
  pv_minor :: u32

definition V1 :: ProtocolVersion where
  "V1 = \<lparr>pv_major = 1, pv_minor = 1\<rparr>"

definition is_compatible_with :: "ProtocolVersion \<Rightarrow> ProtocolVersion \<Rightarrow> bool" where
  "is_compatible_with v w \<longleftrightarrow> pv_major v = pv_major w"

record NodeInfo =
  ni_node_id :: uuid
  ni_display_name :: string
  ni_os :: string
  ni_architecture :: string
  ni_agent_version :: string
  ni_protocol :: ProtocolVersion
  ni_capabilities :: "MetricCapability list"

record DiskMetric =
  dm_mount :: string
  dm_total_bytes :: u64
  dm_used_bytes :: u64

record TemperatureMetric =
  tm_label :: string
  tm_celsius :: fl
  tm_critical_celsius :: "fl option"
  tm_sensor_count :: u32

record NetworkMetric =
  nm_received_bytes_per_second :: u64
  nm_sent_bytes_per_second :: u64

record CollectorError =
  ce_source :: string
  ce_kind :: CapabilityState
  ce_message :: string

record MetricSample =
  ms_timestamp_ms :: i64
  ms_sequence :: u64
  ms_cpu_percent :: "fl option"
  ms_memory_used_bytes :: "u64 option"
  ms_memory_total_bytes :: "u64 option"
  ms_swap_used_bytes :: "u64 option"
  ms_swap_total_bytes :: "u64 option"
  ms_disks :: "DiskMetric list"
  ms_network :: "NetworkMetric option"
  ms_temperature :: "TemperatureMetric option"
  ms_uptime_seconds :: u64
  ms_errors :: "CollectorError list"

record TrendSample =
  ts_timestamp_ms :: i64
  ts_cpu_percent :: "fl option"
  ts_memory_used_bytes :: "u64 option"
  ts_memory_total_bytes :: "u64 option"
  ts_swap_used_bytes :: "u64 option"
  ts_swap_total_bytes :: "u64 option"
  ts_disk_used_bytes :: "u64 option"
  ts_disk_total_bytes :: "u64 option"
  ts_temperature_celsius :: "fl option"
  ts_network_received_bytes_per_second :: "u64 option"
  ts_network_sent_bytes_per_second :: "u64 option"
  ts_rtt_ms :: "u64 option"

record HealthSnapshot =
  hs_state :: NodeState
  hs_collector_degraded :: bool
  hs_storage_degraded :: bool
  hs_remote_listener_degraded :: bool
  hs_details :: "string list"

section \<open>The fullest disk and the trend projection\<close>

text \<open>\<open>left.used * right.total > right.used * left.total\<close> in saturating \<open>u128\<close>.\<close>

definition disk_gt :: "DiskMetric \<Rightarrow> DiskMetric \<Rightarrow> bool" where
  "disk_gt left right \<longleftrightarrow>
     u128_saturating_mul (unat (dm_used_bytes left)) (unat (dm_total_bytes right))
     > u128_saturating_mul (unat (dm_used_bytes right)) (unat (dm_total_bytes left))"

definition worst_disk :: "MetricSample \<Rightarrow> DiskMetric option" where
  "worst_disk sample = max_by disk_gt (filter (\<lambda>disk. 0 < dm_total_bytes disk) (ms_disks sample))"

definition TrendSample_from :: "MetricSample \<Rightarrow> TrendSample" where
  "TrendSample_from sample =
     (let worst = worst_disk sample in
      \<lparr>ts_timestamp_ms = ms_timestamp_ms sample,
       ts_cpu_percent = ms_cpu_percent sample,
       ts_memory_used_bytes = ms_memory_used_bytes sample,
       ts_memory_total_bytes = ms_memory_total_bytes sample,
       ts_swap_used_bytes = ms_swap_used_bytes sample,
       ts_swap_total_bytes = ms_swap_total_bytes sample,
       ts_disk_used_bytes = map_option dm_used_bytes worst,
       ts_disk_total_bytes = map_option dm_total_bytes worst,
       ts_temperature_celsius = map_option tm_celsius (ms_temperature sample),
       ts_network_received_bytes_per_second =
         map_option nm_received_bytes_per_second (ms_network sample),
       ts_network_sent_bytes_per_second =
         map_option nm_sent_bytes_per_second (ms_network sample),
       ts_rtt_ms = None\<rparr>)"

section \<open>The trend window\<close>

record TrendWindow =
  tw_samples :: "TrendSample list"

definition CAPACITY :: nat where
  "CAPACITY = 120"

definition TrendWindow_default :: TrendWindow where
  "TrendWindow_default = \<lparr>tw_samples = []\<rparr>"

definition push :: "TrendWindow \<Rightarrow> TrendSample \<Rightarrow> TrendWindow" where
  "push window sample =
     (let samples = tw_samples window @ [sample];
          excess = length samples - CAPACITY
      in window\<lparr>tw_samples := drop excess samples\<rparr>)"

definition from_samples :: "MetricSample list \<Rightarrow> TrendWindow" where
  "from_samples samples =
     foldl (\<lambda>window sample. push window (TrendSample_from sample)) TrendWindow_default
       (drop (length samples - CAPACITY) samples)"

section \<open>The anchored clock\<close>

text \<open>
  \<open>elapsed_ms\<close> is the reading of the monotonic clock since the anchor, in milliseconds (a
  \<open>u128\<close>); the operating system's clocks are inputs.
\<close>

record Clock =
  wall_anchor_ms :: i64

definition Clock_new :: "i64 \<Rightarrow> Clock" where
  "Clock_new utc_now_ms = \<lparr>wall_anchor_ms = utc_now_ms\<rparr>"

definition now_ms :: "Clock \<Rightarrow> nat \<Rightarrow> i64" where
  "now_ms clock elapsed_ms =
     (let elapsed = (if int elapsed_ms \<le> i64_max then int elapsed_ms else i64_max)
      in i64_saturating_add (wall_anchor_ms clock) elapsed)"

section \<open>Lemmas\<close>

text \<open>How full a disk is, as an exact fraction: the specification of the comparison.\<close>

definition fullness :: "DiskMetric \<Rightarrow> rat" where
  "fullness disk = of_nat (unat (dm_used_bytes disk)) / of_nat (unat (dm_total_bytes disk))"

lemma disk_gt_fullness:
  assumes "0 < dm_total_bytes left" and "0 < dm_total_bytes right"
  shows "disk_gt left right \<longleftrightarrow> fullness right < fullness left"
proof -
  have pos: "0 < unat (dm_total_bytes left)" "0 < unat (dm_total_bytes right)"
    using assms by (simp_all add: word_less_nat_alt)
  then show ?thesis
    unfolding disk_gt_def fullness_def by (simp only: u128_saturating_mul_u64 frac_less_iff_nat)
qed

interpretation disk_order: cmp_order "\<lambda>disk. 0 < dm_total_bytes disk" disk_gt
  by unfold_locales (auto simp: disk_gt_fullness)

lemma now_ms_in_i64 [simp]: "in_i64 (now_ms clock e)"
  by (simp add: now_ms_def i64_saturating_add_def)

lemma tw_samples_push:
  "tw_samples (push w s) = drop (Suc (length (tw_samples w)) - CAPACITY) (tw_samples w @ [s])"
  by (simp add: push_def)

lemma push_bound: "length (tw_samples (push w s)) \<le> CAPACITY"
  by (simp add: tw_samples_push)

lemma foldl_push_samples:
  assumes "length (tw_samples w) \<le> CAPACITY"
  shows "tw_samples (foldl (\<lambda>w s. push w (f s)) w xs) =
    drop (length (tw_samples w) + length xs - CAPACITY) (tw_samples w @ map f xs)"
  using assms
proof (induction xs arbitrary: w)
  case (Cons x xs)
  let ?e = "Suc (length (tw_samples w)) - CAPACITY"
  have "tw_samples (foldl (\<lambda>w s. push w (f s)) w (x # xs)) =
      drop (Suc (length (tw_samples w)) - ?e + length xs - CAPACITY)
        (drop ?e (tw_samples w @ [f x]) @ map f xs)"
    using Cons.IH [OF push_bound, of w "f x"] by (simp add: tw_samples_push del: drop_append)
  also have "drop ?e (tw_samples w @ [f x]) @ map f xs = drop ?e (tw_samples w @ map f (x # xs))"
    by (simp add: CAPACITY_def)
  also have "drop (Suc (length (tw_samples w)) - ?e + length xs - CAPACITY) \<dots> =
      drop (length (tw_samples w) + length (x # xs) - CAPACITY) (tw_samples w @ map f (x # xs))"
    using Cons.prems by (cases "length (tw_samples w) = CAPACITY") (simp_all add: drop_drop CAPACITY_def)
  finally show ?case .
qed simp

section \<open>Properties\<close>

definition plain_sample :: "i64 \<Rightarrow> fl option \<Rightarrow> DiskMetric list \<Rightarrow> MetricSample" where
  "plain_sample t cpu disks =
     \<lparr>ms_timestamp_ms = t, ms_sequence = 0, ms_cpu_percent = cpu, ms_memory_used_bytes = None,
      ms_memory_total_bytes = None, ms_swap_used_bytes = None, ms_swap_total_bytes = None,
      ms_disks = disks, ms_network = None, ms_temperature = None, ms_uptime_seconds = 0,
      ms_errors = []\<rparr>"

lemma worst_disk_cases:
  shows "worst_disk sample = None \<longleftrightarrow> (\<forall>d \<in> set (ms_disks sample). dm_total_bytes d = 0)"
    and "worst_disk sample = Some disk \<Longrightarrow>
      \<exists>before after. ms_disks sample = before @ disk # after \<and> 0 < dm_total_bytes disk \<and>
        (\<forall>d \<in> set before. 0 < dm_total_bytes d \<longrightarrow> fullness d \<le> fullness disk) \<and>
        (\<forall>d \<in> set after. 0 < dm_total_bytes d \<longrightarrow> fullness d < fullness disk)"
proof -
  let ?P = "\<lambda>d. 0 < dm_total_bytes d"
  show "worst_disk sample = None \<longleftrightarrow> (\<forall>d \<in> set (ms_disks sample). dm_total_bytes d = 0)"
    by (auto simp: worst_disk_def filter_empty_conv word_greater_zero_iff)
  assume some: "worst_disk sample = Some disk"
  have all: "list_all ?P (filter ?P (ms_disks sample))" by (simp add: list_all_iff)
  note maximal = disk_order.max_by_maximal [OF all some [unfolded worst_disk_def]]
  from disk_order.max_by_last [OF all some [unfolded worst_disk_def]] obtain ys zs where
    split: "filter ?P (ms_disks sample) = ys @ disk # zs" "list_all (disk_gt disk) zs" by blast
  from filter_split [OF split(1)] obtain before after where
    parts: "ms_disks sample = before @ disk # after" "?P disk" "zs = filter ?P after" by blast
  have "\<not> disk_gt d disk" if "d \<in> set before" "?P d" for d
    using maximal [of d] that parts(1) by simp
  moreover have "disk_gt disk d" if "d \<in> set after" "?P d" for d
    using split(2) that parts(3) by (simp add: list_all_iff)
  ultimately show "\<exists>before after. ms_disks sample = before @ disk # after \<and> 0 < dm_total_bytes disk \<and>
      (\<forall>d \<in> set before. 0 < dm_total_bytes d \<longrightarrow> fullness d \<le> fullness disk) \<and>
      (\<forall>d \<in> set after. 0 < dm_total_bytes d \<longrightarrow> fullness d < fullness disk)"
    using parts(1,2)
    by (intro exI [of _ before] exI [of _ after]) (auto simp: disk_gt_fullness not_less)
qed

text \<open>
  \<open>MetricSample::worst_disk\<close> returns a disk with a capacity that no other such disk of the
  sample exceeds in used fraction, compared exactly although the code compares saturating 128-bit
  products, and it is the last of the equally full ones; it returns none exactly when no disk of
  the sample has a capacity.
\<close>

theorem worst_disk_fullest:
  "case worst_disk sample of
     None \<Rightarrow> \<forall>d \<in> set (ms_disks sample). dm_total_bytes d = 0
   | Some disk \<Rightarrow>
       \<exists>before after. ms_disks sample = before @ disk # after \<and> 0 < dm_total_bytes disk \<and>
         (\<forall>d \<in> set before. 0 < dm_total_bytes d \<longrightarrow> fullness d \<le> fullness disk) \<and>
         (\<forall>d \<in> set after. 0 < dm_total_bytes d \<longrightarrow> fullness d < fullness disk)"
  using worst_disk_cases [of sample] by (auto split: option.split)

definition witness_disks :: "DiskMetric list" where
  "witness_disks =
     [\<lparr>dm_mount = ''/'', dm_total_bytes = 100, dm_used_bytes = 50\<rparr>,
      \<lparr>dm_mount = ''/a'', dm_total_bytes = 0, dm_used_bytes = 0\<rparr>,
      \<lparr>dm_mount = ''/b'', dm_total_bytes = 10, dm_used_bytes = 9\<rparr>]"

theorem worst_disk_fullest_witness:
  "(\<exists>before after. ms_disks (plain_sample 0 None witness_disks) = before @ witness_disks ! 2 # after \<and>
     0 < dm_total_bytes (witness_disks ! 2) \<and>
     (\<forall>d \<in> set before. 0 < dm_total_bytes d \<longrightarrow> fullness d \<le> fullness (witness_disks ! 2)) \<and>
     (\<forall>d \<in> set after. 0 < dm_total_bytes d \<longrightarrow> fullness d < fullness (witness_disks ! 2)))"
proof -
  have "worst_disk (plain_sample 0 None witness_disks) = Some (witness_disks ! 2)" by code_simp
  then show ?thesis using worst_disk_fullest [of "plain_sample 0 None witness_disks"] by simp
qed

text \<open>
  \<open>TrendWindow::from_samples\<close> equals a window into which every stored sample was pushed live,
  although it skips all but the last \<open>CAPACITY\<close> of them, and it holds exactly the projections of
  the most recent \<open>CAPACITY\<close> samples, oldest first; a single \<open>push\<close> restores the bound from any
  window and ends with the pushed sample.
\<close>

theorem trend_window_rebuild:
  "foldl (\<lambda>window sample. push window (TrendSample_from sample)) TrendWindow_default samples =
     from_samples samples \<and>
   tw_samples (from_samples samples) =
     map TrendSample_from (drop (length samples - CAPACITY) samples) \<and>
   length (tw_samples (push window s)) \<le> CAPACITY \<and> last (tw_samples (push window s)) = s"
proof -
  have live: "tw_samples (foldl (\<lambda>w s. push w (TrendSample_from s)) TrendWindow_default xs) =
      map TrendSample_from (drop (length xs - CAPACITY) xs)" for xs
    by (simp add: foldl_push_samples TrendWindow_default_def drop_map)
  have rebuilt: "tw_samples (from_samples samples) =
      map TrendSample_from (drop (length samples - CAPACITY) samples)"
    unfolding from_samples_def live by (simp add: min_def)
  have "last (tw_samples (push window s)) = s"
    by (simp add: tw_samples_push CAPACITY_def last_drop)
  then show ?thesis
    using live [of samples] rebuilt push_bound by simp
qed

text \<open>
  The anchored clock never runs backwards and never leaves the range of \<open>i64\<close>: a later reading
  of the monotonic clock gives a later or equal timestamp, none is before the anchor, and until
  the range is exhausted it is the anchor plus the elapsed milliseconds.
\<close>

theorem clock_monotone:
  assumes "e \<le> e'" and "in_i64 (wall_anchor_ms clock)"
  shows "wall_anchor_ms clock \<le> now_ms clock e \<and> now_ms clock e \<le> now_ms clock e' \<and>
    in_i64 (now_ms clock e') \<and>
    (wall_anchor_ms clock + int e \<le> i64_max \<and> int e \<le> i64_max \<longrightarrow>
       now_ms clock e = wall_anchor_ms clock + int e)"
  using assms
  by (auto simp: now_ms_def i64_saturating_add_def i64_saturate_def in_i64_def i64_limits Let_def)

theorem clock_monotone_witness:
  "now_ms (Clock_new 1000) 5 \<le> now_ms (Clock_new 1000) 9 \<and> now_ms (Clock_new 1000) 5 = 1005"
  using clock_monotone [of 5 9 "Clock_new 1000"] by (simp add: Clock_new_def in_i64_def i64_limits)

end
