(* ===== verification/Alert.thy ===== *)
theory Alert
  imports Model
begin

text \<open>
  Alert rules and their evaluation (\<open>crates/rackio-core/src/alert.rs\<close>): the shipped rules, the
  merge of an operator's overrides, the reading of a metric from a sample, the debounced evaluator
  with its per-rule counters, and the texts an operator reads. The evaluator's two \<open>BTreeMap\<close>s are
  the sorted association lists of \<open>Btree\<close>, so its lines come out in rule-id order.
\<close>

section \<open>Rules\<close>

definition SAMPLES_PER_MINUTE :: u32 where
  "SAMPLES_PER_MINUTE = 30"

datatype Comparison = GreaterThanOrEqual | LessThanOrEqual

record AlertRule =
  ar_id :: string
  ar_metric :: string
  ar_comparison :: Comparison
  ar_threshold :: fl
  ar_consecutive_samples :: u32
  ar_severity :: NodeState

definition rule :: "string \<Rightarrow> string \<Rightarrow> Comparison \<Rightarrow> fl \<Rightarrow> u32 \<Rightarrow> NodeState \<Rightarrow> AlertRule" where
  "rule rid metric comparison threshold samples severity =
     \<lparr>ar_id = rid, ar_metric = metric, ar_comparison = comparison, ar_threshold = threshold,
      ar_consecutive_samples = samples, ar_severity = severity\<rparr>"

definition default_alert_rules :: "AlertRule list" where
  "default_alert_rules =
     [rule ''disk-capacity-warning'' ''disk_percent'' GreaterThanOrEqual (Fin 90) 3 Warning,
      rule ''disk-capacity-critical'' ''disk_percent'' GreaterThanOrEqual (Fin 95) 3 Critical,
      rule ''memory-pressure-warning'' ''memory_percent'' GreaterThanOrEqual (Fin 90)
        SAMPLES_PER_MINUTE Warning,
      rule ''memory-pressure-critical'' ''memory_percent'' GreaterThanOrEqual (Fin 97)
        SAMPLES_PER_MINUTE Critical,
      rule ''cpu-saturation-warning'' ''cpu_percent'' GreaterThanOrEqual (Fin 90)
        (SAMPLES_PER_MINUTE * 5) Warning,
      rule ''temperature-headroom-warning'' ''temperature_headroom_celsius'' LessThanOrEqual (Fin 5)
        15 Warning,
      rule ''temperature-critical'' ''temperature_headroom_celsius'' LessThanOrEqual (Fin 0)
        15 Critical]"

datatype AlertRuleSource = BuiltIn | Configured

record AlertRuleConfig =
  rc_id :: string
  rc_metric :: "string option"
  rc_comparison :: "Comparison option"
  rc_threshold :: "fl option"
  rc_consecutive_samples :: "u32 option"
  rc_severity :: "NodeState option"
  rc_enabled :: "bool option"

definition AlertRuleConfig_new :: "string \<Rightarrow> AlertRuleConfig" where
  "AlertRuleConfig_new rid =
     \<lparr>rc_id = rid, rc_metric = None, rc_comparison = None, rc_threshold = None,
      rc_consecutive_samples = None, rc_severity = None, rc_enabled = None\<rparr>"

record ResolvedAlertRule =
  rr_rule :: AlertRule
  rr_enabled :: bool
  rr_source :: AlertRuleSource

definition ALERT_METRICS :: "string list" where
  "ALERT_METRICS =
     [''cpu_percent'', ''memory_percent'', ''swap_percent'', ''disk_percent'',
      ''temperature_celsius'', ''temperature_headroom_celsius'']"

section \<open>Resolving an operator's changes\<close>

fun join :: "string \<Rightarrow> string list \<Rightarrow> string" where
  "join sep [] = []"
| "join sep [x] = x"
| "join sep (x # xs) = x @ sep @ join sep xs"

fun NodeState_debug :: "NodeState \<Rightarrow> string" where
  "NodeState_debug Healthy = ''Healthy''"
| "NodeState_debug Warning = ''Warning''"
| "NodeState_debug Critical = ''Critical''"
| "NodeState_debug Stale = ''Stale''"
| "NodeState_debug Offline = ''Offline''"
| "NodeState_debug AuthError = ''AuthError''"
| "NodeState_debug Incompatible = ''Incompatible''"
| "NodeState_debug Degraded = ''Degraded''"

definition new_rule_missing :: "AlertRuleConfig \<Rightarrow> string \<Rightarrow> string" where
  "new_rule_missing change field =
     ''alert rule `'' @ rc_id change @
     ''` is not one Rackio ships, so it must define `'' @ field @ ''`''"

definition new_rule :: "AlertRuleConfig \<Rightarrow> (string, AlertRule) result" where
  "new_rule change =
     rbind (ok_or (new_rule_missing change ''metric'') (rc_metric change)) (\<lambda>metric.
     rbind (ok_or (new_rule_missing change ''comparison'') (rc_comparison change)) (\<lambda>comparison.
     rbind (ok_or (new_rule_missing change ''threshold'') (rc_threshold change)) (\<lambda>threshold.
     rbind (ok_or (new_rule_missing change ''severity'') (rc_severity change)) (\<lambda>severity.
       Inr \<lparr>ar_id = rc_id change, ar_metric = metric, ar_comparison = comparison,
            ar_threshold = threshold,
            ar_consecutive_samples =
              (case rc_consecutive_samples change of None \<Rightarrow> 1 | Some n \<Rightarrow> n),
            ar_severity = severity\<rparr>))))"

definition override :: "'a option \<Rightarrow> 'a \<Rightarrow> 'a" where
  "override change old = (case change of None \<Rightarrow> old | Some new \<Rightarrow> new)"

definition apply_override :: "AlertRule \<Rightarrow> AlertRuleConfig \<Rightarrow> AlertRule" where
  "apply_override r change =
     r\<lparr>ar_metric := override (rc_metric change) (ar_metric r),
       ar_comparison := override (rc_comparison change) (ar_comparison r),
       ar_threshold := override (rc_threshold change) (ar_threshold r),
       ar_consecutive_samples :=
         override (rc_consecutive_samples change) (ar_consecutive_samples r),
       ar_severity := override (rc_severity change) (ar_severity r)\<rparr>"

definition changes_a_level :: "AlertRuleConfig \<Rightarrow> bool" where
  "changes_a_level change \<longleftrightarrow>
     rc_metric change \<noteq> None \<or> rc_comparison change \<noteq> None \<or> rc_threshold change \<noteq> None \<or>
     rc_consecutive_samples change \<noteq> None \<or> rc_severity change \<noteq> None"

definition validate :: "AlertRule \<Rightarrow> (string, unit) result" where
  "validate r =
     (if ar_metric r \<notin> set ALERT_METRICS then
        Inl (''alert rule `'' @ ar_id r @ ''` names the unknown metric `'' @ ar_metric r @
             ''`; known metrics are '' @ join '', '' ALERT_METRICS)
      else if \<not> is_finite (ar_threshold r) then
        Inl (''alert rule `'' @ ar_id r @ ''` has a threshold that is not a finite number'')
      else if ar_severity r \<notin> {Warning, Critical} then
        Inl (''alert rule `'' @ ar_id r @ ''` must report `warning` or `critical`; `'' @
             NodeState_debug (ar_severity r) @ ''` is not a level a threshold can reach'')
      else Inr ())"

definition override_entry :: "AlertRuleConfig \<Rightarrow> ResolvedAlertRule \<Rightarrow> ResolvedAlertRule" where
  "override_entry change known =
     known\<lparr>rr_rule := apply_override (rr_rule known) change,
           rr_enabled := override (rc_enabled change) (rr_enabled known),
           rr_source := (if changes_a_level change then Configured else rr_source known)\<rparr>"

definition apply_change ::
  "ResolvedAlertRule list \<Rightarrow> AlertRuleConfig \<Rightarrow> (string, ResolvedAlertRule list) result" where
  "apply_change resolved change =
     (case update_first (\<lambda>known. ar_id (rr_rule known) = rc_id change) (override_entry change) resolved of
        Some updated \<Rightarrow> Inr updated
      | None \<Rightarrow>
          rbind (new_rule change) (\<lambda>r.
            Inr (resolved @ [\<lparr>rr_rule = r, rr_enabled = override (rc_enabled change) True,
                              rr_source = Configured\<rparr>])))"

fun apply_changes ::
  "ResolvedAlertRule list \<Rightarrow> AlertRuleConfig list \<Rightarrow> (string, ResolvedAlertRule list) result" where
  "apply_changes resolved [] = Inr resolved"
| "apply_changes resolved (change # rest) =
     rbind (apply_change resolved change) (\<lambda>next. apply_changes next rest)"

fun validate_all :: "ResolvedAlertRule list \<Rightarrow> (string, unit) result" where
  "validate_all [] = Inr ()"
| "validate_all (entry # rest) = rbind (validate (rr_rule entry)) (\<lambda>_. validate_all rest)"

definition shipped_rules :: "ResolvedAlertRule list" where
  "shipped_rules =
     map (\<lambda>r. \<lparr>rr_rule = r, rr_enabled = True, rr_source = BuiltIn\<rparr>) default_alert_rules"

definition resolve_alert_rules ::
  "AlertRuleConfig list \<Rightarrow> (string, ResolvedAlertRule list) result" where
  "resolve_alert_rules overrides =
     rbind (apply_changes shipped_rules overrides) (\<lambda>resolved.
     rbind (validate_all resolved) (\<lambda>_. Inr resolved))"

section \<open>Reading a metric\<close>

record Reading =
  rd_value :: fl
  rd_scope :: "string option"

definition percentage :: "u64 \<Rightarrow> u64 \<Rightarrow> fl" where
  "percentage used tot =
     (let product = u128_saturating_mul (unat used) 10000;
          basis_points = (if unat tot = 0 then 0 else product div unat tot);
          basis_points = (if basis_points \<le> u32_max then basis_points else u32_max)
      in fl_div f64_fmt (Fin (of_nat basis_points)) (Fin 100))"

definition unscoped :: "fl \<Rightarrow> Reading" where
  "unscoped value = \<lparr>rd_value = value, rd_scope = None\<rparr>"

definition percentage_reading :: "u64 option \<Rightarrow> u64 option \<Rightarrow> Reading option" where
  "percentage_reading used tot =
     (case (used, tot) of
        (Some used, Some tot) \<Rightarrow>
          if 0 < tot then Some (unscoped (percentage used tot)) else None
      | _ \<Rightarrow> None)"

definition metric_reading :: "MetricSample \<Rightarrow> string \<Rightarrow> Reading option" where
  "metric_reading sample metric =
     (if metric = ''cpu_percent'' then
        map_option (\<lambda>v. unscoped (f64_from_f32 v)) (ms_cpu_percent sample)
      else if metric = ''memory_percent'' then
        percentage_reading (ms_memory_used_bytes sample) (ms_memory_total_bytes sample)
      else if metric = ''swap_percent'' then
        percentage_reading (ms_swap_used_bytes sample) (ms_swap_total_bytes sample)
      else if metric = ''disk_percent'' then
        max_by (\<lambda>left right. total_gt (rd_value left) (rd_value right))
          (map (\<lambda>disk. \<lparr>rd_value = percentage (dm_used_bytes disk) (dm_total_bytes disk),
                        rd_scope = Some (dm_mount disk)\<rparr>)
            (filter (\<lambda>disk. 0 < dm_total_bytes disk) (ms_disks sample)))
      else if metric = ''temperature_celsius'' then
        map_option (\<lambda>t. \<lparr>rd_value = f64_from_f32 (tm_celsius t), rd_scope = Some (tm_label t)\<rparr>)
          (ms_temperature sample)
      else if metric = ''temperature_headroom_celsius'' then
        (case ms_temperature sample of
           None \<Rightarrow> None
         | Some t \<Rightarrow>
             map_option (\<lambda>critical.
               \<lparr>rd_value = f64_from_f32 (fl_sub f32_fmt critical (tm_celsius t)),
                rd_scope = Some (tm_label t)\<rparr>)
               (tm_critical_celsius t))
      else None)"

section \<open>Texts\<close>

definition metric_subject :: "string \<Rightarrow> string" where
  "metric_subject metric =
     (if metric = ''cpu_percent'' then ''CPU''
      else if metric = ''memory_percent'' then ''Memory''
      else if metric = ''swap_percent'' then ''Swap''
      else if metric = ''disk_percent'' then ''Disk''
      else if metric = ''temperature_celsius'' then ''Temperature''
      else if metric = ''temperature_headroom_celsius'' then ''Temperature headroom''
      else metric)"

text \<open>The degree sign is the two UTF-8 bytes the source has.\<close>

definition metric_unit :: "string \<Rightarrow> string" where
  "metric_unit metric =
     (if ends_with metric ''_celsius'' then '' '' @ [CHR 0xC2, CHR 0xB0] @ ''C'' else ''%'')"

fun comparison_phrase :: "Comparison \<Rightarrow> string" where
  "comparison_phrase GreaterThanOrEqual = ''at or above''"
| "comparison_phrase LessThanOrEqual = ''at or below''"

definition severity_label :: "NodeState \<Rightarrow> string" where
  "severity_label severity =
     (case severity of Critical \<Rightarrow> ''critical'' | Warning \<Rightarrow> ''warning'' | _ \<Rightarrow> ''alert'')"

definition number :: "fl \<Rightarrow> string" where
  "number value =
     (let rounded = format_1 value
      in if ends_with rounded ''.0'' then take (length rounded - 2) rounded else rounded)"

definition breach_description :: "AlertRule \<Rightarrow> Reading \<Rightarrow> string" where
  "breach_description r reading =
     (let unit = metric_unit (ar_metric r);
          subject =
            (case rd_scope reading of
               Some scope \<Rightarrow> metric_subject (ar_metric r) @ '' '' @ scope
             | None \<Rightarrow> metric_subject (ar_metric r))
      in subject @ '' '' @ number (rd_value reading) @ unit @ '' is '' @
         comparison_phrase (ar_comparison r) @ '' the '' @ severity_label (ar_severity r) @
         '' threshold of '' @ number (ar_threshold r) @ unit)"

definition recovery_description :: "AlertRule \<Rightarrow> string" where
  "recovery_description r =
     metric_subject (ar_metric r) @ '' left the '' @ severity_label (ar_severity r) @
     '' threshold of '' @ number (ar_threshold r) @ metric_unit (ar_metric r)"

section \<open>The evaluator\<close>

record AlertSignal =
  as_rule_id :: string
  as_active :: bool
  as_severity :: NodeState
  as_detail :: string

record ActiveAlert =
  aa_severity :: NodeState
  aa_detail :: string

record AlertEvaluator =
  ae_counts :: "(string, u32) btree"
  ae_active :: "(string, ActiveAlert) btree"

definition AlertEvaluator_default :: AlertEvaluator where
  "AlertEvaluator_default = \<lparr>ae_counts = [], ae_active = []\<rparr>"

definition contains_rule :: "AlertRule list \<Rightarrow> string \<Rightarrow> bool" where
  "contains_rule rules rid = list_ex (\<lambda>r. ar_id r = rid) rules"

definition rule_matches :: "AlertRule \<Rightarrow> Reading \<Rightarrow> bool" where
  "rule_matches r reading =
     (case ar_comparison r of
        GreaterThanOrEqual \<Rightarrow> fl_ge (rd_value reading) (ar_threshold r)
      | LessThanOrEqual \<Rightarrow> fl_le (rd_value reading) (ar_threshold r))"

text \<open>The counter of a rule after one sample, and the reading if the rule is breached.\<close>

definition count_breach ::
  "AlertRule \<Rightarrow> Reading option \<Rightarrow> u32 option \<Rightarrow> u32 \<times> Reading option" where
  "count_breach r reading old =
     (case reading of
        None \<Rightarrow> (0, None)
      | Some rd \<Rightarrow>
          let count = (if rule_matches r rd then u32_saturating_add (override old 0) 1 else 0)
          in (count, if max 1 (ar_consecutive_samples r) \<le> count then Some rd else None))"

text \<open>One pass of the closure in \<open>evaluate\<close>: the evaluator after one rule, and its signal if any.\<close>

definition evaluate_rule ::
  "MetricSample \<Rightarrow> AlertEvaluator \<Rightarrow> AlertRule \<Rightarrow> AlertEvaluator \<times> AlertSignal option" where
  "evaluate_rule sample ev r =
     (let reading = metric_reading sample (ar_metric r);
          (count, breach) = count_breach r reading (bt_get (ae_counts ev) (ar_id r));
          counts = bt_insert (ar_id r) count (ae_counts ev);
          was_active = (bt_get (ae_active ev) (ar_id r) \<noteq> None);
          removed = bt_remove (ar_id r) (ae_active ev);
          detail = map_option (breach_description r) breach;
          active =
            (case detail of
               None \<Rightarrow> removed
             | Some d \<Rightarrow>
                 bt_insert (ar_id r) \<lparr>aa_severity = ar_severity r, aa_detail = d\<rparr> removed);
          now_active = (detail \<noteq> None)
      in (\<lparr>ae_counts = counts, ae_active = active\<rparr>,
          if now_active \<noteq> was_active then
            Some \<lparr>as_rule_id = ar_id r, as_active = now_active, as_severity = ar_severity r,
                  as_detail =
                    (case detail of
                       Some d \<Rightarrow> d
                     | None \<Rightarrow>
                         if reading = None then
                           metric_subject (ar_metric r) @
                           '' is unavailable; threshold recovery is unconfirmed''
                         else recovery_description r)\<rparr>
          else None))"

fun evaluate_rules ::
  "MetricSample \<Rightarrow> AlertEvaluator \<Rightarrow> AlertRule list \<Rightarrow> AlertEvaluator \<times> AlertSignal list" where
  "evaluate_rules sample ev [] = (ev, [])"
| "evaluate_rules sample ev (r # rs) =
     (let (ev', signal) = evaluate_rule sample ev r;
          (ev'', signals) = evaluate_rules sample ev' rs
      in (ev'', (case signal of None \<Rightarrow> signals | Some s \<Rightarrow> s # signals)))"

definition retain_rules :: "AlertRule list \<Rightarrow> AlertEvaluator \<Rightarrow> AlertEvaluator" where
  "retain_rules rules ev =
     \<lparr>ae_counts = bt_retain (\<lambda>rid _. contains_rule rules rid) (ae_counts ev),
      ae_active = bt_retain (\<lambda>rid _. contains_rule rules rid) (ae_active ev)\<rparr>"

definition evaluate ::
  "AlertEvaluator \<Rightarrow> MetricSample \<Rightarrow> AlertRule list \<Rightarrow> AlertEvaluator \<times> AlertSignal list" where
  "evaluate ev sample rules = evaluate_rules sample (retain_rules rules ev) rules"

definition severity_rank :: "NodeState \<Rightarrow> nat" where
  "severity_rank severity = (case severity of Critical \<Rightarrow> 2 | Warning \<Rightarrow> 1 | _ \<Rightarrow> 0)"

definition worst_active_severity :: "AlertEvaluator \<Rightarrow> NodeState option" where
  "worst_active_severity ev =
     max_by (\<lambda>a b. severity_rank b < severity_rank a) (map aa_severity (bt_values (ae_active ev)))"

definition active_details :: "AlertEvaluator \<Rightarrow> string list" where
  "active_details ev =
     map aa_detail (sort_key (\<lambda>alert. - int (severity_rank (aa_severity alert)))
       (bt_values (ae_active ev)))"

interpretation severity_cmp: cmp_order "\<lambda>_. True" "\<lambda>a b. severity_rank b < severity_rank a"
  by unfold_locales auto

section \<open>Percentages\<close>

lemma fl_ge_Fin_iff [simp]: "fl_ge (Fin a) (Fin b) \<longleftrightarrow> b \<le> a"
  by (simp add: fl_ge_def)

text \<open>
  Division of basis points by 100 is rounded, but an integral threshold is never crossed by the
  rounding: the nearest basis point below it is 1/100 away, and 1/128 below it is representable.
\<close>

lemma basis_points_threshold:
  assumes "T \<le> 1000"
  shows "fl_ge (round_to f64_fmt (of_nat n / 100)) (Fin (of_nat T)) \<longleftrightarrow> 100 * T \<le> n"
proof
  assume "100 * T \<le> n"
  then have "of_nat T \<le> (of_nat n / 100 :: rat)"
    by (simp add: field_simps)
  then have "fl_le (round_to f64_fmt (of_nat T)) (round_to f64_fmt (of_nat n / 100))"
    by (rule round_to_mono) simp
  moreover have "round_to f64_fmt (of_nat T) = Fin (of_nat T)"
    using round_to_f64_int [of "int T"] assms by simp
  ultimately show "fl_ge (round_to f64_fmt (of_nat n / 100)) (Fin (of_nat T))"
    by (simp add: fl_ge_def)
next
  assume ge: "fl_ge (round_to f64_fmt (of_nat n / 100)) (Fin (of_nat T))"
  show "100 * T \<le> n"
  proof (rule ccontr)
    assume "\<not> 100 * T \<le> n"
    then have "of_nat (n + 1) \<le> (of_nat (100 * T) :: rat)" by (simp only: of_nat_le_iff)
    then have le: "of_nat n / 100 \<le> (of_int (128 * int T - 1) / 2 ^ 7 :: rat)" by simp
    have "round_to f64_fmt (of_int (128 * int T - 1) / 2 ^ 7) = Fin (of_int (128 * int T - 1) / 2 ^ 7)"
      using assms by (intro round_to_f64_dyadic) simp_all
    then have "fl_le (round_to f64_fmt (of_nat n / 100)) (Fin (of_int (128 * int T - 1) / 2 ^ 7))"
      using round_to_mono [OF le, of f64_fmt] by simp
    then show False
      using ge round_to_not_NaN [of f64_fmt "of_nat n / 100"]
      by (cases "round_to f64_fmt (of_nat n / 100)") (auto simp: fl_ge_def split: if_splits)
  qed
qed

lemma percentage_eq:
  assumes "0 < tot"
  shows "percentage used tot = round_to f64_fmt (of_nat (min u32_max (unat used * 10000 div unat tot)) / 100)"
proof -
  have "unat tot \<noteq> 0" using assms by (simp add: unat_eq_0 word_greater_zero_iff)
  then show ?thesis
    using u128_saturating_mul_small [of 10000 used]
    by (auto simp: percentage_def Let_def min_def zero_of_def)
qed

lemma percentage_threshold:
  assumes "0 < tot" and "T \<le> 1000"
  shows "fl_ge (percentage used tot) (Fin (of_nat T)) \<longleftrightarrow> T * unat tot \<le> 100 * unat used"
proof -
  have pos: "0 < unat tot" using assms(1) by (simp add: word_less_nat_alt)
  have "100 * T \<le> min u32_max (unat used * 10000 div unat tot) \<longleftrightarrow>
      100 * T \<le> unat used * 10000 div unat tot"
    using assms(2) by (auto simp: u32_max_def)
  also have "\<dots> \<longleftrightarrow> 100 * T * unat tot \<le> unat used * 10000"
    using pos by (rule less_eq_div_iff_mult_less_eq)
  also have "\<dots> \<longleftrightarrow> T * unat tot \<le> 100 * unat used" by auto
  finally show ?thesis
    using assms by (simp add: percentage_eq basis_points_threshold)
qed

lemma percentage_not_NaN [simp]: "percentage used tot \<noteq> NaN"
  by (simp add: percentage_def Let_def zero_of_def)

lemma percentage_mono:
  assumes "0 < t" "0 < t'" and "unat u * unat t' \<le> unat u' * unat t"
  shows "fl_le (percentage u t) (percentage u' t')"
proof -
  have pos: "0 < unat t" "0 < unat t'" using assms(1,2) by (simp_all add: word_less_nat_alt)
  let ?q = "unat u * 10000 div unat t"
  have "?q * unat t \<le> unat u * 10000" by (rule div_times_less_eq_dividend)
  then have "?q * unat t * unat t' \<le> unat u * 10000 * unat t'" by (rule mult_le_mono1)
  also have "\<dots> \<le> unat u' * 10000 * unat t" using assms(3) by simp
  finally have "(?q * unat t') * unat t \<le> (unat u' * 10000) * unat t" by (simp only: ac_simps)
  then have "?q * unat t' \<le> unat u' * 10000" using pos(1) by simp
  then have "?q \<le> unat u' * 10000 div unat t'"
    using pos(2) by (simp add: less_eq_div_iff_mult_less_eq)
  then have "of_nat (min u32_max ?q) / 100 \<le>
      (of_nat (min u32_max (unat u' * 10000 div unat t')) / 100 :: rat)"
    by (intro divide_right_mono) (simp_all only: of_nat_le_iff zero_le_numeral min.mono order_refl)
  then show ?thesis
    using assms(1,2) by (simp add: percentage_eq round_to_mono)
qed

section \<open>Resolution\<close>

lemma ar_id_apply_override [simp]: "ar_id (apply_override r c) = ar_id r"
  by (simp add: apply_override_def)

lemma rr_id_override_entry [simp]: "ar_id (rr_rule (override_entry c e)) = ar_id (rr_rule e)"
  by (simp add: override_entry_def)

lemma new_rule_id: "new_rule c = Inr r \<Longrightarrow> ar_id r = rc_id c"
  by (auto simp: new_rule_def rbind_eq_Inr)

abbreviation entry_id :: "ResolvedAlertRule \<Rightarrow> string" where
  "entry_id e \<equiv> ar_id (rr_rule e)"

lemma apply_change_ids:
  assumes "apply_change rs c = Inr rs'"
  shows "map entry_id rs' = push_new (map entry_id rs) [rc_id c]"
proof (cases "update_first (\<lambda>known. entry_id known = rc_id c) (override_entry c) rs")
  case None
  then have "rc_id c \<notin> set (map entry_id rs)" by (auto simp: update_first_None list_ex_iff)
  then show ?thesis
    using assms None by (auto simp: apply_change_def rbind_eq_Inr dest: new_rule_id)
next
  case (Some ys)
  then have "list_ex (\<lambda>known. entry_id known = rc_id c) rs"
    by (metis option.distinct(1) update_first_None)
  then have "rc_id c \<in> set (map entry_id rs)" by (force simp: list_ex_iff)
  moreover have "map entry_id rs' = map entry_id rs"
    using assms Some by (auto simp: apply_change_def intro: update_first_map)
  ultimately show ?thesis by simp
qed

lemma apply_changes_ids:
  assumes "apply_changes rs cs = Inr rs'"
  shows "map entry_id rs' = push_new (map entry_id rs) (map rc_id cs)"
  using assms
proof (induction cs arbitrary: rs)
  case (Cons c cs)
  then obtain mid where mid: "apply_change rs c = Inr mid" "apply_changes mid cs = Inr rs'"
    by (auto simp: rbind_eq_Inr)
  then show ?case
    using Cons.IH [of mid] apply_change_ids [OF mid(1)] by simp
qed simp

lemma apply_change_other:
  assumes "apply_change rs c = Inr rs'" and "rid \<noteq> rc_id c"
  shows "filter (\<lambda>e. entry_id e = rid) rs' = filter (\<lambda>e. entry_id e = rid) rs"
proof (cases "update_first (\<lambda>known. entry_id known = rc_id c) (override_entry c) rs")
  case None
  then show ?thesis
    using assms by (auto simp: apply_change_def rbind_eq_Inr dest: new_rule_id)
next
  case (Some ys)
  from update_first_split [OF Some] obtain us x vs where
    "rs = us @ x # vs" "entry_id x = rc_id c" "ys = us @ override_entry c x # vs" by blast
  then show ?thesis
    using assms Some by (auto simp: apply_change_def)
qed

lemma apply_changes_other:
  assumes "apply_changes rs cs = Inr rs'" and "rid \<notin> rc_id ` set cs"
  shows "filter (\<lambda>e. entry_id e = rid) rs' = filter (\<lambda>e. entry_id e = rid) rs"
  using assms
proof (induction cs arbitrary: rs)
  case (Cons c cs)
  then obtain mid where mid: "apply_change rs c = Inr mid" "apply_changes mid cs = Inr rs'"
    by (auto simp: rbind_eq_Inr)
  then show ?case
    using Cons.IH [OF mid(2)] apply_change_other [OF mid(1)] Cons.prems(2) by auto
qed simp

lemma validate_all_iff: "validate_all rs = Inr () \<longleftrightarrow> (\<forall>e \<in> set rs. validate (rr_rule e) = Inr ())"
  by (induction rs) (auto simp: rbind_eq_Inr)

lemma validate_iff:
  "validate r = Inr () \<longleftrightarrow>
     ar_metric r \<in> set ALERT_METRICS \<and> is_finite (ar_threshold r) \<and>
     ar_severity r \<in> {Warning, Critical}"
  by (simp add: validate_def)

lemma resolve_eq_Inr:
  "resolve_alert_rules cs = Inr rs \<longleftrightarrow>
     apply_changes shipped_rules cs = Inr rs \<and> validate_all rs = Inr ()"
  by (auto simp: resolve_alert_rules_def rbind_eq_Inr)

lemma shipped_ids_distinct: "distinct (map entry_id shipped_rules)"
  by (simp add: shipped_rules_def default_alert_rules_def rule_def)

section \<open>One evaluation\<close>

definition evaluator_ok :: "AlertEvaluator \<Rightarrow> bool" where
  "evaluator_ok ev \<longleftrightarrow> bt_ok (ae_counts ev) \<and> bt_ok (ae_active ev)"

definition is_active :: "AlertEvaluator \<Rightarrow> string \<Rightarrow> bool" where
  "is_active ev rid \<longleftrightarrow> bt_get (ae_active ev) rid \<noteq> None"

text \<open>What the counter and the active entry of a rule become, as functions of its old counter.\<close>

abbreviation new_count :: "MetricSample \<Rightarrow> AlertRule \<Rightarrow> u32 option \<Rightarrow> u32" where
  "new_count sample r old \<equiv> fst (count_breach r (metric_reading sample (ar_metric r)) old)"

definition new_active :: "MetricSample \<Rightarrow> AlertRule \<Rightarrow> u32 option \<Rightarrow> ActiveAlert option" where
  "new_active sample r old =
     map_option (\<lambda>rd. \<lparr>aa_severity = ar_severity r, aa_detail = breach_description r rd\<rparr>)
       (snd (count_breach r (metric_reading sample (ar_metric r)) old))"

lemma evaluator_ok_default [simp]: "evaluator_ok AlertEvaluator_default"
  by (simp add: evaluator_ok_def AlertEvaluator_default_def)

lemma evaluate_rule_counts:
  "bt_get (ae_counts (fst (evaluate_rule sample ev r))) rid =
     (if rid = ar_id r then Some (new_count sample r (bt_get (ae_counts ev) rid))
      else bt_get (ae_counts ev) rid)"
  by (auto simp: evaluate_rule_def Let_def split: prod.splits)

lemma evaluate_rule_active:
  "bt_get (ae_active (fst (evaluate_rule sample ev r))) rid =
     (if rid = ar_id r then new_active sample r (bt_get (ae_counts ev) rid)
      else bt_get (ae_active ev) rid)"
  by (auto simp: evaluate_rule_def new_active_def Let_def split: prod.splits option.splits)

lemma evaluate_rule_ok: "evaluator_ok ev \<Longrightarrow> evaluator_ok (fst (evaluate_rule sample ev r))"
  by (auto simp: evaluate_rule_def evaluator_ok_def Let_def split: prod.splits option.splits)

lemma evaluate_rule_signal:
  "map_option (\<lambda>s. (as_rule_id s, as_active s, as_severity s)) (snd (evaluate_rule sample ev r)) =
     (let now = is_active (fst (evaluate_rule sample ev r)) (ar_id r)
      in if now \<noteq> is_active ev (ar_id r) then Some (ar_id r, now, ar_severity r) else None)"
  by (auto simp: evaluate_rule_def is_active_def Let_def split: prod.splits option.splits)

lemmas evaluate_rule_lookups = evaluate_rule_counts evaluate_rule_active

lemma evaluate_rules_Cons:
  "fst (evaluate_rules sample ev (r # rs)) =
     fst (evaluate_rules sample (fst (evaluate_rule sample ev r)) rs)"
  "snd (evaluate_rules sample ev (r # rs)) =
     (case snd (evaluate_rule sample ev r) of None \<Rightarrow> [] | Some s \<Rightarrow> [s]) @
     snd (evaluate_rules sample (fst (evaluate_rule sample ev r)) rs)"
  by (auto simp: Let_def split: prod.splits option.splits)

lemma evaluate_rules_ok: "evaluator_ok ev \<Longrightarrow> evaluator_ok (fst (evaluate_rules sample ev rs))"
  by (induction rs arbitrary: ev)
    (simp_all add: evaluate_rules_Cons evaluate_rule_ok del: evaluate_rules.simps(2))

lemma evaluate_rules_other:
  assumes "rid \<notin> ar_id ` set rs"
  shows "bt_get (ae_counts (fst (evaluate_rules sample ev rs))) rid = bt_get (ae_counts ev) rid"
    and "bt_get (ae_active (fst (evaluate_rules sample ev rs))) rid = bt_get (ae_active ev) rid"
  using assms
  by (induction rs arbitrary: ev)
    (auto simp: evaluate_rules_Cons evaluate_rule_lookups simp del: evaluate_rules.simps(2))

lemma evaluate_rules_rule:
  assumes "distinct (map ar_id rs)" and "r \<in> set rs"
  shows "bt_get (ae_counts (fst (evaluate_rules sample ev rs))) (ar_id r) =
      Some (new_count sample r (bt_get (ae_counts ev) (ar_id r)))"
    and "bt_get (ae_active (fst (evaluate_rules sample ev rs))) (ar_id r) =
      new_active sample r (bt_get (ae_counts ev) (ar_id r))"
  using assms
proof (induction rs arbitrary: ev)
  case (Cons q rs)
  note simps = evaluate_rules_Cons evaluate_rule_lookups evaluate_rules_other
  { case 1
    then show ?case
      using Cons.IH(1) [of "fst (evaluate_rule sample ev q)"] distinct_map_Cons_neq [of ar_id q rs r]
      by (cases "r = q") (auto simp: simps simp del: evaluate_rules.simps(2)) }
  { case 2
    then show ?case
      using Cons.IH(2) [of "fst (evaluate_rule sample ev q)"] distinct_map_Cons_neq [of ar_id q rs r]
      by (cases "r = q") (auto simp: simps simp del: evaluate_rules.simps(2)) }
qed simp_all

lemma evaluate_rules_signals:
  assumes "distinct (map ar_id rs)"
  shows "map (\<lambda>s. (as_rule_id s, as_active s, as_severity s)) (snd (evaluate_rules sample ev rs)) =
    map (\<lambda>r. (ar_id r, is_active (fst (evaluate_rules sample ev rs)) (ar_id r), ar_severity r))
      (filter (\<lambda>r. is_active (fst (evaluate_rules sample ev rs)) (ar_id r) \<noteq> is_active ev (ar_id r)) rs)"
  using assms
proof (induction rs arbitrary: ev)
  case (Cons r rs)
  let ?mid = "fst (evaluate_rule sample ev r)"
  let ?post = "fst (evaluate_rules sample ?mid rs)"
  have head: "is_active ?post (ar_id r) = is_active ?mid (ar_id r)"
    using Cons.prems by (auto simp: is_active_def evaluate_rules_other)
  have tail: "is_active ?mid (ar_id q) = is_active ev (ar_id q)" if "q \<in> set rs" for q
    using distinct_map_Cons_neq [OF Cons.prems that]
    by (simp add: is_active_def evaluate_rule_active)
  have signal: "map (\<lambda>s. (as_rule_id s, as_active s, as_severity s))
      (case snd (evaluate_rule sample ev r) of None \<Rightarrow> [] | Some s \<Rightarrow> [s]) =
      (if is_active ?mid (ar_id r) \<noteq> is_active ev (ar_id r)
       then [(ar_id r, is_active ?mid (ar_id r), ar_severity r)] else [])"
    using evaluate_rule_signal [of sample ev r]
    by (auto simp: Let_def split: option.splits if_splits)
  have filt: "filter (\<lambda>q. is_active ?post (ar_id q) \<noteq> is_active ?mid (ar_id q)) rs =
      filter (\<lambda>q. is_active ?post (ar_id q) \<noteq> is_active ev (ar_id q)) rs"
    using tail by (intro filter_cong) simp_all
  show ?case
    unfolding evaluate_rules_Cons
    using Cons.IH [of ?mid] Cons.prems signal head filt by simp
qed simp

lemma retain_rules_lookups:
  assumes "evaluator_ok ev"
  shows "bt_get (ae_counts (retain_rules rules ev)) rid =
      (if rid \<in> ar_id ` set rules then bt_get (ae_counts ev) rid else None)"
    and "bt_get (ae_active (retain_rules rules ev)) rid =
      (if rid \<in> ar_id ` set rules then bt_get (ae_active ev) rid else None)"
  using assms
  by (auto simp: retain_rules_def evaluator_ok_def contains_rule_def list_ex_iff
      split: option.splits)

lemma retain_rules_ok: "evaluator_ok ev \<Longrightarrow> evaluator_ok (retain_rules rules ev)"
  by (simp add: evaluator_ok_def retain_rules_def)

lemma evaluate_ok: "evaluator_ok ev \<Longrightarrow> evaluator_ok (fst (evaluate ev sample rules))"
  unfolding evaluate_def by (intro evaluate_rules_ok retain_rules_ok)

lemma evaluate_rule_of_set:
  assumes "evaluator_ok ev" and "distinct (map ar_id rules)" and "r \<in> set rules"
  shows "bt_get (ae_counts (fst (evaluate ev sample rules))) (ar_id r) =
      Some (new_count sample r (bt_get (ae_counts ev) (ar_id r)))"
    and "bt_get (ae_active (fst (evaluate ev sample rules))) (ar_id r) =
      new_active sample r (bt_get (ae_counts ev) (ar_id r))"
  using assms by (simp_all add: evaluate_def evaluate_rules_rule retain_rules_lookups)

section \<open>Runs\<close>

text \<open>
  The evaluator after a sequence of samples, and the specification of a debounced threshold: the
  number of the most recent samples that were all readable and matching.
\<close>

definition run_evaluator :: "AlertRule list \<Rightarrow> MetricSample list \<Rightarrow> AlertEvaluator" where
  "run_evaluator rules samples =
     foldl (\<lambda>ev sample. fst (evaluate ev sample rules)) AlertEvaluator_default samples"

definition sample_matches :: "AlertRule \<Rightarrow> MetricSample \<Rightarrow> bool" where
  "sample_matches r sample =
     (case metric_reading sample (ar_metric r) of None \<Rightarrow> False | Some rd \<Rightarrow> rule_matches r rd)"

definition streak :: "AlertRule \<Rightarrow> MetricSample list \<Rightarrow> nat" where
  "streak r samples = length (takeWhile (sample_matches r) (rev samples))"

lemma run_evaluator_snoc:
  "run_evaluator rules (samples @ [s]) = fst (evaluate (run_evaluator rules samples) s rules)"
  by (simp add: run_evaluator_def)

lemma run_evaluator_ok: "evaluator_ok (run_evaluator rules samples)"
  by (induction samples rule: rev_induct)
    (simp_all add: run_evaluator_snoc evaluate_ok, simp add: run_evaluator_def)

lemma streak_simps [simp]:
  "streak r [] = 0"
  "streak r (samples @ [s]) = (if sample_matches r s then Suc (streak r samples) else 0)"
  by (simp_all add: streak_def)

lemma new_count_streak:
  assumes "unat (override old 0) = min u32_max n"
  shows "unat (new_count sample r old) = min u32_max (if sample_matches r sample then Suc n else 0)"
  using assms
  by (auto simp: count_breach_def sample_matches_def Let_def split: option.splits)

lemma run_counts_streak:
  assumes "distinct (map ar_id rules)" and "r \<in> set rules"
  shows "unat (override (bt_get (ae_counts (run_evaluator rules samples)) (ar_id r)) 0) =
    min u32_max (streak r samples)"
proof (induction samples rule: rev_induct)
  case Nil
  then show ?case by (simp add: run_evaluator_def AlertEvaluator_default_def override_def)
next
  case (snoc s samples)
  show ?case
    using new_count_streak [OF snoc.IH, of r s] assms run_evaluator_ok [of rules samples]
    by (simp add: run_evaluator_snoc evaluate_rule_of_set override_def)
qed

lemma new_active_iff:
  "new_active sample r old \<noteq> None \<longleftrightarrow>
     sample_matches r sample \<and> max 1 (ar_consecutive_samples r) \<le> new_count sample r old"
  by (auto simp: new_active_def count_breach_def sample_matches_def Let_def max_def
      split: option.splits if_splits)

lemma one_le_max_samples: "1 \<le> unat (max 1 (ar_consecutive_samples r))"
  using max.cobounded1 [of 1 "ar_consecutive_samples r"] by (simp add: word_le_nat_alt)

lemma active_iff_streak:
  assumes "distinct (map ar_id rules)" and "r \<in> set rules"
  shows "is_active (run_evaluator rules samples) (ar_id r) \<longleftrightarrow>
    unat (max 1 (ar_consecutive_samples r)) \<le> streak r samples"
proof (cases samples rule: rev_cases)
  case Nil
  then show ?thesis
    using one_le_max_samples [of r]
    by (simp add: run_evaluator_def AlertEvaluator_default_def is_active_def)
next
  case (snoc prev s)
  let ?old = "bt_get (ae_counts (run_evaluator rules prev)) (ar_id r)"
  have count: "unat (new_count s r ?old) = min u32_max (streak r samples)"
    using new_count_streak [OF run_counts_streak [OF assms, of prev], of r s] snoc by simp
  have bound: "unat (max 1 (ar_consecutive_samples r)) \<le> u32_max"
    using unat_u32_bound [of "max 1 (ar_consecutive_samples r)"] by (simp add: u32_max_def)
  have "is_active (run_evaluator rules samples) (ar_id r) \<longleftrightarrow>
      sample_matches r s \<and> max 1 (ar_consecutive_samples r) \<le> new_count s r ?old"
    using assms snoc run_evaluator_ok [of rules prev]
    by (simp only: is_active_def run_evaluator_snoc evaluate_rule_of_set new_active_iff)
  also have "\<dots> \<longleftrightarrow> unat (max 1 (ar_consecutive_samples r)) \<le> streak r samples"
    using count bound snoc one_le_max_samples [of r] by (auto simp: word_le_nat_alt)
  finally show ?thesis .
qed

section \<open>Properties\<close>

text \<open>
  C9. The debounce contract of \<open>AlertEvaluator::evaluate\<close> over any run of samples: with distinct rule
  ids, a rule is active exactly when the most recent samples, at least as many as the rule asks for
  and at least one, were all readable and beyond the threshold. The 32-bit counter saturates
  without breaking this.
\<close>

theorem alert_active_iff_streak:
  assumes "distinct (map ar_id rules)" and "r \<in> set rules"
  shows "is_active (run_evaluator rules samples) (ar_id r) \<longleftrightarrow>
    unat (max 1 (ar_consecutive_samples r)) \<le> streak r samples"
  by (rule active_iff_streak [OF assms])

definition witness_rule :: AlertRule where
  "witness_rule = rule ''cpu'' ''cpu_percent'' GreaterThanOrEqual (Fin 90) 2 Warning"

definition hot_sample :: MetricSample where
  "hot_sample = plain_sample 0 (Some (Fin 95)) []"

theorem alert_active_iff_streak_witness:
  "is_active (run_evaluator [witness_rule] [hot_sample, hot_sample]) (ar_id witness_rule) \<and>
   \<not> is_active (run_evaluator [witness_rule] [hot_sample]) (ar_id witness_rule)"
proof -
  have "unat (max 1 (ar_consecutive_samples witness_rule)) \<le> streak witness_rule [hot_sample, hot_sample]"
    and "\<not> unat (max 1 (ar_consecutive_samples witness_rule)) \<le> streak witness_rule [hot_sample]"
    by code_simp+
  then show ?thesis
    using alert_active_iff_streak [of "[witness_rule]" witness_rule] by simp
qed

text \<open>
  \<open>evaluate\<close> signals transitions and nothing else: with distinct rule ids the signals are, in
  rule order, one per rule whose activity differs from before the call, carrying the new activity
  and the rule's severity.
\<close>

theorem evaluate_signals_transitions:
  assumes "evaluator_ok ev" and "distinct (map ar_id rules)"
  shows "map (\<lambda>s. (as_rule_id s, as_active s, as_severity s)) (snd (evaluate ev sample rules)) =
    map (\<lambda>r. (ar_id r, is_active (fst (evaluate ev sample rules)) (ar_id r), ar_severity r))
      (filter (\<lambda>r. is_active (fst (evaluate ev sample rules)) (ar_id r) \<noteq> is_active ev (ar_id r)) rules)"
proof -
  have "is_active (retain_rules rules ev) (ar_id r) = is_active ev (ar_id r)" if "r \<in> set rules" for r
    using that assms(1) by (simp add: is_active_def retain_rules_lookups)
  then show ?thesis
    unfolding evaluate_def evaluate_rules_signals [OF assms(2)]
    by (intro arg_cong2 [where f = map] refl filter_cong) simp_all
qed

theorem evaluate_signals_transitions_witness:
  "map (\<lambda>s. (as_rule_id s, as_active s, as_severity s))
     (snd (evaluate (run_evaluator [witness_rule] [hot_sample]) hot_sample [witness_rule])) =
   [(''cpu'', True, Warning)]"
proof -
  have "is_active (fst (evaluate (run_evaluator [witness_rule] [hot_sample]) hot_sample [witness_rule])) ''cpu''"
    and "\<not> is_active (run_evaluator [witness_rule] [hot_sample]) ''cpu''"
    by code_simp+
  then show ?thesis
    using evaluate_signals_transitions
      [of "run_evaluator [witness_rule] [hot_sample]" "[witness_rule]" hot_sample]
    by (simp add: run_evaluator_ok) (simp add: witness_rule_def rule_def)
qed

text \<open>
  After \<open>evaluate\<close> nothing survives of a rule the caller no longer supplies, neither a counter
  nor an active alert; a rule whose metric cannot be read is inactive with its counter at zero; and
  the order of both maps is kept.
\<close>

theorem evaluate_forgets:
  assumes "evaluator_ok ev"
  shows "evaluator_ok (fst (evaluate ev sample rules)) \<and>
    (rid \<notin> ar_id ` set rules \<longrightarrow>
       bt_get (ae_counts (fst (evaluate ev sample rules))) rid = None \<and>
       \<not> is_active (fst (evaluate ev sample rules)) rid) \<and>
    (distinct (map ar_id rules) \<and> r \<in> set rules \<and> metric_reading sample (ar_metric r) = None \<longrightarrow>
       bt_get (ae_counts (fst (evaluate ev sample rules))) (ar_id r) = Some 0 \<and>
       \<not> is_active (fst (evaluate ev sample rules)) (ar_id r))"
proof (intro conjI impI)
  show "evaluator_ok (fst (evaluate ev sample rules))" using assms by (rule evaluate_ok)
next
  assume "rid \<notin> ar_id ` set rules"
  then show "bt_get (ae_counts (fst (evaluate ev sample rules))) rid = None"
    and "\<not> is_active (fst (evaluate ev sample rules)) rid"
    using assms by (simp_all add: evaluate_def is_active_def evaluate_rules_other retain_rules_lookups)
next
  assume "distinct (map ar_id rules) \<and> r \<in> set rules \<and> metric_reading sample (ar_metric r) = None"
  then show "bt_get (ae_counts (fst (evaluate ev sample rules))) (ar_id r) = Some 0"
    and "\<not> is_active (fst (evaluate ev sample rules)) (ar_id r)"
    using assms by (simp_all add: is_active_def evaluate_rule_of_set count_breach_def new_active_def)
qed

theorem evaluate_forgets_witness:
  "\<not> is_active (fst (evaluate (run_evaluator [witness_rule] [hot_sample, hot_sample]) hot_sample []))
     (ar_id witness_rule) \<and>
   \<not> is_active (fst (evaluate (run_evaluator [witness_rule] [hot_sample, hot_sample])
     (plain_sample 1 None []) [witness_rule])) (ar_id witness_rule)"
proof -
  have "metric_reading (plain_sample 1 None []) (ar_metric witness_rule) = None" by code_simp
  then show ?thesis
    using evaluate_forgets [OF run_evaluator_ok, of "[witness_rule]" "[hot_sample, hot_sample]" hot_sample "[]" "ar_id witness_rule"]
      evaluate_forgets [OF run_evaluator_ok, of "[witness_rule]" "[hot_sample, hot_sample]"
        "plain_sample 1 None []" "[witness_rule]" _ witness_rule]
    by simp
qed



lemma resolve_alert_rules_facts:
  assumes "resolve_alert_rules overrides = Inr resolved"
  shows "map (\<lambda>e. ar_id (rr_rule e)) resolved =
      push_new (map ar_id default_alert_rules) (map rc_id overrides)"
    and "distinct (map (\<lambda>e. ar_id (rr_rule e)) resolved)"
    and "\<forall>e \<in> set resolved. ar_metric (rr_rule e) \<in> set ALERT_METRICS \<and>
      is_finite (ar_threshold (rr_rule e)) \<and> ar_severity (rr_rule e) \<in> {Warning, Critical}"
    and "\<forall>r \<in> set default_alert_rules. ar_id r \<notin> rc_id ` set overrides \<longrightarrow>
      \<lparr>rr_rule = r, rr_enabled = True, rr_source = BuiltIn\<rparr> \<in> set resolved"
proof -
  have changes: "apply_changes shipped_rules overrides = Inr resolved"
    and valid: "validate_all resolved = Inr ()"
    using assms by (simp_all add: resolve_eq_Inr)
  have shipped: "map entry_id shipped_rules = map ar_id default_alert_rules"
    by (simp add: shipped_rules_def)
  show ids: "map (\<lambda>e. ar_id (rr_rule e)) resolved =
      push_new (map ar_id default_alert_rules) (map rc_id overrides)"
    using apply_changes_ids [OF changes] shipped by simp
  show "distinct (map (\<lambda>e. ar_id (rr_rule e)) resolved)"
    unfolding ids using shipped_ids_distinct shipped by (intro distinct_push_new) simp
  show "\<forall>e \<in> set resolved. ar_metric (rr_rule e) \<in> set ALERT_METRICS \<and>
      is_finite (ar_threshold (rr_rule e)) \<and> ar_severity (rr_rule e) \<in> {Warning, Critical}"
    using valid by (simp add: validate_all_iff validate_iff)
  show "\<forall>r \<in> set default_alert_rules. ar_id r \<notin> rc_id ` set overrides \<longrightarrow>
      \<lparr>rr_rule = r, rr_enabled = True, rr_source = BuiltIn\<rparr> \<in> set resolved"
  proof (intro ballI impI)
    fix r assume r: "r \<in> set default_alert_rules" "ar_id r \<notin> rc_id ` set overrides"
    let ?e = "\<lparr>rr_rule = r, rr_enabled = True, rr_source = BuiltIn\<rparr>"
    have "?e \<in> set (filter (\<lambda>e. entry_id e = ar_id r) shipped_rules)"
      using r(1) by (simp add: shipped_rules_def)
    then have "?e \<in> set (filter (\<lambda>e. entry_id e = ar_id r) resolved)"
      using apply_changes_other [OF changes r(2)] by simp
    then show "?e \<in> set resolved" by simp
  qed
qed

text \<open>
  C25. A successful \<open>resolve_alert_rules\<close> yields rules that can fire and that are addressed
  unambiguously: ids are distinct and start with the shipped ids in their order, every rule names a
  known metric with a finite threshold and a warning or critical severity, and a shipped rule that
  no override names is exactly the shipped one, enabled.
\<close>

theorem resolve_alert_rules_sound:
  assumes "resolve_alert_rules overrides = Inr resolved"
  shows "map (\<lambda>e. ar_id (rr_rule e)) resolved =
      push_new (map ar_id default_alert_rules) (map rc_id overrides) \<and>
    distinct (map (\<lambda>e. ar_id (rr_rule e)) resolved) \<and>
    (\<forall>e \<in> set resolved. ar_metric (rr_rule e) \<in> set ALERT_METRICS \<and>
      is_finite (ar_threshold (rr_rule e)) \<and> ar_severity (rr_rule e) \<in> {Warning, Critical}) \<and>
    (\<forall>r \<in> set default_alert_rules. ar_id r \<notin> rc_id ` set overrides \<longrightarrow>
      \<lparr>rr_rule = r, rr_enabled = True, rr_source = BuiltIn\<rparr> \<in> set resolved)"
  using resolve_alert_rules_facts [OF assms] by blast

theorem resolve_alert_rules_sound_witness:
  "\<exists>resolved.
     resolve_alert_rules [(AlertRuleConfig_new ''cpu-saturation-warning'')\<lparr>rc_enabled := Some False\<rparr>] =
       Inr resolved \<and> distinct (map (\<lambda>e. ar_id (rr_rule e)) resolved) \<and>
     length resolved = 7"
proof -
  let ?cs = "[(AlertRuleConfig_new ''cpu-saturation-warning'')\<lparr>rc_enabled := Some False\<rparr>]"
  have "is_ok (resolve_alert_rules ?cs)" by code_simp
  then obtain resolved where ok: "resolve_alert_rules ?cs = Inr resolved" by (auto simp: is_ok_iff)
  have "length (map (\<lambda>e. ar_id (rr_rule e)) resolved) = 7"
    unfolding resolve_alert_rules_sound [OF ok, THEN conjunct1]
    by (simp add: default_alert_rules_def rule_def AlertRuleConfig_new_def)
  then show ?thesis
    using ok resolve_alert_rules_sound [OF ok, THEN conjunct2, THEN conjunct1] by (simp only: length_map) blast
qed

text \<open>
  The lines an operator reads and the summarised severity agree: \<open>active_details\<close> lists every
  active alert once, from the most to the least severe and in rule-id order within a level, and
  \<open>worst_active_severity\<close> is the severity of the first line, absent exactly when no alert is active.
\<close>

theorem worst_severity_is_first_line:
  "\<exists>alerts. active_details ev = map aa_detail alerts \<and>
     mset alerts = mset (bt_values (ae_active ev)) \<and>
     sorted_wrt (\<lambda>a b. severity_rank (aa_severity b) \<le> severity_rank (aa_severity a)) alerts \<and>
     (\<forall>k. filter (\<lambda>a. severity_rank (aa_severity a) = k) alerts =
          filter (\<lambda>a. severity_rank (aa_severity a) = k) (bt_values (ae_active ev))) \<and>
     map_option severity_rank (worst_active_severity ev) =
       (case alerts of [] \<Rightarrow> None | a # _ \<Rightarrow> Some (severity_rank (aa_severity a)))"
proof -
  let ?key = "\<lambda>alert. - int (severity_rank (aa_severity alert))"
  let ?vs = "bt_values (ae_active ev)"
  let ?alerts = "sort_key ?key ?vs"
  have sorted: "sorted_wrt (\<lambda>a b. severity_rank (aa_severity b) \<le> severity_rank (aa_severity a)) ?alerts"
    using sorted_sort_key [of ?key ?vs] by (simp add: sorted_map)
  have worst: "map_option severity_rank (worst_active_severity ev) =
      (case ?alerts of [] \<Rightarrow> None | a # _ \<Rightarrow> Some (severity_rank (aa_severity a)))"
  proof (cases "worst_active_severity ev")
    case None
    then show ?thesis by (simp add: worst_active_severity_def bt_values_def)
  next
    case (Some s)
    let ?ss = "map aa_severity ?vs"
    have s: "s \<in> set ?ss" using Some max_by_in_set by (fastforce simp: worst_active_severity_def)
    then have "?vs \<noteq> []" by auto
    then obtain a rest where alerts: "?alerts = a # rest"
      by (metis length_sort list.exhaust list.size(3) length_0_conv)
    have a_in: "a \<in> set ?vs" using alerts by (metis list.set_intros(1) set_sort)
    have "\<not> severity_rank s < severity_rank (aa_severity a)"
      using severity_cmp.max_by_maximal [of ?ss s "aa_severity a"] Some a_in
      by (auto simp: worst_active_severity_def list_all_iff)
    moreover have "severity_rank s \<le> severity_rank (aa_severity a)"
    proof -
      from s obtain b where b: "b \<in> set ?alerts" "s = aa_severity b" by auto
      then show ?thesis using sorted alerts by auto
    qed
    ultimately show ?thesis using Some alerts by simp
  qed
  have "filter (\<lambda>a. severity_rank (aa_severity a) = k) ?alerts =
      filter (\<lambda>a. severity_rank (aa_severity a) = k) ?vs" for k
    using sort_key_stable [of ?key "- int k" ?vs] by simp
  then show ?thesis
    unfolding active_details_def using sorted worst by (intro exI [of _ ?alerts]) simp
qed

end
