(* ===== verification/Framing.thy ===== *)
theory Framing
  imports Prelude
begin

text \<open>
  Length-delimited frames (\<open>crates/rackio-protocol/src/framing.rs\<close>) and the protocol version rules
  of \<open>crates/rackio-protocol/src/lib.rs\<close>. A byte stream is the list of bytes still to arrive with
  how it ends; a writer is the bytes written so far with the point at which the transport breaks.
  Protobuf encoding is \<open>prost\<close>'s and a parameter.
\<close>

section \<open>Streams and codec\<close>

definition MAX_FRAME_BYTES :: nat where "MAX_FRAME_BYTES = 1048576"

datatype FrameError =
  EndOfStream
| TooLarge nat nat
| FrameIo
| FrameDecode
| FrameEncode

record 'm prost =
  encoded_len :: "'m \<Rightarrow> nat"
  encode :: "'m \<Rightarrow> bytes option"
  decode :: "bytes \<Rightarrow> 'm option"

text \<open>What \<open>prost\<close> documents of a message: it encodes to as many bytes as announced and decodes back.\<close>

definition prost_faithful :: "'m prost \<Rightarrow> 'm \<Rightarrow> bool" where
  "prost_faithful c m \<longleftrightarrow>
     (\<exists>bs. encode c m = Some bs \<and> length bs = encoded_len c m \<and> decode c bs = Some m)"

record writer =
  written :: bytes
  capacity :: "nat option"

record reader =
  pending :: bytes
  broken :: bool

text \<open>\<open>write_all\<close>: a transport that breaks accepts only the bytes up to the break.\<close>

definition write_all :: "writer \<Rightarrow> bytes \<Rightarrow> (FrameError, unit) result \<times> writer" where
  "write_all w bs =
     (case capacity w of
        None \<Rightarrow> (Inr (), w\<lparr>written := written w @ bs\<rparr>)
      | Some room \<Rightarrow>
          if length bs \<le> room
          then (Inr (), w\<lparr>written := written w @ bs, capacity := Some (room - length bs)\<rparr>)
          else (Inl FrameIo, w\<lparr>written := written w @ take room bs, capacity := Some 0\<rparr>))"

text \<open>Big-endian \<open>u32\<close>, as \<open>write_u32\<close> and \<open>read_u32\<close> have it.\<close>

definition be_bytes :: "nat \<Rightarrow> bytes" where
  "be_bytes n = [of_nat (n div 2 ^ 24), of_nat (n div 2 ^ 16), of_nat (n div 2 ^ 8), of_nat n]"

definition be_value :: "bytes \<Rightarrow> nat" where
  "be_value bs = foldl (\<lambda>acc b. acc * 256 + unat b) 0 bs"

datatype io_error = UnexpectedEof | OtherIo

definition read_exact :: "reader \<Rightarrow> nat \<Rightarrow> (io_error, bytes) result \<times> reader" where
  "read_exact r n =
     (if n \<le> length (pending r) then (Inr (take n (pending r)), r\<lparr>pending := drop n (pending r)\<rparr>)
      else (Inl (if broken r then OtherIo else UnexpectedEof), r\<lparr>pending := []\<rparr>))"

section \<open>Frames\<close>

definition write_frame :: "'m prost \<Rightarrow> writer \<Rightarrow> 'm \<Rightarrow> (FrameError, unit) result \<times> writer" where
  "write_frame c w message =
     (let len = encoded_len c message in
      if MAX_FRAME_BYTES < len then (Inl (TooLarge len MAX_FRAME_BYTES), w)
      else if u32_max < len then (Inl (TooLarge len MAX_FRAME_BYTES), w)
      else case write_all w (be_bytes len) of
             (Inl e, w') \<Rightarrow> (Inl e, w')
           | (Inr _, w') \<Rightarrow>
               (case encode c message of
                  None \<Rightarrow> (Inl FrameEncode, w')
                | Some buffer \<Rightarrow> write_all w' buffer))"

definition read_frame :: "'m prost \<Rightarrow> reader \<Rightarrow> (FrameError, 'm) result \<times> reader" where
  "read_frame c r =
     (case read_exact r 4 of
        (Inl UnexpectedEof, r') \<Rightarrow> (Inl EndOfStream, r')
      | (Inl OtherIo, r') \<Rightarrow> (Inl FrameIo, r')
      | (Inr header, r') \<Rightarrow>
          let frame_len = be_value header in
          if MAX_FRAME_BYTES < frame_len then (Inl (TooLarge frame_len MAX_FRAME_BYTES), r')
          else case read_exact r' frame_len of
                 (Inl _, r'') \<Rightarrow> (Inl FrameIo, r'')
               | (Inr buffer, r'') \<Rightarrow> (ok_or FrameDecode (decode c buffer), r''))"

text \<open>Writing a list of messages, and reading until the stream ends.\<close>

fun write_frames :: "'m prost \<Rightarrow> writer \<Rightarrow> 'm list \<Rightarrow> (FrameError, unit) result \<times> writer" where
  "write_frames c w [] = (Inr (), w)"
| "write_frames c w (m # ms) =
     (case write_frame c w m of
        (Inl e, w') \<Rightarrow> (Inl e, w')
      | (Inr _, w') \<Rightarrow> write_frames c w' ms)"

fun read_frames :: "'m prost \<Rightarrow> nat \<Rightarrow> reader \<Rightarrow> (FrameError, 'm list) result \<times> reader" where
  "read_frames c 0 r = (Inr [], r)"
| "read_frames c (Suc n) r =
     (case read_frame c r of
        (Inl e, r') \<Rightarrow> (Inl e, r')
      | (Inr m, r') \<Rightarrow>
          (case read_frames c n r' of
             (Inl e, r'') \<Rightarrow> (Inl e, r'')
           | (Inr ms, r'') \<Rightarrow> (Inr (m # ms), r'')))"

section \<open>Versions\<close>

definition ALPN :: string where "ALPN = ''rackio/metrics/1''"
definition PROTOCOL_MAJOR :: u32 where "PROTOCOL_MAJOR = 1"
definition PROTOCOL_MINOR :: u32 where "PROTOCOL_MINOR = 1"

record w_ProtocolVersion =
  wpv_major :: u32
  wpv_minor :: u32

definition current_version :: w_ProtocolVersion where
  "current_version = \<lparr>wpv_major = PROTOCOL_MAJOR, wpv_minor = PROTOCOL_MINOR\<rparr>"

definition compatible :: "w_ProtocolVersion \<Rightarrow> bool" where
  "compatible version \<longleftrightarrow> wpv_major version = PROTOCOL_MAJOR"

section \<open>Lemmas\<close>

lemma length_be_bytes [simp]: "length (be_bytes n) = 4"
  by (simp add: be_bytes_def)

lemma be_value_bytes:
  assumes "n \<le> u32_max"
  shows "be_value (be_bytes n) = n"
proof -
  have n: "n < 2 ^ 32" using assms by (simp add: u32_max_def)
  have "n div 2 ^ 24 mod 2 ^ 8 = n div 2 ^ 24" using n by (simp add: less_mult_imp_div_less)
  moreover have "n div 2 ^ 16 = (n div 2 ^ 24) * 2 ^ 8 + n div 2 ^ 16 mod 2 ^ 8"
    using div_mult_mod_eq [of "n div 2 ^ 16" "2 ^ 8"] by (simp add: div_mult2_eq [symmetric])
  moreover have "n div 2 ^ 8 = (n div 2 ^ 16) * 2 ^ 8 + n div 2 ^ 8 mod 2 ^ 8"
    using div_mult_mod_eq [of "n div 2 ^ 8" "2 ^ 8"] by (simp add: div_mult2_eq [symmetric])
  moreover have "n = (n div 2 ^ 8) * 2 ^ 8 + n mod 2 ^ 8"
    using div_mult_mod_eq [of n "2 ^ 8"] by simp
  ultimately show ?thesis
    by (simp add: be_value_def be_bytes_def unat_of_nat)
qed

definition frame_bytes :: "'m prost \<Rightarrow> 'm \<Rightarrow> bytes" where
  "frame_bytes c m = be_bytes (encoded_len c m) @ the (encode c m)"

lemma write_all_open: "capacity w = None \<Longrightarrow> write_all w bs = (Inr (), w\<lparr>written := written w @ bs\<rparr>)"
  by (simp add: write_all_def)

lemma write_frame_ok:
  assumes "prost_faithful c m" and "encoded_len c m \<le> MAX_FRAME_BYTES" and "capacity w = None"
  shows "write_frame c w m = (Inr (), w\<lparr>written := written w @ frame_bytes c m\<rparr>)"
  using assms
  by (auto simp: write_frame_def Let_def write_all_open frame_bytes_def prost_faithful_def
      MAX_FRAME_BYTES_def u32_max_def)

lemma read_frame_ok:
  assumes "prost_faithful c m" and "encoded_len c m \<le> MAX_FRAME_BYTES"
    and "pending r = frame_bytes c m @ rest"
  shows "read_frame c r = (Inr m, r\<lparr>pending := rest\<rparr>)"
proof -
  obtain bs where bs: "encode c m = Some bs" "length bs = encoded_len c m" "decode c bs = Some m"
    using assms(1) by (auto simp: prost_faithful_def)
  have "be_value (be_bytes (length bs)) = length bs"
    using assms(2) bs(2) by (intro be_value_bytes) (simp add: MAX_FRAME_BYTES_def u32_max_def)
  then show ?thesis
    using assms(2,3) bs by (simp add: read_frame_def read_exact_def frame_bytes_def Let_def)
qed

lemma write_frames_ok:
  assumes "\<forall>m \<in> set ms. prost_faithful c m \<and> encoded_len c m \<le> MAX_FRAME_BYTES"
    and "capacity w = None"
  shows "write_frames c w ms = (Inr (), w\<lparr>written := written w @ concat (map (frame_bytes c) ms)\<rparr>)"
  using assms by (induction ms arbitrary: w) (auto simp: write_frame_ok)

lemma read_frames_ok:
  assumes "\<forall>m \<in> set ms. prost_faithful c m \<and> encoded_len c m \<le> MAX_FRAME_BYTES"
    and "pending r = concat (map (frame_bytes c) ms) @ rest"
  shows "read_frames c (length ms) r = (Inr ms, r\<lparr>pending := rest\<rparr>)"
  using assms
  by (induction ms arbitrary: r) (auto simp: read_frame_ok)

section \<open>Properties\<close>

text \<open>
  C32. A stream of frames survives the wire: for messages that \<open>prost\<close> encodes faithfully and that fit the
  protocol boundary, writing them in order succeeds and reading as many frames back returns exactly these
  messages and leaves exactly the bytes that followed them.
\<close>

theorem frames_roundtrip:
  assumes "\<forall>m \<in> set ms. prost_faithful c m \<and> encoded_len c m \<le> MAX_FRAME_BYTES"
  shows "write_frames c \<lparr>written = [], capacity = None\<rparr> ms =
      (Inr (), \<lparr>written = concat (map (frame_bytes c) ms), capacity = None\<rparr>) \<and>
    read_frames c (length ms)
      \<lparr>pending = written (snd (write_frames c \<lparr>written = [], capacity = None\<rparr> ms)) @ rest, broken = b\<rparr> =
      (Inr ms, \<lparr>pending = rest, broken = b\<rparr>)"
  using write_frames_ok [OF assms, of "\<lparr>written = [], capacity = None\<rparr>"]
    read_frames_ok [OF assms, of "\<lparr>pending = concat (map (frame_bytes c) ms) @ rest, broken = b\<rparr>" rest]
  by simp

definition byte_prost :: "u8 prost" where
  "byte_prost =
     \<lparr>encoded_len = (\<lambda>_. 1), encode = (\<lambda>m. Some [m]),
      decode = (\<lambda>bs. case bs of [b] \<Rightarrow> Some b | _ \<Rightarrow> None)\<rparr>"

theorem frames_roundtrip_witness:
  "fst (read_frames byte_prost 2
     \<lparr>pending = written (snd (write_frames byte_prost \<lparr>written = [], capacity = None\<rparr> [7, 9])) @ [1],
      broken = False\<rparr>) = Inr [7, 9]"
proof -
  have "\<forall>m \<in> set [7, 9 :: u8]. prost_faithful byte_prost m \<and> encoded_len byte_prost m \<le> MAX_FRAME_BYTES"
    by (simp add: prost_faithful_def byte_prost_def MAX_FRAME_BYTES_def)
  note read = frames_roundtrip [OF this, THEN conjunct2, of "[1]" False]
  have "length [7, 9 :: u8] = 2" by simp
  from read [unfolded this] show ?thesis by (simp only: fst_conv)
qed

text \<open>
  \<open>read_frame\<close> never accepts a malformed stream: an end or a break inside the header or the body is an
  error, a header beyond the boundary is refused before any byte of the body is consumed, and a
  returned message was decoded from exactly the announced number of bytes, at most
  \<open>MAX_FRAME_BYTES\<close>.
\<close>

theorem read_frame_bounded:
  "case read_frame c r of
     (Inr m, r') \<Rightarrow>
       \<exists>body. pending r = take 4 (pending r) @ body @ pending r' \<and>
         length body = be_value (take 4 (pending r)) \<and> length body \<le> MAX_FRAME_BYTES \<and>
         decode c body = Some m
   | (Inl (TooLarge n limit), r') \<Rightarrow>
       MAX_FRAME_BYTES < n \<and> limit = MAX_FRAME_BYTES \<and> pending r' = drop 4 (pending r)
   | (Inl EndOfStream, r') \<Rightarrow> length (pending r) < 4 \<and> \<not> broken r
   | (Inl e, r') \<Rightarrow> e \<in> {FrameIo, FrameDecode}"
proof (cases "length (pending r) < 4")
  case True
  then show ?thesis by (auto simp: read_frame_def read_exact_def)
next
  case False
  let ?n = "be_value (take 4 (pending r))"
  have split: "pending r = take 4 (pending r) @ take ?n (drop 4 (pending r)) @ drop ?n (drop 4 (pending r))"
    by (metis append_take_drop_id)
  show ?thesis
  proof (cases "MAX_FRAME_BYTES < ?n \<or> length (pending r) - 4 < ?n")
    case True
    then show ?thesis using False by (auto simp: read_frame_def read_exact_def Let_def)
  next
    case ok: False
    then show ?thesis
      using False split
      by (cases "decode c (take ?n (drop 4 (pending r)))")
        (auto simp: read_frame_def read_exact_def Let_def intro!: exI [of _ "take ?n (drop 4 (pending r))"])
  qed
qed

end
