(* ===== verification/Wire.thy ===== *)
theory Wire
  imports Model Framing
begin

text \<open>
  The wire messages (the types \<open>prost\<close> generates from \<open>proto/rackio.proto\<close>), their construction from
  the domain (\<open>crates/rackio-iroh/src/protocol.rs\<close>) and the viewer's decoding of them
  (\<open>apps/agent/src/remote/client.rs\<close>). Enumerations travel as \<open>i32\<close>; the contract between the two
  directions is the locale \<open>wire_enum\<close>, with one instance per enumeration. Endpoint identities
  are 256-bit keys; how \<open>iroh\<close> and \<open>uuid\<close> print and parse identities is the parameter \<open>ids\<close>.
\<close>

section \<open>Messages\<close>

type_synonym i32 = int
type_synonym endpoint_id = "256 word"

record ids =
  endpoint_str :: "endpoint_id \<Rightarrow> string"
  uuid_str :: "uuid \<Rightarrow> string"
  uuid_parse :: "string \<Rightarrow> uuid option"

definition ids_faithful :: "ids \<Rightarrow> bool" where
  "ids_faithful ids \<longleftrightarrow> (\<forall>u. uuid_parse ids (uuid_str ids u) = Some u) \<and> inj (endpoint_str ids)"

record w_MetricCapability =
  wmc_name :: string
  wmc_state :: i32
  wmc_detail :: "string option"

record w_NodeInfo =
  wni_node_id :: string
  wni_endpoint_id :: string
  wni_display_name :: string
  wni_os :: string
  wni_architecture :: string
  wni_agent_version :: string
  wni_protocol :: "w_ProtocolVersion option"
  wni_capabilities :: "w_MetricCapability list"

record w_DiskMetric =
  wdm_mount :: string
  wdm_total_bytes :: u64
  wdm_used_bytes :: u64

record w_TemperatureMetric =
  wtm_label :: string
  wtm_celsius :: fl
  wtm_critical_celsius :: "fl option"
  wtm_sensor_count :: u32

record w_NetworkMetric =
  wnm_received_bytes_per_second :: u64
  wnm_sent_bytes_per_second :: u64

record w_CollectorError =
  wce_source :: string
  wce_kind :: i32
  wce_message :: string

record w_MetricSample =
  wms_timestamp_ms :: i64
  wms_sequence :: u64
  wms_cpu_percent :: "fl option"
  wms_memory_used_bytes :: "u64 option"
  wms_memory_total_bytes :: "u64 option"
  wms_swap_used_bytes :: "u64 option"
  wms_swap_total_bytes :: "u64 option"
  wms_disks :: "w_DiskMetric list"
  wms_network :: "w_NetworkMetric option"
  wms_uptime_seconds :: u64
  wms_errors :: "w_CollectorError list"
  wms_temperature :: "w_TemperatureMetric option"

record w_ConnectionDetails =
  wcd_path :: i32
  wcd_rtt_ms :: u64

record w_HealthSnapshot =
  whs_state :: i32
  whs_collector_degraded :: bool
  whs_storage_degraded :: bool
  whs_remote_listener_degraded :: bool
  whs_details :: "string list"

record w_HistoryQuery =
  whq_from_ms :: i64
  whq_to_ms :: i64
  whq_resolution :: i32
  whq_protocol :: "w_ProtocolVersion option"

record w_PairRequest =
  wpr_one_time_secret :: string
  wpr_viewer_endpoint_id :: string

record w_PairResponse =
  wps_accepted :: bool
  wps_node_id :: string
  wps_endpoint_id :: string

record w_ErrorResponse =
  wer_code :: string
  wer_message :: string

record w_Heartbeat =
  whb_timestamp_ms :: i64
  whb_sequence :: u64

datatype RequestBody =
  GetNodeInfo w_ProtocolVersion
| WatchMetrics w_ProtocolVersion
| QueryHistory w_HistoryQuery
| GetHealth w_ProtocolVersion
| GetConnectionPath w_ProtocolVersion
| Pair w_PairRequest

datatype Response =
  RNodeInfo w_NodeInfo
| RMetricSample w_MetricSample
| RHealth w_HealthSnapshot
| RConnectionPath w_ConnectionDetails
| RPair w_PairResponse
| RError w_ErrorResponse
| RHeartbeat w_Heartbeat
| RStreamComplete

section \<open>From the domain to the wire\<close>

fun capability_state_i32 :: "CapabilityState \<Rightarrow> i32" where
  "capability_state_i32 Supported = 1"
| "capability_state_i32 Unsupported = 2"
| "capability_state_i32 PermissionDenied = 3"

fun node_state_i32 :: "NodeState \<Rightarrow> i32" where
  "node_state_i32 Healthy = 1"
| "node_state_i32 Warning = 2"
| "node_state_i32 Critical = 3"
| "node_state_i32 Stale = 4"
| "node_state_i32 Offline = 5"
| "node_state_i32 AuthError = 6"
| "node_state_i32 Incompatible = 7"
| "node_state_i32 Degraded = 8"

fun connection_path_i32 :: "ConnectionPath \<Rightarrow> i32" where
  "connection_path_i32 LanDirect = 1"
| "connection_path_i32 WanDirect = 2"
| "connection_path_i32 Relayed = 3"
| "connection_path_i32 UnknownPath = 4"

definition metric_sample_to_wire :: "MetricSample \<Rightarrow> w_MetricSample" where
  "metric_sample_to_wire s =
     \<lparr>wms_timestamp_ms = ms_timestamp_ms s,
      wms_sequence = ms_sequence s,
      wms_cpu_percent = ms_cpu_percent s,
      wms_memory_used_bytes = ms_memory_used_bytes s,
      wms_memory_total_bytes = ms_memory_total_bytes s,
      wms_swap_used_bytes = ms_swap_used_bytes s,
      wms_swap_total_bytes = ms_swap_total_bytes s,
      wms_disks =
        map (\<lambda>d. \<lparr>wdm_mount = dm_mount d, wdm_total_bytes = dm_total_bytes d,
                  wdm_used_bytes = dm_used_bytes d\<rparr>) (ms_disks s),
      wms_network =
        map_option (\<lambda>n. \<lparr>wnm_received_bytes_per_second = nm_received_bytes_per_second n,
                         wnm_sent_bytes_per_second = nm_sent_bytes_per_second n\<rparr>) (ms_network s),
      wms_uptime_seconds = ms_uptime_seconds s,
      wms_errors =
        map (\<lambda>e. \<lparr>wce_source = ce_source e, wce_kind = capability_state_i32 (ce_kind e),
                  wce_message = ce_message e\<rparr>) (ms_errors s),
      wms_temperature =
        map_option (\<lambda>t. \<lparr>wtm_label = tm_label t, wtm_celsius = tm_celsius t,
                         wtm_critical_celsius = tm_critical_celsius t,
                         wtm_sensor_count = tm_sensor_count t\<rparr>) (ms_temperature s)\<rparr>"

definition node_info_to_wire :: "ids \<Rightarrow> NodeInfo \<Rightarrow> endpoint_id \<Rightarrow> w_NodeInfo" where
  "node_info_to_wire ids info eid =
     \<lparr>wni_node_id = uuid_str ids (ni_node_id info),
      wni_endpoint_id = endpoint_str ids eid,
      wni_display_name = ni_display_name info,
      wni_os = ni_os info,
      wni_architecture = ni_architecture info,
      wni_agent_version = ni_agent_version info,
      wni_protocol =
        Some \<lparr>wpv_major = pv_major (ni_protocol info), wpv_minor = pv_minor (ni_protocol info)\<rparr>,
      wni_capabilities =
        map (\<lambda>c. \<lparr>wmc_name = cap_name c, wmc_state = capability_state_i32 (cap_state c),
                  wmc_detail = cap_detail c\<rparr>) (ni_capabilities info)\<rparr>"

definition health_to_wire :: "HealthSnapshot \<Rightarrow> w_HealthSnapshot" where
  "health_to_wire h =
     \<lparr>whs_state = node_state_i32 (hs_state h), whs_collector_degraded = hs_collector_degraded h,
      whs_storage_degraded = hs_storage_degraded h,
      whs_remote_listener_degraded = hs_remote_listener_degraded h, whs_details = hs_details h\<rparr>"

definition connection_details :: "ConnectionPath \<Rightarrow> u64 \<Rightarrow> w_ConnectionDetails" where
  "connection_details path rtt_ms = \<lparr>wcd_path = connection_path_i32 path, wcd_rtt_ms = rtt_ms\<rparr>"

section \<open>From the wire to the domain\<close>

definition capability_state_of :: "i32 \<Rightarrow> CapabilityState" where
  "capability_state_of i = (if i = 1 then Supported else if i = 3 then PermissionDenied else Unsupported)"

definition node_state_of :: "i32 \<Rightarrow> NodeState" where
  "node_state_of i =
     (if i = 1 then Healthy else if i = 2 then Warning else if i = 3 then Critical
      else if i = 4 then Stale else if i = 5 then Offline else if i = 6 then AuthError
      else if i = 7 then Incompatible else Degraded)"

definition connection_path_of :: "i32 \<Rightarrow> ConnectionPath" where
  "connection_path_of i =
     (if i = 1 then LanDirect else if i = 2 then WanDirect else if i = 3 then Relayed
      else UnknownPath)"

definition finite_only :: "fl option \<Rightarrow> fl option" where
  "finite_only v = (case v of None \<Rightarrow> None | Some x \<Rightarrow> if is_finite x then Some x else None)"

definition metric_sample_of_wire :: "w_MetricSample \<Rightarrow> MetricSample" where
  "metric_sample_of_wire w =
     \<lparr>ms_timestamp_ms = wms_timestamp_ms w,
      ms_sequence = wms_sequence w,
      ms_cpu_percent = finite_only (wms_cpu_percent w),
      ms_memory_used_bytes = wms_memory_used_bytes w,
      ms_memory_total_bytes = wms_memory_total_bytes w,
      ms_swap_used_bytes = wms_swap_used_bytes w,
      ms_swap_total_bytes = wms_swap_total_bytes w,
      ms_disks =
        map (\<lambda>d. \<lparr>dm_mount = wdm_mount d, dm_total_bytes = wdm_total_bytes d,
                  dm_used_bytes = wdm_used_bytes d\<rparr>) (wms_disks w),
      ms_network =
        map_option (\<lambda>n. \<lparr>nm_received_bytes_per_second = wnm_received_bytes_per_second n,
                         nm_sent_bytes_per_second = wnm_sent_bytes_per_second n\<rparr>) (wms_network w),
      ms_temperature =
        Option.bind (wms_temperature w) (\<lambda>t.
          if is_finite (wtm_celsius t) then
            Some \<lparr>tm_label = wtm_label t, tm_celsius = wtm_celsius t,
                  tm_critical_celsius = finite_only (wtm_critical_celsius t),
                  tm_sensor_count = wtm_sensor_count t\<rparr>
          else None),
      ms_uptime_seconds = wms_uptime_seconds w,
      ms_errors =
        map (\<lambda>e. \<lparr>ce_source = wce_source e, ce_kind = capability_state_of (wce_kind e),
                  ce_message = wce_message e\<rparr>) (wms_errors w)\<rparr>"

text \<open>The reasons \<open>RemoteFleetError::UnexpectedResponse\<close> carries here.\<close>

definition node_info_of_wire :: "ids \<Rightarrow> w_NodeInfo \<Rightarrow> (string, NodeInfo) result" where
  "node_info_of_wire ids w =
     rbind (ok_or ''protocol version'' (wni_protocol w)) (\<lambda>protocol.
     rbind (ok_or ''node id'' (uuid_parse ids (wni_node_id w))) (\<lambda>node_id.
       Inr \<lparr>ni_node_id = node_id,
            ni_display_name = wni_display_name w,
            ni_os = wni_os w,
            ni_architecture = wni_architecture w,
            ni_agent_version = wni_agent_version w,
            ni_protocol = \<lparr>pv_major = wpv_major protocol, pv_minor = wpv_minor protocol\<rparr>,
            ni_capabilities =
              map (\<lambda>c. \<lparr>cap_name = wmc_name c, cap_state = capability_state_of (wmc_state c),
                        cap_detail = wmc_detail c\<rparr>) (wni_capabilities w)\<rparr>))"

definition health_of_wire :: "w_HealthSnapshot \<Rightarrow> HealthSnapshot" where
  "health_of_wire w =
     \<lparr>hs_state = node_state_of (whs_state w), hs_collector_degraded = whs_collector_degraded w,
      hs_storage_degraded = whs_storage_degraded w,
      hs_remote_listener_degraded = whs_remote_listener_degraded w, hs_details = whs_details w\<rparr>"

section \<open>The contract of an enumeration on the wire\<close>

locale wire_enum =
  fixes to_i32 :: "'a \<Rightarrow> i32"
    and of_i32 :: "i32 \<Rightarrow> 'a"
    and fallback :: 'a
  assumes of_to: "of_i32 (to_i32 x) = x"
    and unspecified: "to_i32 x \<noteq> 0"
    and closed: "i \<notin> range to_i32 \<Longrightarrow> of_i32 i = fallback"
begin

lemma to_i32_inj: "inj to_i32"
  by (metis injI of_to)

lemma of_i32_unspecified: "of_i32 0 = fallback"
  using closed unspecified by (metis imageE)

lemma of_i32_cases: "of_i32 i = x \<Longrightarrow> x \<noteq> fallback \<Longrightarrow> i = to_i32 x"
  using closed of_to by (metis rangeE)

lemma map_of_to: "map (\<lambda>x. g x (of_i32 (to_i32 (f x)))) xs = map (\<lambda>x. g x (f x)) xs"
  by (simp add: of_to)

end

interpretation capability_enum: wire_enum capability_state_i32 capability_state_of Unsupported
proof
  fix i :: int
  show "capability_state_of (capability_state_i32 x) = x" for x
    by (cases x) (simp_all add: capability_state_of_def)
  show "capability_state_i32 x \<noteq> 0" for x by (cases x) simp_all
  assume out: "i \<notin> range capability_state_i32"
  have "i \<noteq> capability_state_i32 x" for x using out by blast
  from this [of Supported] this [of PermissionDenied] show "capability_state_of i = Unsupported"
    by (simp add: capability_state_of_def)
qed

interpretation node_state_enum: wire_enum node_state_i32 node_state_of Degraded
proof
  fix i :: int
  show "node_state_of (node_state_i32 x) = x" for x
    by (cases x) (simp_all add: node_state_of_def)
  show "node_state_i32 x \<noteq> 0" for x by (cases x) simp_all
  assume out: "i \<notin> range node_state_i32"
  have "i \<noteq> node_state_i32 x" for x using out by blast
  from this [of Healthy] this [of Warning] this [of Critical] this [of Stale] this [of Offline]
    this [of AuthError] this [of Incompatible]
  show "node_state_of i = Degraded" by (simp add: node_state_of_def)
qed

interpretation path_enum: wire_enum connection_path_i32 connection_path_of UnknownPath
proof
  fix i :: int
  show "connection_path_of (connection_path_i32 x) = x" for x
    by (cases x) (simp_all add: connection_path_of_def)
  show "connection_path_i32 x \<noteq> 0" for x by (cases x) simp_all
  assume out: "i \<notin> range connection_path_i32"
  have "i \<noteq> connection_path_i32 x" for x using out by blast
  from this [of LanDirect] this [of WanDirect] this [of Relayed]
  show "connection_path_of i = UnknownPath" by (simp add: connection_path_of_def)
qed

section \<open>Properties\<close>

text \<open>A sample that carries readings only: every float in it is finite.\<close>

definition finite_sample :: "MetricSample \<Rightarrow> bool" where
  "finite_sample s \<longleftrightarrow>
     (case ms_cpu_percent s of None \<Rightarrow> True | Some c \<Rightarrow> is_finite c) \<and>
     (case ms_temperature s of
        None \<Rightarrow> True
      | Some t \<Rightarrow> is_finite (tm_celsius t) \<and>
          (case tm_critical_celsius t of None \<Rightarrow> True | Some c \<Rightarrow> is_finite c))"

lemma finite_only_id: "(case v of None \<Rightarrow> True | Some x \<Rightarrow> is_finite x) \<Longrightarrow> finite_only v = v"
  by (cases v) (simp_all add: finite_only_def)

lemma finite_only_finite: "finite_only v = Some x \<Longrightarrow> is_finite x"
  by (auto simp: finite_only_def split: option.splits if_splits)

lemma record_eta:
  "(\<lambda>d. \<lparr>dm_mount = dm_mount d, dm_total_bytes = dm_total_bytes d, dm_used_bytes = dm_used_bytes d\<rparr>) = (\<lambda>d. d)"
  "(\<lambda>e. \<lparr>ce_source = ce_source e, ce_kind = ce_kind e, ce_message = ce_message e\<rparr>) = (\<lambda>e. e)"
  "(\<lambda>c. \<lparr>cap_name = cap_name c, cap_state = cap_state c, cap_detail = cap_detail c\<rparr>) = (\<lambda>c. c)"
  by (rule ext, simp)+

lemma metric_sample_wire_id:
  assumes "finite_sample s"
  shows "metric_sample_of_wire (metric_sample_to_wire s) = s"
proof -
  have temp: "ms_temperature (metric_sample_of_wire (metric_sample_to_wire s)) = ms_temperature s"
    using assms
    by (cases "ms_temperature s")
      (auto simp: metric_sample_of_wire_def metric_sample_to_wire_def finite_sample_def finite_only_id)
  have net: "ms_network (metric_sample_of_wire (metric_sample_to_wire s)) = ms_network s"
    by (cases "ms_network s") (simp_all add: metric_sample_of_wire_def metric_sample_to_wire_def)
  have "ms_cpu_percent (metric_sample_of_wire (metric_sample_to_wire s)) = ms_cpu_percent s"
    using assms by (simp add: metric_sample_of_wire_def metric_sample_to_wire_def finite_sample_def finite_only_id)
  then show ?thesis
    using temp net
    by (intro MetricSample.equality)
      (simp_all add: metric_sample_of_wire_def metric_sample_to_wire_def capability_enum.of_to comp_def
        record_eta)
qed

lemma finite_sample_of_wire: "finite_sample (metric_sample_of_wire w)"
  by (auto simp: finite_sample_def metric_sample_of_wire_def dest: finite_only_finite
      split: option.splits Option.bind_splits)

text \<open>
  C33. What an agent puts on the wire is what a viewer reads: samples with finite readings, health
  snapshots, connection paths and node descriptions all decode to the value that was encoded, and
  whatever sample a peer sends, the decoded one carries finite readings only and is a fixed point of
  another trip.
\<close>

theorem wire_roundtrip:
  assumes "ids_faithful ids"
  shows "(finite_sample s \<longrightarrow> metric_sample_of_wire (metric_sample_to_wire s) = s) \<and>
    finite_sample (metric_sample_of_wire w) \<and>
    metric_sample_of_wire (metric_sample_to_wire (metric_sample_of_wire w)) = metric_sample_of_wire w \<and>
    health_of_wire (health_to_wire h) = h \<and>
    connection_path_of (wcd_path (connection_details path rtt)) = path \<and>
    node_info_of_wire ids (node_info_to_wire ids info eid) = Inr info"
proof -
  have "node_info_of_wire ids (node_info_to_wire ids info eid) = Inr info"
    using assms
    by (simp add: node_info_of_wire_def node_info_to_wire_def ids_faithful_def comp_def
        capability_enum.of_to record_eta)
  moreover have "health_of_wire (health_to_wire h) = h"
    by (simp add: health_of_wire_def health_to_wire_def node_state_enum.of_to)
  ultimately show ?thesis
    by (simp add: metric_sample_wire_id finite_sample_of_wire connection_details_def path_enum.of_to)
qed

text \<open>A concrete printer of identities: the digits of the number, and a search-free inverse.\<close>

definition bit_ids :: ids where
  "bit_ids =
     \<lparr>endpoint_str = (\<lambda>e. map (\<lambda>i. if bit e i then CHR ''1'' else CHR ''0'') [0..<256]),
      uuid_str = (\<lambda>u. map (\<lambda>i. if bit u i then CHR ''1'' else CHR ''0'') [0..<128]),
      uuid_parse = (\<lambda>s. Some (horner_sum of_bool 2 (map (\<lambda>c. c = CHR ''1'') s)))\<rparr>"

lemma bit_ids_faithful: "ids_faithful bit_ids"
proof -
  have "uuid_parse bit_ids (uuid_str bit_ids u) = Some u" for u
  proof -
    have "(\<lambda>c. c = CHR ''1'') \<circ> (\<lambda>i. if bit u i then CHR ''1'' else CHR ''0'') = bit u"
      by (rule ext) simp
    then show ?thesis
      using horner_sum_bit_eq_take_bit [of u 128] by (simp add: bit_ids_def take_bit_word_eq_self)
  qed
  moreover have "inj (endpoint_str bit_ids)"
  proof (rule injI)
    fix a b :: "256 word"
    assume eq: "endpoint_str bit_ids a = endpoint_str bit_ids b"
    have "bit a i = bit b i" if "i < 256" for i
    proof -
      have "endpoint_str bit_ids a ! i = endpoint_str bit_ids b ! i" using eq by simp
      then show ?thesis using that by (simp add: bit_ids_def split: if_splits)
    qed
    then show "a = b" by (intro bit_word_eqI) simp
  qed
  ultimately show ?thesis by (simp add: ids_faithful_def)
qed

theorem wire_roundtrip_witness:
  "metric_sample_of_wire (metric_sample_to_wire (plain_sample 3 (Some (Fin 7)) [])) =
     plain_sample 3 (Some (Fin 7)) [] \<and>
   node_info_of_wire bit_ids (node_info_to_wire bit_ids
     \<lparr>ni_node_id = 5, ni_display_name = ''host'', ni_os = ''linux'', ni_architecture = ''x86_64'',
      ni_agent_version = ''0'', ni_protocol = V1, ni_capabilities = []\<rparr> 9) =
   Inr \<lparr>ni_node_id = 5, ni_display_name = ''host'', ni_os = ''linux'', ni_architecture = ''x86_64'',
      ni_agent_version = ''0'', ni_protocol = V1, ni_capabilities = []\<rparr>"
proof -
  have "finite_sample (plain_sample 3 (Some (Fin 7)) [])" by code_simp
  then show ?thesis using wire_roundtrip [OF bit_ids_faithful] by simp
qed

text \<open>
  Decoding fails closed on values a peer made up: an enumeration value that no encoder produces,
  the unspecified zero included, becomes the state that claims the least (an unsupported capability, a
  degraded node, an unknown path), and any other decoded state was really sent as such. A node
  description without a version or with a malformed identity is rejected.
\<close>

theorem wire_fails_closed:
  "(capability_state_of i = Supported \<longleftrightarrow> i = capability_state_i32 Supported) \<and>
   (capability_state_of i = PermissionDenied \<longleftrightarrow> i = capability_state_i32 PermissionDenied) \<and>
   (node_state_of i = st \<and> st \<noteq> Degraded \<longrightarrow> i = node_state_i32 st) \<and>
   (connection_path_of i = path \<and> path \<noteq> UnknownPath \<longrightarrow> i = connection_path_i32 path) \<and>
   capability_state_of 0 = Unsupported \<and> node_state_of 0 = Degraded \<and>
   connection_path_of 0 = UnknownPath \<and>
   (is_ok (node_info_of_wire ids w) \<longleftrightarrow>
      wni_protocol w \<noteq> None \<and> uuid_parse ids (wni_node_id w) \<noteq> None)"
proof -
  have "is_ok (node_info_of_wire ids w) \<longleftrightarrow>
      wni_protocol w \<noteq> None \<and> uuid_parse ids (wni_node_id w) \<noteq> None"
    by (cases "wni_protocol w"; cases "uuid_parse ids (wni_node_id w)")
      (simp_all add: node_info_of_wire_def)
  then show ?thesis
    using capability_enum.of_i32_cases [of i] capability_enum.of_to [of Supported]
      capability_enum.of_to [of PermissionDenied] node_state_enum.of_i32_cases [of i]
      path_enum.of_i32_cases [of i]
    by (auto simp: capability_enum.of_i32_unspecified node_state_enum.of_i32_unspecified
        path_enum.of_i32_unspecified)
qed

theorem wire_fails_closed_witness:
  "node_state_of 99 = Degraded \<and> capability_state_of 99 \<noteq> Supported \<and> 3 = node_state_i32 Critical"
proof -
  have "node_state_of 3 = Critical" by code_simp
  then have "3 = node_state_i32 Critical"
    using wire_fails_closed [of 3 Critical] by simp
  moreover have "node_state_of 99 = Degraded" by code_simp
  moreover have "capability_state_of 99 \<noteq> Supported" using wire_fails_closed [of 99] by simp
  ultimately show ?thesis by blast
qed

end
