(* ===== verification/Transport.thy ===== *)
theory Transport
  imports Wire "HOL-Library.Product_Lexorder"
begin

text \<open>
  Addresses and the endpoint (\<open>crates/rackio-iroh/src/transport.rs\<close>): how a connection path is
  classified, which addresses of a peer are remembered, and what an endpoint binds. IP addresses are
  words; socket addresses are ordered as Rust orders them. URL and certificate parsing, the file
  system and the operating system's answer to a bind are parameters.
\<close>

unbundle bit_operations_syntax

section \<open>Addresses\<close>

datatype IpAddr = V4 u32 | V6 "128 word"

text \<open>A V6 socket address carries its flow label and scope, which take part in equality.\<close>

datatype SocketAddr = SocketV4 u32 u16 | SocketV6 "128 word" u16 u32 u32

fun ip :: "SocketAddr \<Rightarrow> IpAddr" where
  "ip (SocketV4 a _) = V4 a"
| "ip (SocketV6 a _ _ _) = V6 a"

fun port :: "SocketAddr \<Rightarrow> u16" where
  "port (SocketV4 _ p) = p"
| "port (SocketV6 _ p _ _) = p"

datatype TransportAddr = Ip SocketAddr | Relay string | OtherTransport nat

fun socket_key :: "SocketAddr \<Rightarrow> nat \<times> nat \<times> nat \<times> nat \<times> nat" where
  "socket_key (SocketV4 a p) = (0, unat a, unat p, 0, 0)"
| "socket_key (SocketV6 a p f s) = (1, unat a, unat p, unat f, unat s)"

lemma socket_key_inj: "socket_key x = socket_key y \<Longrightarrow> x = y"
  by (cases x; cases y) (auto simp: word_unat_eq_iff)

instantiation SocketAddr :: linorder
begin

definition less_eq_SocketAddr :: "SocketAddr \<Rightarrow> SocketAddr \<Rightarrow> bool" where
  "x \<le> y \<longleftrightarrow> socket_key x \<le> socket_key y"

definition less_SocketAddr :: "SocketAddr \<Rightarrow> SocketAddr \<Rightarrow> bool" where
  "x < y \<longleftrightarrow> socket_key x < socket_key y"

instance
  by standard (auto simp: less_eq_SocketAddr_def less_SocketAddr_def intro: socket_key_inj)

end

section \<open>Classifying a path\<close>

definition is_private :: "u32 \<Rightarrow> bool" where
  "is_private a \<longleftrightarrow>
     drop_bit 24 a = 10 \<or> drop_bit 20 a = 0xAC1 \<or> drop_bit 16 a = 0xC0A8"

definition is_loopback_v4 :: "u32 \<Rightarrow> bool" where
  "is_loopback_v4 a \<longleftrightarrow> drop_bit 24 a = 127"

definition is_link_local :: "u32 \<Rightarrow> bool" where
  "is_link_local a \<longleftrightarrow> drop_bit 16 a = 0xA9FE"

definition is_private_or_local_v4 :: "u32 \<Rightarrow> bool" where
  "is_private_or_local_v4 a \<longleftrightarrow> is_private a \<or> is_loopback_v4 a \<or> is_link_local a"

definition to_ipv4_mapped :: "128 word \<Rightarrow> u32 option" where
  "to_ipv4_mapped a = (if drop_bit 32 a = 0xFFFF then Some (ucast a) else None)"

definition is_loopback_v6 :: "128 word \<Rightarrow> bool" where
  "is_loopback_v6 a \<longleftrightarrow> a = 1"

definition is_unique_local :: "128 word \<Rightarrow> bool" where
  "is_unique_local a \<longleftrightarrow> drop_bit 121 a = 0x7E"

definition is_unicast_link_local :: "128 word \<Rightarrow> bool" where
  "is_unicast_link_local a \<longleftrightarrow> drop_bit 118 a = 0x3FA"

fun is_private_or_local :: "IpAddr \<Rightarrow> bool" where
  "is_private_or_local (V4 a) = is_private_or_local_v4 a"
| "is_private_or_local (V6 a) =
     (case to_ipv4_mapped a of
        None \<Rightarrow> is_loopback_v6 a \<or> is_unique_local a \<or> is_unicast_link_local a
      | Some v4 \<Rightarrow> is_private_or_local_v4 v4)"

fun direct_path :: "TransportAddr \<Rightarrow> ConnectionPath" where
  "direct_path (Ip address) =
     (if is_private_or_local (ip address) then LanDirect else WanDirect)"
| "direct_path _ = UnknownPath"

definition duration_millis :: "nat \<Rightarrow> u64" where
  "duration_millis millis = (if millis \<le> u64_max then of_nat millis else of_nat u64_max)"

text \<open>What \<open>iroh\<close> reports of one path of a connection; the round trip in milliseconds.\<close>

record path_info =
  is_selected :: bool
  is_relay :: bool
  remote_addr :: TransportAddr
  path_rtt :: nat

record ConnectionDetails =
  cd_path :: ConnectionPath
  cd_rtt_ms :: u64

definition classify_connection :: "path_info list \<Rightarrow> ConnectionDetails" where
  "classify_connection paths =
     (case find is_selected paths of
        None \<Rightarrow> \<lparr>cd_path = UnknownPath, cd_rtt_ms = 0\<rparr>
      | Some selected \<Rightarrow>
          \<lparr>cd_path = (if is_relay selected then Relayed else direct_path (remote_addr selected)),
           cd_rtt_ms = duration_millis (path_rtt selected)\<rparr>)"

fun ip_of :: "TransportAddr \<Rightarrow> SocketAddr option" where
  "ip_of (Ip address) = Some address"
| "ip_of _ = None"

text \<open>\<open>sort_unstable\<close> then \<open>dedup\<close>, which removes consecutive repetitions.\<close>

definition observed_direct_addresses :: "path_info list \<Rightarrow> SocketAddr list" where
  "observed_direct_addresses paths =
     remdups_adj (sort (List.map_filter (\<lambda>p. ip_of (remote_addr p)) paths))"

section \<open>Binding an endpoint\<close>

record EndpointConfig =
  ec_relay_urls :: "string list"
  ec_bind_port :: "u16 option"
  ec_advertise_addresses :: "SocketAddr list"
  ec_relay_ca_certificate :: "string option"

definition EndpointConfig_default :: EndpointConfig where
  "EndpointConfig_default =
     \<lparr>ec_relay_urls = [], ec_bind_port = None, ec_advertise_addresses = [],
      ec_relay_ca_certificate = None\<rparr>"

datatype RelayCaError =
  Unreadable string | Malformed string | NoCertificate string | Unusable string

datatype TransportError =
  InvalidRelayUrl string
| InvalidBindPort u16
| BindPortUnavailable u16
| EndpointError
| ConnectError
| ConnectionError
| StreamClosed
| FrameFailed FrameError
| RemoteError string string
| RelayCa RelayCaError

text \<open>
  The code outside the repository that binding relies on: reading a file, splitting PEM into
  certificates, checking that they can anchor TLS, parsing relay URLs, and the final bind.
\<close>

record ('cert, 'url) host_env =
  read_file :: "string \<Rightarrow> bytes option"
  pem_certs :: "bytes \<Rightarrow> 'cert list option"
  anchors :: "'cert list \<Rightarrow> bool"
  parse_relay_url :: "string \<Rightarrow> 'url option"
  bind_ok :: "u16 option \<Rightarrow> bool"

definition relay_ca_tls_config ::
  "('cert, 'url) host_env \<Rightarrow> string \<Rightarrow> (RelayCaError, 'cert list) result" where
  "relay_ca_tls_config env path =
     rbind (ok_or (Unreadable path) (read_file env path)) (\<lambda>pem.
     rbind (ok_or (Malformed path) (pem_certs env pem)) (\<lambda>roots.
       if roots = [] then Inl (NoCertificate path)
       else if \<not> anchors env roots then Inl (Unusable path)
       else Inr roots))"

definition validate_relay_ca_certificate ::
  "('cert, 'url) host_env \<Rightarrow> string \<Rightarrow> (RelayCaError, unit) result" where
  "validate_relay_ca_certificate env path = rbind (relay_ca_tls_config env path) (\<lambda>_. Inr ())"

text \<open>What the builder was told when it bound: the relays (none in direct-only mode), the trust
  anchors (none is the public root store), the external addresses and the requested port.\<close>

record ('cert, 'url) Endpoint =
  ep_relays :: "'url list option"
  ep_roots :: "'cert list option"
  ep_external :: "SocketAddr list"
  ep_port :: "u16 option"

definition parse_relay_urls ::
  "('cert, 'url) host_env \<Rightarrow> string list \<Rightarrow> (TransportError, 'url list) result" where
  "parse_relay_urls env urls =
     collect_results (map (\<lambda>value. ok_or (InvalidRelayUrl value) (parse_relay_url env value)) urls)"

definition relay_transport ::
  "('cert, 'url) host_env \<Rightarrow> EndpointConfig \<Rightarrow>
   (TransportError, 'url list option \<times> 'cert list option) result" where
  "relay_transport env config =
     (if ec_relay_urls config = [] then Inr (None, None)
      else rbind (parse_relay_urls env (ec_relay_urls config)) (\<lambda>urls.
        case ec_relay_ca_certificate config of
          None \<Rightarrow> Inr (Some urls, None)
        | Some path \<Rightarrow>
            rbind (map_err RelayCa (relay_ca_tls_config env path)) (\<lambda>roots.
              Inr (Some urls, Some roots))))"

definition bind_endpoint ::
  "('cert, 'url) host_env \<Rightarrow> EndpointConfig \<Rightarrow> (TransportError, ('cert, 'url) Endpoint) result" where
  "bind_endpoint env config =
     rbind (relay_transport env config) (\<lambda>(relays, roots).
       case ec_bind_port config of
         None \<Rightarrow>
           if bind_ok env None then
             Inr \<lparr>ep_relays = relays, ep_roots = roots,
                  ep_external = ec_advertise_addresses config, ep_port = None\<rparr>
           else Inl EndpointError
       | Some p \<Rightarrow>
           if p = 0 then Inl (InvalidBindPort p)
           else if bind_ok env (Some p) then
             Inr \<lparr>ep_relays = relays, ep_roots = roots,
                  ep_external = ec_advertise_addresses config, ep_port = Some p\<rparr>
           else Inl (BindPortUnavailable p))"

section \<open>Properties\<close>

lemma nat_div_eq_iff:
  assumes "0 < (b :: nat)"
  shows "a div b = c \<longleftrightarrow> c * b \<le> a \<and> a < (c + 1) * b"
proof -
  have "a div b = c \<longleftrightarrow> c \<le> a div b \<and> a div b < c + 1" by auto
  then show ?thesis
    using assms by (simp only: less_eq_div_iff_mult_less_eq div_less_iff_less_mult)
qed

lemma drop_bit_eq_iff_range:
  "drop_bit k (a :: 'a :: len word) = c \<longleftrightarrow>
    unat c * 2 ^ k \<le> unat a \<and> unat a < (unat c + 1) * 2 ^ k"
proof -
  have "drop_bit k a = c \<longleftrightarrow> unat a div 2 ^ k = unat c"
    by (simp only: word_unat_eq_iff unat_drop_bit_eq) (simp only: drop_bit_eq_div)
  then show ?thesis by (simp only: nat_div_eq_iff zero_less_power zero_less_numeral)
qed

definition ipv4_mapped :: "u32 \<Rightarrow> 128 word" where
  "ipv4_mapped a = push_bit 32 0xFFFF OR ucast a"

lemma ucast_push_or: "(ucast (push_bit 32 x OR ucast a :: 128 word) :: u32) = a"
  by (rule bit_word_eqI) (simp add: bit_ucast_iff bit_or_iff bit_push_bit_iff)

lemma to_ipv4_mapped_mapped: "to_ipv4_mapped (ipv4_mapped a) = Some a"
proof -
  have "drop_bit 32 (ucast a :: 128 word) = 0"
    by (rule bit_word_eqI) (auto simp: bit_drop_bit_eq bit_ucast_iff dest: bit_imp_le_length)
  then have "drop_bit 32 (ipv4_mapped a) = 0xFFFF"
    by (simp add: ipv4_mapped_def)
  moreover have "(ucast (ipv4_mapped a) :: u32) = a"
    unfolding ipv4_mapped_def by (rule ucast_push_or)
  ultimately show ?thesis by (simp add: to_ipv4_mapped_def)
qed

text \<open>
  A direct path is called local exactly for the documented IPv4 ranges (10/8, 127/8, 169.254/16,
  172.16/12 and 192.168/16), an IPv4-mapped IPv6 peer is classified as the IPv4 host it is, and a
  connection whose selected path is a relay, or that has no selected path, is never called direct.
\<close>

theorem path_classification_exact:
  "(is_private_or_local (V4 a) \<longleftrightarrow>
      10 * 2 ^ 24 \<le> unat a \<and> unat a < 11 * 2 ^ 24 \<or>
      127 * 2 ^ 24 \<le> unat a \<and> unat a < 128 * 2 ^ 24 \<or>
      (169 * 2 ^ 8 + 254) * 2 ^ 16 \<le> unat a \<and> unat a < (169 * 2 ^ 8 + 255) * 2 ^ 16 \<or>
      (172 * 2 ^ 8 + 16) * 2 ^ 16 \<le> unat a \<and> unat a < (172 * 2 ^ 8 + 32) * 2 ^ 16 \<or>
      (192 * 2 ^ 8 + 168) * 2 ^ 16 \<le> unat a \<and> unat a < (192 * 2 ^ 8 + 169) * 2 ^ 16) \<and>
   is_private_or_local (V6 (ipv4_mapped a)) = is_private_or_local (V4 a) \<and>
   (case find is_selected paths of
      None \<Rightarrow> cd_path (classify_connection paths) = UnknownPath
    | Some p \<Rightarrow> (cd_path (classify_connection paths) \<in> {LanDirect, WanDirect} \<longleftrightarrow>
        \<not> is_relay p \<and> ip_of (remote_addr p) \<noteq> None))"
proof -
  have "is_private_or_local (V6 (ipv4_mapped a)) = is_private_or_local (V4 a)"
    by (simp add: to_ipv4_mapped_mapped)
  moreover have "case find is_selected paths of
      None \<Rightarrow> cd_path (classify_connection paths) = UnknownPath
    | Some p \<Rightarrow> (cd_path (classify_connection paths) \<in> {LanDirect, WanDirect} \<longleftrightarrow>
        \<not> is_relay p \<and> ip_of (remote_addr p) \<noteq> None)"
  proof (cases "find is_selected paths")
    case (Some p)
    then show ?thesis by (cases "remote_addr p") (auto simp: classify_connection_def)
  qed (simp add: classify_connection_def)
  ultimately show ?thesis
    by (auto simp: is_private_or_local_v4_def is_private_def is_loopback_v4_def is_link_local_def
        drop_bit_eq_iff_range)
qed

text \<open>
  Binding never weakens the configured trust or reachability: without relay URLs no relay and no
  pinned anchor is used, with them every URL parsed and the anchors are exactly the certificates of the
  pinned file when one is configured (a file that cannot anchor stops the start), and a configured port
  is the port bound or the start fails.
\<close>

theorem bind_endpoint_faithful:
  assumes "bind_endpoint env config = Inr ep"
  shows "ep_port ep = ec_bind_port config \<and> ec_bind_port config \<noteq> Some 0 \<and>
    ep_external ep = ec_advertise_addresses config \<and>
    (if ec_relay_urls config = [] then ep_relays ep = None \<and> ep_roots ep = None
     else map (parse_relay_url env) (ec_relay_urls config) = map Some (the (ep_relays ep)) \<and>
       ep_relays ep \<noteq> None \<and>
       (case ec_relay_ca_certificate config of
          None \<Rightarrow> ep_roots ep = None
        | Some path \<Rightarrow>
            (\<exists>pem roots. read_file env path = Some pem \<and> pem_certs env pem = Some roots \<and>
               roots \<noteq> [] \<and> anchors env roots \<and> ep_roots ep = Some roots)))"
proof -
  obtain relays roots where rt: "relay_transport env config = Inr (relays, roots)"
    and ep: "ep_relays ep = relays" "ep_roots ep = roots" "ep_port ep = ec_bind_port config"
      "ep_external ep = ec_advertise_addresses config" "ec_bind_port config \<noteq> Some 0"
    using assms
    by (cases "ec_bind_port config") (auto simp: bind_endpoint_def rbind_eq_Inr split: if_splits)
  have urls: "map (parse_relay_url env) us = map Some vs" if "parse_relay_urls env us = Inr vs" for us vs
  proof -
    have "map (\<lambda>v. ok_or (InvalidRelayUrl v) (parse_relay_url env v)) us = map Inr vs"
      using that by (simp add: parse_relay_urls_def collect_results_eq_Inr)
    then show ?thesis by (induction us arbitrary: vs) (auto simp: Cons_eq_map_conv)
  qed
  show ?thesis
  proof (cases "ec_relay_urls config = []")
    case True
    then show ?thesis using rt ep by (simp add: relay_transport_def)
  next
    case False
    then show ?thesis
      unfolding ep(1-4) using rt urls ep(5)
      by (auto simp: relay_transport_def relay_ca_tls_config_def rbind_eq_Inr split: option.splits if_splits)
  qed
qed

definition witness_host_env :: "(nat, string) host_env" where
  "witness_host_env =
     \<lparr>read_file = (\<lambda>_. Some [1]), pem_certs = (\<lambda>bs. Some (map unat bs)), anchors = (\<lambda>_. True),
      parse_relay_url = Some, bind_ok = (\<lambda>_. True)\<rparr>"

theorem bind_endpoint_faithful_witness:
  "\<exists>ep. bind_endpoint witness_host_env
       \<lparr>ec_relay_urls = [''https://relay''], ec_bind_port = Some 7000, ec_advertise_addresses = [],
        ec_relay_ca_certificate = Some ''ca.pem''\<rparr> = Inr ep \<and>
     ep_port ep = Some 7000 \<and> ep_roots ep = Some [1]"
proof -
  let ?config = "\<lparr>ec_relay_urls = [''https://relay''], ec_bind_port = Some 7000,
    ec_advertise_addresses = [], ec_relay_ca_certificate = Some ''ca.pem''\<rparr>"
  have "is_ok (bind_endpoint witness_host_env ?config)" by code_simp
  then obtain ep where ok: "bind_endpoint witness_host_env ?config = Inr ep" by (auto simp: is_ok_iff)
  from bind_endpoint_faithful [OF ok] ok show ?thesis by (auto simp: witness_host_env_def)
qed

lemma sorted_remdups_adj_distinct: "sorted xs \<Longrightarrow> distinct (remdups_adj xs)"
  by (induction xs rule: remdups_adj.induct) auto

lemma observed_facts:
  "set (observed_direct_addresses paths) = {a. \<exists>p \<in> set paths. ip_of (remote_addr p) = Some a}"
  "sorted (observed_direct_addresses paths)"
  "distinct (observed_direct_addresses paths)"
proof -
  have mf: "set (List.map_filter f xs) = {y. \<exists>x \<in> set xs. f x = Some y}" for f and xs :: "'x list"
    by (induction xs) (auto simp: List.map_filter_simps split: option.splits)
  show "set (observed_direct_addresses paths) = {a. \<exists>p \<in> set paths. ip_of (remote_addr p) = Some a}"
    by (simp add: observed_direct_addresses_def mf)
  show "sorted (observed_direct_addresses paths)"
    by (simp add: observed_direct_addresses_def sorted_remdups_adj)
  show "distinct (observed_direct_addresses paths)"
    by (simp add: observed_direct_addresses_def sorted_remdups_adj_distinct)
qed

text \<open>
  The addresses remembered of a peer are exactly the IP addresses of its paths, without relays,
  sorted and without repetition, so that an unchanged set never looks like a change: paths with the
  same addresses in any order and multiplicity give the same list.
\<close>

theorem observed_addresses_canonical:
  assumes "\<forall>a. (\<exists>p \<in> set paths. ip_of (remote_addr p) = Some a) \<longleftrightarrow>
    (\<exists>p \<in> set paths'. ip_of (remote_addr p) = Some a)"
  shows "observed_direct_addresses paths = observed_direct_addresses paths' \<and>
    sorted (observed_direct_addresses paths) \<and> distinct (observed_direct_addresses paths) \<and>
    set (observed_direct_addresses paths) = {a. \<exists>p \<in> set paths. remote_addr p = Ip a}"
proof -
  have "ip_of t = Some a \<longleftrightarrow> t = Ip a" for t a by (cases t) auto
  moreover have "set (observed_direct_addresses paths) = set (observed_direct_addresses paths')"
    using assms by (simp add: observed_facts)
  ultimately show ?thesis
    by (simp add: observed_facts sorted_distinct_set_unique)
qed

definition witness_path :: "u32 \<Rightarrow> path_info" where
  "witness_path a =
     \<lparr>is_selected = True, is_relay = False, remote_addr = Ip (SocketV4 a 80), path_rtt = 3\<rparr>"

theorem observed_addresses_canonical_witness:
  "observed_direct_addresses [witness_path 9, witness_path 4, witness_path 9] =
   observed_direct_addresses [witness_path 4, witness_path 9]"
  using observed_addresses_canonical
    [of "[witness_path 9, witness_path 4, witness_path 9]" "[witness_path 4, witness_path 9]"]
  by (auto simp: witness_path_def)

end
