(* ===== verification/Address_Text.thy ===== *)
theory Address_Text
  imports Transport
begin

text \<open>
  The text of a socket address: the parser behind \<open>str::parse::<SocketAddr>()\<close>, which the configuration, its
  file and the local commands use, and the decimal form of an IPv4 address with its port. A reader takes the
  text and returns the value with the rest of the text, or nothing with no input consumed.
\<close>

section \<open>Numbers\<close>

type_synonym 'a reader = "string \<Rightarrow> ('a \<times> string) option"

definition to_digit :: "nat \<Rightarrow> char \<Rightarrow> nat option" where
  "to_digit radix c =
     (let n = of_char c :: nat;
          d = (if 48 \<le> n \<and> n \<le> 57 then n - 48
               else if 97 \<le> n \<and> n \<le> 122 then n - 87
               else if 65 \<le> n \<and> n \<le> 90 then n - 55
               else radix)
      in if d < radix then Some d else None)"

fun digits :: "nat \<Rightarrow> string \<Rightarrow> nat list \<times> string" where
  "digits radix [] = ([], [])"
| "digits radix (c # s) =
     (case to_digit radix c of
        None \<Rightarrow> ([], c # s)
      | Some d \<Rightarrow> (let (ds, rest) = digits radix s in (d # ds, rest)))"

definition digits_value :: "nat \<Rightarrow> nat list \<Rightarrow> nat" where
  "digits_value radix = foldl (\<lambda>n d. n * radix + d) 0"

text \<open>
  \<open>read_number\<close>: the longest run of digits; refused when it is empty, longer than allowed, begins with a
  superfluous zero where that is not allowed, or does not fit the type.
\<close>

definition read_number :: "nat \<Rightarrow> nat option \<Rightarrow> bool \<Rightarrow> nat \<Rightarrow> nat reader" where
  "read_number radix max_digits allow_zero_prefix limit s =
     (let (ds, rest) = digits radix s
      in if ds = [] \<or> (case max_digits of None \<Rightarrow> False | Some m \<Rightarrow> m < length ds) \<or>
            \<not> allow_zero_prefix \<and> hd ds = 0 \<and> 1 < length ds \<or> limit < digits_value radix ds
         then None else Some (digits_value radix ds, rest))"

definition read_given_char :: "char \<Rightarrow> unit reader" where
  "read_given_char c s = (case s of [] \<Rightarrow> None | x # rest \<Rightarrow> if x = c then Some ((), rest) else None)"

definition read_then :: "'a reader \<Rightarrow> ('a \<Rightarrow> 'b reader) \<Rightarrow> 'b reader" where
  "read_then p f s = (case p s of None \<Rightarrow> None | Some (x, rest) \<Rightarrow> f x rest)"

definition read_return :: "'a \<Rightarrow> 'a reader" where
  "read_return x s = Some (x, s)"

definition read_separator :: "char \<Rightarrow> nat \<Rightarrow> 'a reader \<Rightarrow> 'a reader" where
  "read_separator sep index p =
     (if 0 < index then read_then (read_given_char sep) (\<lambda>_. p) else p)"

section \<open>Addresses\<close>

definition ipv4_of_octets :: "nat \<Rightarrow> nat \<Rightarrow> nat \<Rightarrow> nat \<Rightarrow> u32" where
  "ipv4_of_octets a b c d = word_of_nat (((a * 256 + b) * 256 + c) * 256 + d)"

definition read_octet :: "nat reader" where
  "read_octet = read_number 10 (Some 3) False 255"

definition read_ipv4_addr :: "u32 reader" where
  "read_ipv4_addr =
     read_then (read_separator CHR ''.'' 0 read_octet) (\<lambda>a.
     read_then (read_separator CHR ''.'' 1 read_octet) (\<lambda>b.
     read_then (read_separator CHR ''.'' 2 read_octet) (\<lambda>c.
     read_then (read_separator CHR ''.'' 3 read_octet) (\<lambda>d.
       read_return (ipv4_of_octets a b c d)))))"

text \<open>
  Groups of an IPv6 address: \<open>remaining\<close> slots are free, \<open>index\<close> groups were read. An embedded IPv4 address
  takes two slots and ends the groups.
\<close>

fun read_groups :: "nat \<Rightarrow> nat \<Rightarrow> nat list \<Rightarrow> string \<Rightarrow> nat list \<times> bool \<times> string" where
  "read_groups 0 index groups s = (groups, False, s)"
| "read_groups (Suc remaining) index groups s =
     (case (if 0 < remaining then read_separator CHR '':'' index read_ipv4_addr s else None) of
        Some (v4, rest) \<Rightarrow> (groups @ [unat v4 div 65536, unat v4 mod 65536], True, rest)
      | None \<Rightarrow>
          (case read_separator CHR '':'' index (read_number 16 (Some 4) True 65535) s of
             Some (g, rest) \<Rightarrow> read_groups remaining (index + 1) (groups @ [g]) rest
           | None \<Rightarrow> (groups, False, s)))"

definition ipv6_of_groups :: "nat list \<Rightarrow> 128 word" where
  "ipv6_of_groups groups = word_of_nat (digits_value 65536 groups)"

definition read_ipv6_addr :: "(128 word) reader" where
  "read_ipv6_addr s =
     (let (head, head_ipv4, rest) = read_groups 8 0 [] s
      in if length head = 8 then Some (ipv6_of_groups head, rest)
         else if head_ipv4 then None
         else read_then (read_given_char CHR '':'') (\<lambda>_.
              read_then (read_given_char CHR '':'') (\<lambda>_ s.
                let (tail, _, rest) = read_groups (8 - (length head + 1)) 0 [] s
                in Some (ipv6_of_groups (head @ replicate (8 - length head - length tail) 0 @ tail), rest))) rest)"

definition read_port :: "u16 reader" where
  "read_port =
     read_then (read_given_char CHR '':'') (\<lambda>_.
     read_then (read_number 10 None True 65535) (\<lambda>n. read_return (word_of_nat n)))"

definition read_scope_id :: "u32 reader" where
  "read_scope_id =
     read_then (read_given_char CHR ''%'') (\<lambda>_.
     read_then (read_number 10 None True u32_max) (\<lambda>n. read_return (word_of_nat n)))"

definition read_optional :: "'a \<Rightarrow> 'a reader \<Rightarrow> 'a reader" where
  "read_optional x p s = (case p s of None \<Rightarrow> Some (x, s) | Some r \<Rightarrow> Some r)"

definition read_socket_addr_v4 :: "SocketAddr reader" where
  "read_socket_addr_v4 =
     read_then read_ipv4_addr (\<lambda>a. read_then read_port (\<lambda>p. read_return (SocketV4 a p)))"

definition read_socket_addr_v6 :: "SocketAddr reader" where
  "read_socket_addr_v6 =
     read_then (read_given_char CHR ''['') (\<lambda>_.
     read_then read_ipv6_addr (\<lambda>a.
     read_then (read_optional 0 read_scope_id) (\<lambda>scope.
     read_then (read_given_char CHR '']'') (\<lambda>_.
     read_then read_port (\<lambda>p. read_return (SocketV6 a p 0 scope))))))"

definition parse_socket_addr :: "string \<Rightarrow> SocketAddr option" where
  "parse_socket_addr s =
     (case (case read_socket_addr_v4 s of None \<Rightarrow> read_socket_addr_v6 s | Some r \<Rightarrow> Some r) of
        Some (a, []) \<Rightarrow> Some a
      | _ \<Rightarrow> None)"

definition show_socket_v4 :: "u32 \<Rightarrow> u16 \<Rightarrow> string" where
  "show_socket_v4 a p =
     (let n = unat a
      in show_nat (n div 16777216) @ ''.'' @ show_nat (n div 65536 mod 256) @ ''.'' @
         show_nat (n div 256 mod 256) @ ''.'' @ show_nat (n mod 256) @ '':'' @ show_nat (unat p))"

section \<open>Printed numbers are read back\<close>

lemma to_digit_digit_char [simp]: "d < 10 \<Longrightarrow> to_digit 10 (digit_char d) = Some d"
  by (simp add: to_digit_def digit_char_def)

lemma digits_end [simp]: "to_digit radix c = None \<Longrightarrow> digits radix (c # s) = ([], c # s)"
  by simp

lemma digits_append:
  assumes "\<forall>c \<in> set s. to_digit radix c \<noteq> None"
  shows "digits radix (s @ t) =
    (map (\<lambda>c. the (to_digit radix c)) s @ fst (digits radix t), snd (digits radix t))"
  using assms by (induction s) (auto split: prod.splits)

lemma show_nat_digits: "\<forall>c \<in> set (show_nat n). to_digit 10 c \<noteq> None"
  by (induction n rule: show_nat.induct) (subst show_nat.simps, simp)

lemma digits_value_snoc [simp]: "digits_value radix (ds @ [d]) = digits_value radix ds * radix + d"
  by (simp add: digits_value_def)

lemma show_nat_value: "digits_value 10 (map (\<lambda>c. the (to_digit 10 c)) (show_nat n)) = n"
  by (induction n rule: show_nat.induct) (subst show_nat.simps, simp add: digits_value_def)

lemma show_nat_not_Nil [simp]: "show_nat n \<noteq> []"
  by (subst show_nat.simps) simp

lemma show_nat_hd: "10 \<le> n \<Longrightarrow> the (to_digit 10 (hd (show_nat n))) \<noteq> 0"
proof (induction n rule: show_nat.induct)
  case (1 n)
  show ?case
  proof (cases "n div 10 < 10")
    case True
    then have "show_nat (n div 10) = [digit_char (n div 10)]" by (simp add: show_nat.simps)
    then show ?thesis using 1 True by (subst show_nat.simps) simp
  next
    case False
    then show ?thesis using 1 by (subst show_nat.simps) simp
  qed
qed

lemma show_nat_length: "0 < k \<Longrightarrow> n < 10 ^ k \<Longrightarrow> length (show_nat n) \<le> k"
proof (induction n arbitrary: k rule: show_nat.induct)
  case (1 n)
  show ?case
  proof (cases "n < 10")
    case True
    then show ?thesis using 1 by (simp add: show_nat.simps)
  next
    case False
    then obtain j where k: "k = Suc j" "0 < j" using 1 by (cases k; cases "k - 1") auto
    then have "n div 10 < 10 ^ j" using 1 by (simp add: div_less_iff_less_mult mult.commute)
    then show ?thesis using 1 False k by (subst show_nat.simps) simp
  qed
qed

lemma show_nat_hd_zero: "the (to_digit 10 (hd (show_nat n))) = 0 \<Longrightarrow> length (show_nat n) = 1"
  using show_nat_hd [of n] by (cases "n < 10") (auto simp: show_nat.simps)

text \<open>Reading back a printed number that is followed by a separator or the end of the text.\<close>

lemma read_number_show:
  assumes "n \<le> limit" and "\<forall>m. max_digits = Some m \<longrightarrow> 0 < m \<and> n < 10 ^ m"
    and "t = [] \<or> to_digit 10 (hd t) = None"
  shows "read_number 10 max_digits allow_zero_prefix limit (show_nat n @ t) = Some (n, t)"
proof -
  let ?ds = "map (\<lambda>c. the (to_digit 10 c)) (show_nat n)"
  have "digits 10 t = ([], t)" using assms(3) by (cases t) auto
  then have run: "digits 10 (show_nat n @ t) = (?ds, t)"
    using digits_append [OF show_nat_digits, of n t] by simp
  moreover have "\<not> (hd ?ds = 0 \<and> 1 < length ?ds)"
    using show_nat_hd_zero [of n] by (auto simp: hd_map)
  moreover have "length ?ds \<le> m" if "max_digits = Some m" for m
    using show_nat_length [of m n] assms(2) that by simp
  ultimately show ?thesis
    using assms(1) by (force simp: read_number_def show_nat_value split: option.splits)
qed

lemmas reader_simps = read_then_def read_return_def read_separator_def read_given_char_def

lemma separators [simp]: "to_digit 10 CHR ''.'' = None" "to_digit 10 CHR '':'' = None"
  by (simp_all add: to_digit_def)

lemma read_octet_show:
  "n < 256 \<Longrightarrow> t = [] \<or> to_digit 10 (hd t) = None \<Longrightarrow> read_octet (show_nat n @ t) = Some (n, t)"
  by (simp add: read_octet_def read_number_show)

lemma octets_of_u32:
  "ipv4_of_octets (unat a div 16777216) (unat a div 65536 mod 256) (unat a div 256 mod 256) (unat a mod 256) = a"
proof -
  let ?n = "unat a"
  have "?n div 16777216 * 256 + ?n div 65536 mod 256 = ?n div 65536"
    using div_mult_mod_eq [of "?n div 65536" 256] by (simp add: div_mult2_eq [symmetric])
  moreover have "?n div 65536 * 256 + ?n div 256 mod 256 = ?n div 256"
    using div_mult_mod_eq [of "?n div 256" 256] by (simp add: div_mult2_eq [symmetric])
  ultimately show ?thesis by (simp add: ipv4_of_octets_def)
qed

lemma parse_show_socket_v4: "parse_socket_addr (show_socket_v4 a p) = Some (SocketV4 a p)"
proof -
  have bounds: "unat a div 16777216 < 256" "unat p \<le> 65535"
    using unat_u32_bound [of a] unsigned_less [of p, where ?'a = nat] by (simp_all add: div_less_iff_less_mult)
  have "read_socket_addr_v4 (show_socket_v4 a p) = Some (SocketV4 a p, [])"
    using bounds
    by (simp add: read_socket_addr_v4_def read_ipv4_addr_def read_port_def show_socket_v4_def Let_def reader_simps
        read_octet_show octets_of_u32 read_number_show [where t = "[]", simplified])
  then show ?thesis by (simp add: parse_socket_addr_def)
qed

section \<open>What is accepted\<close>

text \<open>An accepted text is a numeric address: it begins with a digit or an opening bracket.\<close>

lemma read_number_Some: "read_number radix m z limit s = Some (n, t) \<Longrightarrow> s \<noteq> [] \<and> to_digit radix (hd s) \<noteq> None"
  by (cases s) (auto simp: read_number_def split: if_splits option.splits prod.splits)

lemma parse_socket_addr_numeric:
  assumes "parse_socket_addr s = Some a"
  shows "s \<noteq> [] \<and> (to_digit 10 (hd s) \<noteq> None \<or> hd s = CHR ''['')"
proof (cases "read_socket_addr_v4 s")
  case (Some r)
  then show ?thesis
    using read_number_Some [of 10 "Some 3" False 255 s]
    by (auto simp: read_socket_addr_v4_def read_ipv4_addr_def read_octet_def reader_simps
        split: option.splits prod.splits)
next
  case None
  then have "read_socket_addr_v6 s \<noteq> None"
    using assms by (auto simp: parse_socket_addr_def split: option.splits)
  then show ?thesis
    by (auto simp: read_socket_addr_v6_def reader_simps split: option.splits list.splits if_splits)
qed

end
