(* ===== verification/Durable.thy ===== *)
theory Durable
  imports Btree
begin

text \<open>
  The pattern both registries of the system follow (\<open>PeerRegistry\<close> in
  \<open>crates/rackio-iroh/src/pairing.rs\<close> and \<open>RemoteMachineRegistry\<close> in
  \<open>apps/agent/src/remote/registry.rs\<close>): clone the records, change the clone, write it to a
  temporary file, rename it over the old file, and only then publish the clone in memory. The
  contract of such an operation is the locale \<open>durable_op\<close>: it is refused without any effect or it
  leaves memory and file in agreement. Its consequence, proved once, is that a restart finds what
  was in memory.
\<close>

section \<open>Files and registries\<close>

record ('m, 'f) file_codec =
  to_file :: "'m \<Rightarrow> 'f option"
  of_file :: "'f \<Rightarrow> 'm option"

definition codec_faithful :: "('m, 'f) file_codec \<Rightarrow> bool" where
  "codec_faithful c \<longleftrightarrow> (\<forall>m f. to_file c m = Some f \<longrightarrow> of_file c f = Some m)"

datatype persist_error = PersistIo | PersistJson

text \<open>
  \<open>persist_records\<close>: create the directory, the temporary file, its permissions, write, sync and
  rename; \<open>io n\<close> says whether the n-th of these fails. The target file changes with the rename only.
\<close>

definition persist_records ::
  "('m, 'f) file_codec \<Rightarrow> (nat \<Rightarrow> bool) \<Rightarrow> 'm \<Rightarrow> 'f option \<Rightarrow>
   (persist_error, unit) result \<times> 'f option" where
  "persist_records c io m file =
     (if io 0 \<or> io 1 \<or> io 2 then (Inl PersistIo, file)
      else case to_file c m of
             None \<Rightarrow> (Inl PersistJson, file)
           | Some content \<Rightarrow>
               if io 3 \<or> io 4 \<or> io 5 then (Inl PersistIo, file) else (Inr (), Some content))"

record ('m, 'f) registry =
  reg_records :: 'm
  reg_file :: "'f option"
  reg_poisoned :: bool

text \<open>Persist the changed clone, then publish it.\<close>

definition publish ::
  "('m, 'f) file_codec \<Rightarrow> (nat \<Rightarrow> bool) \<Rightarrow> ('m, 'f) registry \<Rightarrow> 'm \<Rightarrow>
   (persist_error, unit) result \<times> ('m, 'f) registry" where
  "publish c io reg next =
     (case persist_records c io next (reg_file reg) of
        (Inl e, _) \<Rightarrow> (Inl e, reg)
      | (Inr _, file) \<Rightarrow> (Inr (), reg\<lparr>reg_records := next, reg_file := file\<rparr>))"

text \<open>\<open>load\<close>: a missing file is an empty registry, an unreadable or invalid one an error.\<close>

datatype 'f read_outcome = FileMissing | FileUnreadable | FileContent 'f

definition load_records ::
  "('m, 'f) file_codec \<Rightarrow> 'm \<Rightarrow> 'f read_outcome \<Rightarrow> (persist_error, 'm) result" where
  "load_records c initial outcome =
     (case outcome of
        FileMissing \<Rightarrow> Inr initial
      | FileUnreadable \<Rightarrow> Inl PersistIo
      | FileContent f \<Rightarrow> ok_or PersistJson (of_file c f))"

definition outcome_of :: "'f option \<Rightarrow> 'f read_outcome" where
  "outcome_of file = (case file of None \<Rightarrow> FileMissing | Some f \<Rightarrow> FileContent f)"

section \<open>The contract\<close>

definition synced :: "('m, 'f) file_codec \<Rightarrow> 'm \<Rightarrow> ('m, 'f) registry \<Rightarrow> bool" where
  "synced c initial reg \<longleftrightarrow> load_records c initial (outcome_of (reg_file reg)) = Inr (reg_records reg)"

locale durable_op =
  fixes step :: "('m, 'f) file_codec \<Rightarrow> (nat \<Rightarrow> bool) \<Rightarrow> 'a \<Rightarrow> ('m, 'f) registry \<Rightarrow>
    ('e, 'r) result \<times> ('m, 'f) registry"
  assumes refused: "step c io a reg = (Inl e, reg') \<Longrightarrow> reg' = reg"
    and committed: "step c io a reg = (Inr r, reg') \<Longrightarrow>
      reg' = reg \<or> reg_file reg' \<noteq> None \<and> reg_file reg' = to_file c (reg_records reg')"
begin

lemma step_synced:
  assumes "codec_faithful c" and "synced c initial reg"
  shows "synced c initial (snd (step c io a reg))"
proof (cases "step c io a reg")
  case (Pair res reg')
  show ?thesis
  proof (cases res)
    case (Inl e)
    with Pair have "reg' = reg" using refused by blast
    then show ?thesis using Pair assms(2) by simp
  next
    case (Inr r)
    with Pair have "reg' = reg \<or> reg_file reg' \<noteq> None \<and> reg_file reg' = to_file c (reg_records reg')"
      using committed by blast
    then consider "reg' = reg" | f where "reg_file reg' = Some f" "to_file c (reg_records reg') = Some f"
      by force
    then show ?thesis
      using Pair assms
      by cases (simp_all add: synced_def load_records_def outcome_of_def codec_faithful_def)
  qed
qed

text \<open>After any sequence of operations, failed ones included, a reload finds the published records.\<close>

lemma steps_synced:
  assumes "codec_faithful c" and "synced c initial reg"
  shows "synced c initial (foldl (\<lambda>reg (io, a). snd (step c io a reg)) reg ops)"
  using assms(2)
proof (induction ops arbitrary: reg)
  case (Cons op ops)
  then show ?case
    using step_synced [OF assms(1), of initial reg "fst op" "snd op"] by (cases op) simp
qed simp

end

section \<open>Operations by publishing\<close>

lemma publish_cases:
  "publish c io reg next = (Inl e, reg') \<Longrightarrow> reg' = reg"
  "publish c io reg next = (Inr r, reg') \<Longrightarrow>
     reg_records reg' = next \<and> reg_file reg' \<noteq> None \<and> reg_file reg' = to_file c (reg_records reg')"
  by (auto simp: publish_def persist_records_def split: if_splits option.splits)

lemma publish_fails_or_ok:
  "publish c io reg next = (Inr (), reg\<lparr>reg_records := next, reg_file := to_file c next\<rparr>) \<or>
   (\<exists>e. publish c io reg next = (Inl e, reg))"
  by (auto simp: publish_def persist_records_def split: option.splits)

lemma publish_ok:
  assumes "\<And>n. \<not> io n" and "to_file c next \<noteq> None"
  shows "publish c io reg next = (Inr (), reg\<lparr>reg_records := next, reg_file := to_file c next\<rparr>)"
  using assms by (auto simp: publish_def persist_records_def)

text \<open>
  The shape shared by all operations: refuse on a poisoned lock, compute the next records from the
  current ones (or an answer that needs no write), publish.
\<close>

definition modify ::
  "(persist_error \<Rightarrow> 'e) \<Rightarrow> 'e \<Rightarrow> ('m \<Rightarrow> ('e, 'r + 'm \<times> 'r) result) \<Rightarrow>
   ('m, 'f) file_codec \<Rightarrow> (nat \<Rightarrow> bool) \<Rightarrow> ('m, 'f) registry \<Rightarrow>
   ('e, 'r) result \<times> ('m, 'f) registry" where
  "modify err unavailable change c io reg =
     (if reg_poisoned reg then (Inl unavailable, reg)
      else case change (reg_records reg) of
             Inl e \<Rightarrow> (Inl e, reg)
           | Inr (Inl r) \<Rightarrow> (Inr r, reg)
           | Inr (Inr (next, r)) \<Rightarrow>
               (case publish c io reg next of
                  (Inl e, reg') \<Rightarrow> (Inl (err e), reg')
                | (Inr _, reg') \<Rightarrow> (Inr r, reg')))"

lemma modify_refused: "modify err u change c io reg = (Inl e, reg') \<Longrightarrow> reg' = reg"
  by (auto simp: modify_def split: if_splits sum.splits prod.splits dest: publish_cases)

lemma modify_done:
  "modify err u change c io reg = (Inr r, reg') \<Longrightarrow>
     reg' = reg \<or> reg_file reg' \<noteq> None \<and> reg_file reg' = to_file c (reg_records reg')"
  by (auto simp: modify_def split: if_splits sum.splits prod.splits dest: publish_cases)

lemma modify_durable: "durable_op (\<lambda>c io a reg. modify err u (change a) c io reg)"
  by unfold_locales (fact modify_refused, fact modify_done)

lemma modify_eq_Inr:
  assumes "modify err u change c io reg = (Inr r, reg')"
  shows "\<not> reg_poisoned reg \<and>
    (change (reg_records reg) = Inr (Inl r) \<and> reg' = reg \<or>
     (\<exists>next. change (reg_records reg) = Inr (Inr (next, r)) \<and> reg_records reg' = next \<and>
        reg_file reg' = to_file c next \<and> reg_poisoned reg' = reg_poisoned reg))"
  using assms
  by (auto simp: modify_def publish_def persist_records_def
      split: if_splits sum.splits prod.splits option.splits)

end
