(* ===== verification/Config.thy ===== *)
theory Config
  imports Alert Address_Text Durable
begin

text \<open>
  The operator's configuration of an agent (\<open>apps/agent/src/runtime/config.rs\<close>): where its files are, the
  configuration record with its checks, the changes to the advertised addresses, and the file. The file is
  written with the same steps as the registries (temporary file, permissions, write, sync, rename), so
  \<open>save_config\<close> is \<open>persist_records\<close> of \<open>Durable\<close>. JSON is a file codec; reading certificates and parsing
  relay URLs are the fields of \<open>host_env\<close> of the transport.
\<close>

section \<open>Paths\<close>

record AppPaths =
  ap_config :: string
  ap_data :: string
  ap_state :: string
  ap_log :: string
  ap_local_socket :: string

text \<open>The platform's application directories; the state directory need not exist on every platform.\<close>

record ProjectDirs =
  pd_config_dir :: string
  pd_data_local_dir :: string
  pd_state_dir :: "string option"

definition path_join :: "string \<Rightarrow> string \<Rightarrow> string" where
  "path_join dir name = (if dir = [] \<or> last dir = CHR ''/'' then dir @ name else dir @ ''/'' @ name)"

definition app_paths :: "(string \<Rightarrow> string option) \<Rightarrow> ProjectDirs option \<Rightarrow> (string, AppPaths) result" where
  "app_paths var project =
     (let config_override = var ''RACKIO_CONFIG_DIR'';
          data_override = var ''RACKIO_DATA_DIR'';
          state_override = var ''RACKIO_STATE_DIR''
      in rbind (if config_override = None \<or> data_override = None \<or> state_override = None
                then rbind (ok_or ''OS application directories are unavailable'' project) (\<lambda>d. Inr (Some d))
                else Inr None) (\<lambda>dirs.
         rbind (case config_override of Some path \<Rightarrow> Inr path
                | None \<Rightarrow> map_result pd_config_dir (ok_or ''OS config directory is unavailable'' dirs)) (\<lambda>config_dir.
         rbind (case data_override of Some path \<Rightarrow> Inr path
                | None \<Rightarrow> map_result pd_data_local_dir (ok_or ''OS data directory is unavailable'' dirs)) (\<lambda>data_dir.
         rbind (case state_override of Some path \<Rightarrow> Inr path
                | None \<Rightarrow> map_result (\<lambda>d. override (pd_state_dir d) (pd_data_local_dir d))
                    (ok_or ''OS state directory is unavailable'' dirs)) (\<lambda>state_dir.
           Inr \<lparr>ap_config = config_dir, ap_data = data_dir, ap_state = state_dir,
                ap_log = override (var ''RACKIO_LOG_DIR'') (path_join state_dir ''logs''),
                ap_local_socket = override (var ''RACKIO_SOCKET'') (path_join state_dir ''agent.sock'')\<rparr>)))))"

definition config_path :: "AppPaths \<Rightarrow> string" where
  "config_path paths = path_join (ap_config paths) ''config.json''"

section \<open>The configuration\<close>

record AgentConfig =
  ag_relay_url :: "string option"
  ag_relay_ca_certificate :: "string option"
  ag_alerts_enabled :: bool
  ag_alerts :: "AlertRuleConfig list"
  ag_bind_port :: "u16 option"
  ag_advertise_addresses :: "SocketAddr list"

definition MAX_ADVERTISE_ADDRESSES :: nat where "MAX_ADVERTISE_ADDRESSES = 8"

definition AgentConfig_default :: AgentConfig where
  "AgentConfig_default =
     \<lparr>ag_relay_url = None, ag_relay_ca_certificate = None, ag_alerts_enabled = True, ag_alerts = [],
      ag_bind_port = None, ag_advertise_addresses = []\<rparr>"

datatype ConfigError =
  NotAnAddress string | AdvertisedPortZero | AlreadyAdvertised SocketAddr | TooManyAdvertised
| NotAdvertised SocketAddr | RelayUrlInvalid | RelayCaWithoutRelay | RelayCaRefused RelayCaError
| ListenPortZero | FileAdvertisesTooMany nat | FileAdvertisesPortZero SocketAddr
| FileAdvertisesTwice SocketAddr | AlertRuleRefused string | ConfigFile persist_error

definition parse_advertise_address :: "string \<Rightarrow> (ConfigError, SocketAddr) result" where
  "parse_advertise_address value =
     rbind (ok_or (NotAnAddress value) (parse_socket_addr value)) (\<lambda>address.
       if port address = 0 then Inl AdvertisedPortZero else Inr address)"

definition add_advertise_address ::
  "SocketAddr list \<Rightarrow> SocketAddr \<Rightarrow> (ConfigError, SocketAddr list) result" where
  "add_advertise_address addresses address =
     (if address \<in> set addresses then Inl (AlreadyAdvertised address)
      else if MAX_ADVERTISE_ADDRESSES \<le> length addresses then Inl TooManyAdvertised
      else Inr (addresses @ [address]))"

definition remove_advertise_address ::
  "SocketAddr list \<Rightarrow> SocketAddr \<Rightarrow> (ConfigError, SocketAddr list) result" where
  "remove_advertise_address addresses address =
     (let kept = filter (\<lambda>a. a \<noteq> address) addresses
      in if length kept = length addresses then Inl (NotAdvertised address) else Inr kept)"

definition validate_bind_port :: "u16 option \<Rightarrow> (ConfigError, unit) result" where
  "validate_bind_port bind_port = (if bind_port = Some 0 then Inl ListenPortZero else Inr ())"

definition validate_relay_url ::
  "('cert, 'url) host_env \<Rightarrow> string option \<Rightarrow> (ConfigError, unit) result" where
  "validate_relay_url env relay_url =
     (case relay_url of
        None \<Rightarrow> Inr ()
      | Some value \<Rightarrow> if parse_relay_url env value = None then Inl RelayUrlInvalid else Inr ())"

definition validate_relay_ca ::
  "('cert, 'url) host_env \<Rightarrow> string option \<Rightarrow> string option \<Rightarrow> (ConfigError, unit) result" where
  "validate_relay_ca env relay_url ca_certificate =
     (case ca_certificate of
        None \<Rightarrow> Inr ()
      | Some path \<Rightarrow>
          if relay_url = None then Inl RelayCaWithoutRelay
          else map_err RelayCaRefused (validate_relay_ca_certificate env path))"

text \<open>The loop over the advertised addresses of a file, with the addresses seen so far.\<close>

fun validate_addresses :: "SocketAddr list \<Rightarrow> SocketAddr list \<Rightarrow> (ConfigError, unit) result" where
  "validate_addresses seen [] = Inr ()"
| "validate_addresses seen (address # rest) =
     (if port address = 0 then Inl (FileAdvertisesPortZero address)
      else if address \<in> set seen then Inl (FileAdvertisesTwice address)
      else validate_addresses (address # seen) rest)"

definition validate_config :: "('cert, 'url) host_env \<Rightarrow> AgentConfig \<Rightarrow> (ConfigError, unit) result" where
  "validate_config env config =
     rbind (validate_bind_port (ag_bind_port config)) (\<lambda>_.
     rbind (validate_relay_url env (ag_relay_url config)) (\<lambda>_.
     rbind (validate_relay_ca env (ag_relay_url config) (ag_relay_ca_certificate config)) (\<lambda>_.
       if MAX_ADVERTISE_ADDRESSES < length (ag_advertise_addresses config)
       then Inl (FileAdvertisesTooMany (length (ag_advertise_addresses config)))
       else validate_addresses [] (ag_advertise_addresses config))))"

definition resolved_alert_rules :: "AgentConfig \<Rightarrow> (ConfigError, ResolvedAlertRule list) result" where
  "resolved_alert_rules config = map_err AlertRuleRefused (resolve_alert_rules (ag_alerts config))"

definition alert_rules :: "AgentConfig \<Rightarrow> (ConfigError, AlertRule list) result" where
  "alert_rules config =
     (if \<not> ag_alerts_enabled config then Inr []
      else rbind (resolved_alert_rules config) (\<lambda>entries. Inr (map rr_rule (filter rr_enabled entries))))"

section \<open>The file\<close>

type_synonym 'f config_codec = "(AgentConfig, 'f) file_codec"

definition load_config :: "'f config_codec \<Rightarrow> 'f read_outcome \<Rightarrow> (ConfigError, AgentConfig) result" where
  "load_config c outcome = map_err ConfigFile (load_records c AgentConfig_default outcome)"

definition save_config ::
  "'f config_codec \<Rightarrow> (nat \<Rightarrow> bool) \<Rightarrow> AgentConfig \<Rightarrow> 'f option \<Rightarrow> (ConfigError, unit) result \<times> 'f option" where
  "save_config c io config file =
     (case persist_records c io config file of (res, file') \<Rightarrow> (map_err ConfigFile res, file'))"

text \<open>
  The identity of a node: a text file, written in place on the first start. A failed write may leave a prefix of
  the text behind.
\<close>

datatype write_outcome = Written | NotCreated | Torn nat

datatype NodeIdError = NodeIdIo | NodeIdInvalid

definition load_or_create_node_id ::
  "ids \<Rightarrow> string read_outcome \<Rightarrow> uuid \<Rightarrow> write_outcome \<Rightarrow>
   (NodeIdError, uuid) result \<times> string read_outcome" where
  "load_or_create_node_id ids outcome fresh write =
     (case outcome of
        FileContent value \<Rightarrow> (ok_or NodeIdInvalid (uuid_parse ids (trim_text value)), outcome)
      | FileMissing \<Rightarrow>
          (case write of
             Written \<Rightarrow> (Inr fresh, FileContent (uuid_str ids fresh))
           | NotCreated \<Rightarrow> (Inl NodeIdIo, FileMissing)
           | Torn n \<Rightarrow> (Inl NodeIdIo, FileContent (take n (uuid_str ids fresh))))
      | FileUnreadable \<Rightarrow> (Inl NodeIdIo, outcome))"

section \<open>What the checks accept\<close>

lemma validate_addresses_iff:
  "validate_addresses seen addresses = Inr () \<longleftrightarrow>
     (\<forall>a \<in> set addresses. port a \<noteq> 0) \<and> distinct addresses \<and> set seen \<inter> set addresses = {}"
  by (induction addresses arbitrary: seen) auto

text \<open>A relay that was checked can be used, with its trust anchor if it has one.\<close>

definition relay_usable :: "('cert, 'url) host_env \<Rightarrow> AgentConfig \<Rightarrow> bool" where
  "relay_usable env config \<longleftrightarrow>
     (\<forall>url. ag_relay_url config = Some url \<longrightarrow> parse_relay_url env url \<noteq> None) \<and>
     (\<forall>path. ag_relay_ca_certificate config = Some path \<longrightarrow>
        ag_relay_url config \<noteq> None \<and> (\<exists>roots. relay_ca_tls_config env path = Inr roots))"

definition addresses_usable :: "SocketAddr list \<Rightarrow> bool" where
  "addresses_usable addresses \<longleftrightarrow>
     length addresses \<le> MAX_ADVERTISE_ADDRESSES \<and> distinct addresses \<and> (\<forall>a \<in> set addresses. port a \<noteq> 0)"

lemma validate_bind_port_iff [simp]: "validate_bind_port p = Inr () \<longleftrightarrow> p \<noteq> Some 0"
  by (simp add: validate_bind_port_def)

lemma validate_relay_iff:
  "validate_relay_url env url = Inr () \<and> validate_relay_ca env url ca = Inr () \<longleftrightarrow>
     (\<forall>u. url = Some u \<longrightarrow> parse_relay_url env u \<noteq> None) \<and>
     (\<forall>path. ca = Some path \<longrightarrow> url \<noteq> None \<and> (\<exists>roots. relay_ca_tls_config env path = Inr roots))"
  by (auto simp: validate_relay_url_def validate_relay_ca_def validate_relay_ca_certificate_def rbind_eq_Inr
      split: option.splits)

lemma validate_config_iff:
  "validate_config env config = Inr () \<longleftrightarrow>
     ag_bind_port config \<noteq> Some 0 \<and> relay_usable env config \<and> addresses_usable (ag_advertise_addresses config)"
proof -
  have "validate_config env config = Inr () \<longleftrightarrow> ag_bind_port config \<noteq> Some 0 \<and>
      (validate_relay_url env (ag_relay_url config) = Inr () \<and>
       validate_relay_ca env (ag_relay_url config) (ag_relay_ca_certificate config) = Inr ()) \<and>
      addresses_usable (ag_advertise_addresses config)"
    by (auto simp: validate_config_def rbind_eq_Inr validate_addresses_iff addresses_usable_def
        MAX_ADVERTISE_ADDRESSES_def)
  then show ?thesis unfolding validate_relay_iff relay_usable_def by simp
qed

text \<open>
  The contract of the two changes to the advertised addresses: a usable list stays usable and membership
  changes by the one address.
\<close>

locale address_change =
  fixes change :: "SocketAddr list \<Rightarrow> SocketAddr \<Rightarrow> (ConfigError, SocketAddr list) result"
    and member :: "SocketAddr \<Rightarrow> SocketAddr \<Rightarrow> bool \<Rightarrow> bool"
  assumes keeps_usable: "change addresses a = Inr addresses' \<Longrightarrow> addresses_usable addresses \<Longrightarrow> port a \<noteq> 0 \<Longrightarrow>
      addresses_usable addresses'"
    and membership: "change addresses a = Inr addresses' \<Longrightarrow> b \<in> set addresses' \<longleftrightarrow> member a b (b \<in> set addresses)"
    and order_kept: "change addresses a = Inr addresses' \<Longrightarrow>
      filter (\<lambda>b. b \<noteq> a) addresses' = filter (\<lambda>b. b \<noteq> a) addresses"

interpretation adding: address_change add_advertise_address "\<lambda>a b was. was \<or> b = a"
  by unfold_locales
    (auto simp: add_advertise_address_def addresses_usable_def MAX_ADVERTISE_ADDRESSES_def split: if_splits)

lemma remove_advertise_address_Inr:
  "remove_advertise_address addresses a = Inr kept \<longleftrightarrow>
     a \<in> set addresses \<and> kept = filter (\<lambda>b. b \<noteq> a) addresses"
proof -
  have "length (filter (\<lambda>b. b \<noteq> a) addresses) = length addresses \<longleftrightarrow> a \<notin> set addresses"
    by (metis (mono_tags, lifting) filter_True length_filter_less less_irrefl)
  then show ?thesis by (auto simp: remove_advertise_address_def Let_def)
qed

interpretation removing: address_change remove_advertise_address "\<lambda>a b was. was \<and> b \<noteq> a"
proof
  fix addresses a addresses'
  assume "remove_advertise_address addresses a = Inr addresses'"
  then have kept: "addresses' = filter (\<lambda>b. b \<noteq> a) addresses"
    by (simp add: remove_advertise_address_Inr)
  show "filter (\<lambda>b. b \<noteq> a) addresses' = filter (\<lambda>b. b \<noteq> a) addresses" by (simp add: kept)
  show "b \<in> set addresses' \<longleftrightarrow> b \<in> set addresses \<and> b \<noteq> a" for b by (auto simp: kept)
  assume "addresses_usable addresses"
  then show "addresses_usable addresses'"
    by (auto simp: addresses_usable_def kept intro: le_trans [OF length_filter_le])
qed

lemma parse_advertise_address_port: "parse_advertise_address value = Inr a \<Longrightarrow> port a \<noteq> 0"
  by (auto simp: parse_advertise_address_def rbind_eq_Inr split: if_splits)

section \<open>Saving and loading\<close>

lemma save_config_cases:
  obtains (saved) f where "save_config c io config file = (Inr (), Some f)" "to_file c config = Some f"
  | (refused) e where "save_config c io config file = (Inl e, file)"
proof -
  have "(\<exists>f. save_config c io config file = (Inr (), Some f) \<and> to_file c config = Some f) \<or>
      (\<exists>e. save_config c io config file = (Inl e, file))"
    by (simp add: save_config_def persist_records_def split: option.split)
  then show thesis using that by blast
qed

lemma load_saved:
  assumes "codec_faithful c" and "to_file c config = Some f"
  shows "load_config c (outcome_of (Some f)) = Inr config"
  using assms by (simp add: load_config_def load_records_def outcome_of_def codec_faithful_def)

text \<open>What the daemon asks the transport to bind.\<close>

definition endpoint_config :: "AgentConfig \<Rightarrow> EndpointConfig" where
  "endpoint_config config =
     \<lparr>ec_relay_urls = (case ag_relay_url config of None \<Rightarrow> [] | Some url \<Rightarrow> [url]),
      ec_bind_port = ag_bind_port config, ec_advertise_addresses = ag_advertise_addresses config,
      ec_relay_ca_certificate = ag_relay_ca_certificate config\<rparr>"

lemma validated_config_bound:
  assumes "validate_config env config = Inr ()"
  shows "bind_endpoint env (endpoint_config config) =
    (if bind_ok env (ag_bind_port config) then
       Inr \<lparr>ep_relays = map_option (\<lambda>url. [the (parse_relay_url env url)]) (ag_relay_url config),
            ep_roots = map_option (\<lambda>path. projr (relay_ca_tls_config env path)) (ag_relay_ca_certificate config),
            ep_external = ag_advertise_addresses config, ep_port = ag_bind_port config\<rparr>
     else case ag_bind_port config of None \<Rightarrow> Inl EndpointError | Some p \<Rightarrow> Inl (BindPortUnavailable p))"
proof -
  have port: "ag_bind_port config \<noteq> Some 0" and relay: "relay_usable env config"
    using assms by (simp_all add: validate_config_iff)
  have "relay_transport env (endpoint_config config) =
      Inr (map_option (\<lambda>url. [the (parse_relay_url env url)]) (ag_relay_url config),
           map_option (\<lambda>path. projr (relay_ca_tls_config env path)) (ag_relay_ca_certificate config))"
    using relay
    by (cases "ag_relay_url config"; cases "ag_relay_ca_certificate config")
      (auto simp: relay_usable_def relay_transport_def endpoint_config_def parse_relay_urls_def)
  then show ?thesis
    using port by (auto simp: bind_endpoint_def endpoint_config_def split: option.splits)
qed

text \<open>
  Every configuration the checks accept can be bound. When the file passes \<open>validate\<close>, the endpoint built from
  it is refused for no reason other than the operating system not giving it a socket: its relay, if any, is used with
  exactly the pinned authority as root, without a relay nothing but direct paths is used, the fixed port is the
  one asked for and every advertised address is announced.
\<close>

theorem validated_config_binds:
  assumes "validate_config env config = Inr ()"
  shows "bind_endpoint env (endpoint_config config) =
    (if bind_ok env (ag_bind_port config) then
       Inr \<lparr>ep_relays = map_option (\<lambda>url. [the (parse_relay_url env url)]) (ag_relay_url config),
            ep_roots = map_option (\<lambda>path. projr (relay_ca_tls_config env path)) (ag_relay_ca_certificate config),
            ep_external = ag_advertise_addresses config, ep_port = ag_bind_port config\<rparr>
     else case ag_bind_port config of None \<Rightarrow> Inl EndpointError | Some p \<Rightarrow> Inl (BindPortUnavailable p))"
  by (rule validated_config_bound [OF assms])

text \<open>
  C29. Advertised addresses keep their shape. Whatever texts the operator gives, adding and removing keep the list
  usable (at most eight, distinct, no ephemeral port), change exactly the one address and keep the order of the
  others; adding succeeds exactly for a new address while there is room, removing exactly for a listed one, and a
  text is accepted only when it is numeric, never a host name that would have to be resolved.
\<close>

theorem advertise_commands_exact:
  assumes "addresses_usable addresses" and "parse_advertise_address entered = Inr a"
  shows "port a \<noteq> 0 \<and> (to_digit 10 (hd entered) \<noteq> None \<or> hd entered = CHR ''['') \<and>
    (case add_advertise_address addresses a of
       Inl _ \<Rightarrow> a \<in> set addresses \<or> length addresses = MAX_ADVERTISE_ADDRESSES
     | Inr added \<Rightarrow> addresses_usable added \<and> added = addresses @ [a] \<and>
         remove_advertise_address added a = Inr addresses) \<and>
    (case remove_advertise_address addresses a of
       Inl _ \<Rightarrow> a \<notin> set addresses
     | Inr kept \<Rightarrow> addresses_usable kept \<and> set kept = set addresses - {a} \<and>
         (\<exists>before after. addresses = before @ a # after \<and> kept = before @ after))"
proof -
  have port: "port a \<noteq> 0" by (rule parse_advertise_address_port [OF assms(2)])
  have numeric: "to_digit 10 (hd entered) \<noteq> None \<or> hd entered = CHR ''[''"
    using assms(2) parse_socket_addr_numeric [of entered] by (auto simp: parse_advertise_address_def rbind_eq_Inr)
  have add: "addresses_usable added \<and> added = addresses @ [a] \<and> remove_advertise_address added a = Inr addresses"
    if "add_advertise_address addresses a = Inr added" for added
  proof -
    have "added = addresses @ [a]" "a \<notin> set addresses"
      using that by (auto simp: add_advertise_address_def split: if_splits)
    moreover have "filter (\<lambda>b. b \<noteq> a) addresses = addresses"
      using calculation(2) by (auto intro: filter_True)
    ultimately show ?thesis
      using adding.keeps_usable [OF that assms(1) port] by (simp add: remove_advertise_address_Inr)
  qed
  have rm: "addresses_usable kept \<and> set kept = set addresses - {a} \<and>
      (\<exists>before after. addresses = before @ a # after \<and> kept = before @ after)"
    if r: "remove_advertise_address addresses a = Inr kept" for kept
  proof -
    have kept: "kept = filter (\<lambda>b. b \<noteq> a) addresses" and "a \<in> set addresses"
      using r by (simp_all add: remove_advertise_address_Inr)
    then obtain before after where split: "addresses = before @ a # after" by (auto dest: split_list)
    then have "filter (\<lambda>b. b \<noteq> a) before = before" "filter (\<lambda>b. b \<noteq> a) after = after"
      using assms(1) by (auto simp: addresses_usable_def filter_id_conv)
    then have "filter (\<lambda>b. b \<noteq> a) addresses = before @ after" using split by simp
    then show ?thesis
      using removing.keeps_usable [OF r assms(1) port] removing.membership [OF r] kept split by auto
  qed
  have "a \<in> set addresses \<or> length addresses = MAX_ADVERTISE_ADDRESSES"
    if "add_advertise_address addresses a = Inl e" for e
    using that assms(1) by (auto simp: add_advertise_address_def addresses_usable_def split: if_splits)
  moreover have "a \<notin> set addresses" if "remove_advertise_address addresses a = Inl e" for e
    using that remove_advertise_address_Inr [of addresses a] by auto
  ultimately show ?thesis using port numeric add rm by (simp split: sum.split)
qed

definition witness_config :: AgentConfig where
  "witness_config = AgentConfig_default
     \<lparr>ag_relay_url := Some ''https://relay'', ag_bind_port := Some 41641,
      ag_advertise_addresses := [SocketV4 3325256711 41641]\<rparr>"

theorem validated_config_binds_witness:
  "bind_endpoint witness_host_env (endpoint_config witness_config) =
     Inr \<lparr>ep_relays = Some [''https://relay''], ep_roots = None,
          ep_external = [SocketV4 3325256711 41641], ep_port = Some 41641\<rparr>"
proof -
  have "validate_config witness_host_env witness_config = Inr ()"
    by (simp add: validate_config_iff relay_usable_def addresses_usable_def witness_config_def
        AgentConfig_default_def witness_host_env_def MAX_ADVERTISE_ADDRESSES_def)
  then show ?thesis
    using validated_config_binds [of witness_host_env witness_config]
    by (simp add: witness_config_def AgentConfig_default_def witness_host_env_def)
qed

theorem advertise_commands_exact_witness:
  "parse_advertise_address ''198.51.100.7:41641'' = Inr (SocketV4 3325256711 41641) \<and>
   add_advertise_address [] (SocketV4 3325256711 41641) = Inr [SocketV4 3325256711 41641] \<and>
   remove_advertise_address [SocketV4 3325256711 41641] (SocketV4 3325256711 41641) = Inr []"
proof -
  have "show_nat 198 = ''198''" "show_nat 51 = ''51''" "show_nat 100 = ''100''" "show_nat 7 = ''7''"
    "show_nat 41641 = ''41641''"
    by code_simp+
  then have "show_socket_v4 3325256711 41641 = ''198.51.100.7:41641''"
    by (simp add: show_socket_v4_def)
  then have parsed: "parse_advertise_address ''198.51.100.7:41641'' = Inr (SocketV4 3325256711 41641)"
    using parse_show_socket_v4 [of 3325256711 41641] by (simp add: parse_advertise_address_def)
  have "add_advertise_address [] (SocketV4 3325256711 41641) = Inr [SocketV4 3325256711 41641]"
    by (simp add: add_advertise_address_def MAX_ADVERTISE_ADDRESSES_def)
  then show ?thesis
    using advertise_commands_exact [OF _ parsed, of "[]"] parsed by (simp add: addresses_usable_def)
qed

text \<open>
  What an operator configured is what the next start finds. A save that reports success is read back as the same
  configuration, one that reports a failure at any of its steps leaves the file as it was, and a machine keeps
  the identity it was first given for every later start.
\<close>

theorem configuration_survives_restart:
  assumes "codec_faithful c" and "ids_faithful ids" and "\<forall>u. \<forall>ch \<in> set (uuid_str ids u). \<not> blank ch"
  shows "(case save_config c io config stored of
      (Inl _, stored') \<Rightarrow> stored' = stored
    | (Inr _, stored') \<Rightarrow> load_config c (outcome_of stored') = Inr config) \<and>
    load_config c (outcome_of None) = Inr AgentConfig_default \<and>
    (case load_or_create_node_id ids outcome fresh attempt of
      (Inl _, outcome') \<Rightarrow> outcome \<noteq> FileMissing \<longrightarrow> outcome' = outcome
    | (Inr node_id, outcome') \<Rightarrow>
        load_or_create_node_id ids outcome' fresh' later = (Inr node_id, outcome'))"
proof -
  have node: "uuid_parse ids (trim_text (uuid_str ids u)) = Some u" for u
    using assms(2,3) trim_text_id [of "uuid_str ids u"] by (simp add: ids_faithful_def)
  have "case save_config c io config stored of
      (Inl _, stored') \<Rightarrow> stored' = stored
    | (Inr _, stored') \<Rightarrow> load_config c (outcome_of stored') = Inr config"
    by (rule save_config_cases [of c io config stored]) (use load_saved [OF assms(1)] in auto)
  moreover have "case load_or_create_node_id ids outcome fresh attempt of
      (Inl _, outcome') \<Rightarrow> outcome \<noteq> FileMissing \<longrightarrow> outcome' = outcome
    | (Inr node_id, outcome') \<Rightarrow>
        load_or_create_node_id ids outcome' fresh' later = (Inr node_id, outcome')"
    by (auto simp: load_or_create_node_id_def node
        split: read_outcome.splits write_outcome.splits option.splits prod.splits sum.splits)
  ultimately show ?thesis
    by (simp add: load_config_def load_records_def outcome_of_def)
qed

definition plain_config :: "AgentConfig config_codec" where
  "plain_config = \<lparr>to_file = Some, of_file = Some\<rparr>"

lemma plain_config_faithful: "codec_faithful plain_config"
  by (simp add: codec_faithful_def plain_config_def)

theorem configuration_survives_restart_witness:
  "load_config plain_config (outcome_of (snd (save_config plain_config (\<lambda>_. False) witness_config None))) =
     Inr witness_config \<and>
   snd (save_config plain_config (\<lambda>n. n = 5) witness_config (Some AgentConfig_default)) = Some AgentConfig_default \<and>
   fst (load_or_create_node_id bit_ids (snd (load_or_create_node_id bit_ids FileMissing 77 Written)) 5 NotCreated) = Inr 77"
proof -
  have clean: "\<forall>u. \<forall>ch \<in> set (uuid_str bit_ids u). \<not> blank ch"
    by (auto simp: bit_ids_def blank_def)
  note use = configuration_survives_restart [OF plain_config_faithful bit_ids_faithful clean]
  have "save_config plain_config (\<lambda>_. False) witness_config None = (Inr (), Some witness_config)"
    "save_config plain_config (\<lambda>n. n = 5) witness_config (Some AgentConfig_default) =
       (Inl (ConfigFile PersistIo), Some AgentConfig_default)"
    by (simp_all add: save_config_def persist_records_def plain_config_def)
  moreover have "load_or_create_node_id bit_ids FileMissing 77 Written = (Inr 77, FileContent (uuid_str bit_ids 77))"
    by (simp add: load_or_create_node_id_def)
  ultimately show ?thesis
    using use [where io = "\<lambda>_. False" and config = witness_config and stored = None and outcome = FileMissing and
        fresh = 77 and attempt = Written and fresh' = 5 and later = NotCreated]
      use [where io = "\<lambda>n. n = 5" and config = witness_config and stored = "Some AgentConfig_default"]
    by simp
qed

section \<open>Starting the daemon\<close>

text \<open>What \<open>run_daemon\<close> of \<open>runtime.rs\<close> requires of the file before it serves anything.\<close>

definition load_validated_config ::
  "('cert, 'url) host_env \<Rightarrow> 'f config_codec \<Rightarrow> 'f read_outcome \<Rightarrow> (ConfigError, AgentConfig) result" where
  "load_validated_config env c outcome =
     rbind (load_config c outcome) (\<lambda>config. rbind (validate_config env config) (\<lambda>_. Inr config))"

definition load_alert_rules :: "AgentConfig \<Rightarrow> (ConfigError, AlertRule list) result" where
  "load_alert_rules config = alert_rules config"

definition listen_port_label :: "u16 option \<Rightarrow> string" where
  "listen_port_label bind_port = (case bind_port of None \<Rightarrow> ''ephemeral'' | Some p \<Rightarrow> show_nat (unat p))"

lemma load_validated_config_Inr:
  "load_validated_config env c outcome = Inr config \<longleftrightarrow>
     load_config c outcome = Inr config \<and> validate_config env config = Inr ()"
  by (auto simp: load_validated_config_def rbind_eq_Inr)

section \<open>One rule at a time\<close>

text \<open>The resolved entry of a rule depends on the shipped rule and the changes of that id alone.\<close>

lemma update_first_filter:
  assumes "update_first p f xs = Some ys" and "\<forall>x. q (f x) = q x" and "\<forall>x. p x \<longrightarrow> q x"
  shows "update_first p f (filter q xs) = Some (filter q ys)"
proof -
  obtain us v vs where split: "xs = us @ v # vs" "list_all (\<lambda>u. \<not> p u) us" "p v" "ys = us @ f v # vs"
    using update_first_split [OF assms(1)] by blast
  have "update_first p f (ws @ v # zs) = Some (ws @ f v # zs)" if "list_all (\<lambda>u. \<not> p u) ws" for ws zs
    using that split(3) by (induction ws) auto
  moreover have "list_all (\<lambda>u. \<not> p u) (filter q us)" using split(2) by (auto simp: list_all_iff)
  ultimately show ?thesis using split assms(2,3) by auto
qed

lemma apply_change_same:
  assumes "apply_change rs c = Inr rs'"
  shows "apply_change (filter (\<lambda>e. entry_id e = rc_id c) rs) c = Inr (filter (\<lambda>e. entry_id e = rc_id c) rs')"
proof (cases "update_first (\<lambda>known. entry_id known = rc_id c) (override_entry c) rs")
  case None
  then have "\<forall>e \<in> set rs. entry_id e \<noteq> rc_id c" by (auto simp: update_first_None list_ex_iff)
  then have "filter (\<lambda>e. entry_id e = rc_id c) rs = []" by (simp add: filter_empty_conv)
  then show ?thesis using assms None by (auto simp: apply_change_def rbind_eq_Inr dest: new_rule_id)
next
  case (Some ys)
  then have "update_first (\<lambda>known. entry_id known = rc_id c) (override_entry c)
      (filter (\<lambda>e. entry_id e = rc_id c) rs) = Some (filter (\<lambda>e. entry_id e = rc_id c) ys)"
    by (rule update_first_filter) simp_all
  then show ?thesis using assms Some by (auto simp: apply_change_def)
qed

lemma apply_changes_same:
  assumes "apply_changes rs cs = Inr rs'"
  shows "apply_changes (filter (\<lambda>e. entry_id e = rid) rs) (filter (\<lambda>c. rc_id c = rid) cs) =
    Inr (filter (\<lambda>e. entry_id e = rid) rs')"
  using assms
proof (induction cs arbitrary: rs)
  case (Cons c cs)
  then obtain mid where mid: "apply_change rs c = Inr mid" "apply_changes mid cs = Inr rs'"
    by (auto simp: rbind_eq_Inr)
  then show ?case
    using Cons.IH [OF mid(2)] apply_change_same [OF mid(1)] apply_change_other [OF mid(1)] by auto
qed simp

lemma resolve_depends_on_id:
  assumes "resolve_alert_rules cs = Inr rs" and "resolve_alert_rules cs' = Inr rs'"
    and "filter (\<lambda>c. rc_id c = rid) cs = filter (\<lambda>c. rc_id c = rid) cs'"
  shows "filter (\<lambda>e. entry_id e = rid) rs = filter (\<lambda>e. entry_id e = rid) rs'"
  using assms apply_changes_same [of shipped_rules cs rs rid] apply_changes_same [of shipped_rules cs' rs' rid]
  by (simp add: resolve_eq_Inr)

end
