(* ===== verification/Storage.thy ===== *)
theory Storage
  imports Model
begin

text \<open>
  The metric store (\<open>crates/rackio-core/src/storage.rs\<close>). The two SQLite tables are key-sorted
  association lists and every SQL statement of the source is a function on them. Statement
  failures and pragma readings are an environment indexed by the number of statements executed so
  far in the call: a failing statement returns early, and inside a transaction the tables are then
  unchanged. The serde codec of a sample is a parameter \<open>codec\<close> over an abstract type of texts.

  SQLite facts the model writes out: a bound NaN is stored as NULL and a negative zero in a REAL
  column as zero; an integer sum that leaves the 64-bit range becomes a REAL, so that reading it
  back as an integer fails. Integer columns therefore hold exact integers here and the read checks
  the range: the addends are not negative, so a sum that left the range stays outside.
\<close>

section \<open>Constants, tables and environment\<close>

definition RAW_RETENTION_MS :: int where "RAW_RETENTION_MS = 24 * 60 * 60 * 1000"
definition MINUTE_RETENTION_MS :: int where "MINUTE_RETENTION_MS = 7 * 24 * 60 * 60 * 1000"
definition MINUTE_MS :: int where "MINUTE_MS = 60 * 1000"
definition SIZE_CAP_BYTES :: int where "SIZE_CAP_BYTES = 64 * 1024 * 1024"
definition SAMPLE_INTERVAL_MS :: int where "SAMPLE_INTERVAL_MS = 2000"
definition MAX_QUERY_ROWS :: nat where "MAX_QUERY_ROWS = 24 * 60 * 60 * 1000 div 2000"

datatype HistoryResolution = Raw | Minute

datatype StoreError = Sqlite | Json

record 'j codec =
  to_json :: "MetricSample \<Rightarrow> 'j option"
  from_json :: "'j \<Rightarrow> MetricSample option"

record sqlite_env =
  fails :: "nat \<Rightarrow> bool"
  pragma :: "nat \<Rightarrow> int"

record 'j MinuteRow =
  mr_sample_count :: int
  mr_cpu_count :: int
  mr_cpu_sum :: "fl option"
  mr_memory_used_count :: int
  mr_memory_used_sum :: "int option"
  mr_rx_count :: int
  mr_rx_sum :: "int option"
  mr_tx_count :: int
  mr_tx_sum :: "int option"
  mr_disk_count :: int
  mr_disk_used_sum :: "int option"
  mr_disk_total_sum :: "int option"
  mr_temp_count :: int
  mr_temp_sum :: "fl option"
  mr_swap_count :: int
  mr_swap_used_sum :: "int option"
  mr_swap_total_sum :: "int option"
  mr_last_sample_json :: 'j

record 'j MetricStore =
  metric_samples :: "(i64, 'j) btree"
  minute_metrics :: "(i64, 'j MinuteRow) btree"
  size_cap_bytes :: i64

definition MetricStore_new :: "'j MetricStore" where
  "MetricStore_new = \<lparr>metric_samples = [], minute_metrics = [], size_cap_bytes = SIZE_CAP_BYTES\<rparr>"

section \<open>Inserting\<close>

text \<open>The parameters of the aggregate statement, one per metric.\<close>

definition minute_of :: "MetricSample \<Rightarrow> i64" where
  "minute_of sample = i64_wrap (ms_timestamp_ms sample div MINUTE_MS * MINUTE_MS)"

fun sqlite_real :: "fl option \<Rightarrow> fl option" where
  "sqlite_real None = None"
| "sqlite_real (Some NaN) = None"
| "sqlite_real (Some NegZero) = Some (Fin 0)"
| "sqlite_real (Some x) = Some x"

definition cpu_param :: "MetricSample \<Rightarrow> fl option" where
  "cpu_param sample = sqlite_real (map_option f64_from_f32 (ms_cpu_percent sample))"

definition memory_param :: "MetricSample \<Rightarrow> int option" where
  "memory_param sample = Option.bind (ms_memory_used_bytes sample) i64_try_from_u64"

definition rx_param :: "MetricSample \<Rightarrow> int option" where
  "rx_param sample =
     Option.bind (ms_network sample) (\<lambda>n. i64_try_from_u64 (nm_received_bytes_per_second n))"

definition tx_param :: "MetricSample \<Rightarrow> int option" where
  "tx_param sample =
     Option.bind (ms_network sample) (\<lambda>n. i64_try_from_u64 (nm_sent_bytes_per_second n))"

definition try_pair :: "u64 \<Rightarrow> u64 \<Rightarrow> (int \<times> int) option" where
  "try_pair used tot =
     Option.bind (i64_try_from_u64 used) (\<lambda>u. Option.bind (i64_try_from_u64 tot) (\<lambda>t. Some (u, t)))"

definition disk_param :: "MetricSample \<Rightarrow> (int \<times> int) option" where
  "disk_param sample =
     Option.bind (worst_disk sample) (\<lambda>disk. try_pair (dm_used_bytes disk) (dm_total_bytes disk))"

definition temp_param :: "MetricSample \<Rightarrow> fl option" where
  "temp_param sample = sqlite_real (map_option (\<lambda>t. f64_from_f32 (tm_celsius t)) (ms_temperature sample))"

definition swap_param :: "MetricSample \<Rightarrow> (int \<times> int) option" where
  "swap_param sample =
     (case (ms_swap_used_bytes sample, ms_swap_total_bytes sample) of
        (Some used, Some tot) \<Rightarrow> try_pair used tot
      | _ \<Rightarrow> None)"

text \<open>\<open>CASE WHEN ?n IS NULL THEN 0 ELSE 1 END\<close>.\<close>

definition not_null :: "'a option \<Rightarrow> int" where
  "not_null x = (if x = None then 0 else 1)"

definition minute_values :: "MetricSample \<Rightarrow> 'j \<Rightarrow> 'j MinuteRow" where
  "minute_values sample json =
     \<lparr>mr_sample_count = 1,
      mr_cpu_count = not_null (cpu_param sample), mr_cpu_sum = cpu_param sample,
      mr_memory_used_count = not_null (memory_param sample),
      mr_memory_used_sum = memory_param sample,
      mr_rx_count = not_null (rx_param sample), mr_rx_sum = rx_param sample,
      mr_tx_count = not_null (tx_param sample), mr_tx_sum = tx_param sample,
      mr_disk_count = not_null (map_option fst (disk_param sample)),
      mr_disk_used_sum = map_option fst (disk_param sample),
      mr_disk_total_sum = map_option snd (disk_param sample),
      mr_temp_count = not_null (temp_param sample), mr_temp_sum = temp_param sample,
      mr_swap_count = not_null (map_option fst (swap_param sample)),
      mr_swap_used_sum = map_option fst (swap_param sample),
      mr_swap_total_sum = map_option snd (swap_param sample),
      mr_last_sample_json = json\<rparr>"

text \<open>\<open>COALESCE(a, 0) + COALESCE(b, 0)\<close> on an INTEGER and on a REAL column.\<close>

definition coalesce :: "'a \<Rightarrow> 'a option \<Rightarrow> 'a" where
  "coalesce d x = (case x of None \<Rightarrow> d | Some v \<Rightarrow> v)"

definition add_int :: "int option \<Rightarrow> int option \<Rightarrow> int option" where
  "add_int a b = Some (coalesce 0 a + coalesce 0 b)"

definition add_real :: "fl option \<Rightarrow> fl option \<Rightarrow> fl option" where
  "add_real a b = sqlite_real (Some (fl_add f64_fmt (coalesce (Fin 0) a) (coalesce (Fin 0) b)))"

definition minute_update :: "'j MinuteRow \<Rightarrow> 'j MinuteRow \<Rightarrow> 'j MinuteRow" where
  "minute_update row excluded =
     \<lparr>mr_sample_count = mr_sample_count row + 1,
      mr_cpu_count = mr_cpu_count row + mr_cpu_count excluded,
      mr_cpu_sum = add_real (mr_cpu_sum row) (mr_cpu_sum excluded),
      mr_memory_used_count = mr_memory_used_count row + mr_memory_used_count excluded,
      mr_memory_used_sum = add_int (mr_memory_used_sum row) (mr_memory_used_sum excluded),
      mr_rx_count = mr_rx_count row + mr_rx_count excluded,
      mr_rx_sum = add_int (mr_rx_sum row) (mr_rx_sum excluded),
      mr_tx_count = mr_tx_count row + mr_tx_count excluded,
      mr_tx_sum = add_int (mr_tx_sum row) (mr_tx_sum excluded),
      mr_disk_count = mr_disk_count row + mr_disk_count excluded,
      mr_disk_used_sum = add_int (mr_disk_used_sum row) (mr_disk_used_sum excluded),
      mr_disk_total_sum = add_int (mr_disk_total_sum row) (mr_disk_total_sum excluded),
      mr_temp_count = mr_temp_count row + mr_temp_count excluded,
      mr_temp_sum = add_real (mr_temp_sum row) (mr_temp_sum excluded),
      mr_swap_count = mr_swap_count row + mr_swap_count excluded,
      mr_swap_used_sum = add_int (mr_swap_used_sum row) (mr_swap_used_sum excluded),
      mr_swap_total_sum = add_int (mr_swap_total_sum row) (mr_swap_total_sum excluded),
      mr_last_sample_json = mr_last_sample_json excluded\<rparr>"

definition upsert_minute :: "MetricSample \<Rightarrow> 'j \<Rightarrow> 'j MetricStore \<Rightarrow> 'j MetricStore" where
  "upsert_minute sample json st =
     (let values = minute_values sample json;
          row = (case bt_get (minute_metrics st) (minute_of sample) of
                   None \<Rightarrow> values
                 | Some old \<Rightarrow> minute_update old values)
      in st\<lparr>minute_metrics := bt_insert (minute_of sample) row (minute_metrics st)\<rparr>)"

text \<open>
  The body of the loop in \<open>insert_batch\<close> for one sample: the next statement number and the
  tables of the open transaction, or the error that rolls it back.
\<close>

definition insert_sample ::
  "sqlite_env \<Rightarrow> 'j codec \<Rightarrow> nat \<Rightarrow> 'j MetricStore \<Rightarrow> MetricSample \<Rightarrow>
   (StoreError, nat \<times> 'j MetricStore) result" where
  "insert_sample env codec n st sample =
     (case to_json codec sample of
        None \<Rightarrow> Inl Json
      | Some json \<Rightarrow>
          if fails env n then Inl Sqlite
          else if bt_get (metric_samples st) (ms_timestamp_ms sample) \<noteq> None then Inr (n + 1, st)
          else
            let st' = st\<lparr>metric_samples := bt_insert (ms_timestamp_ms sample) json (metric_samples st)\<rparr>
            in if fails env (n + 1) then Inl Sqlite
               else Inr (n + 2, upsert_minute sample json st'))"

fun insert_samples ::
  "sqlite_env \<Rightarrow> 'j codec \<Rightarrow> nat \<Rightarrow> 'j MetricStore \<Rightarrow> MetricSample list \<Rightarrow>
   (StoreError, nat \<times> 'j MetricStore) result" where
  "insert_samples env codec n st [] = Inr (n, st)"
| "insert_samples env codec n st (sample # rest) =
     rbind (insert_sample env codec n st sample) (\<lambda>(m, st'). insert_samples env codec m st' rest)"

definition insert_batch ::
  "sqlite_env \<Rightarrow> 'j codec \<Rightarrow> 'j MetricStore \<Rightarrow> MetricSample list \<Rightarrow>
   (StoreError, unit) result \<times> 'j MetricStore" where
  "insert_batch env codec st samples =
     (if fails env 0 then (Inl Sqlite, st)
      else case insert_samples env codec 1 st samples of
             Inl e \<Rightarrow> (Inl e, st)
           | Inr (n, st') \<Rightarrow> if fails env n then (Inl Sqlite, st) else (Inr (), st'))"

section \<open>Querying\<close>

text \<open>\<open>SELECT ... WHERE key BETWEEN from AND to ORDER BY key LIMIT limit\<close>.\<close>

definition select_range :: "i64 \<Rightarrow> i64 \<Rightarrow> nat \<Rightarrow> (i64, 'r) btree \<Rightarrow> (i64, 'r) btree" where
  "select_range from_ms to_ms limit table =
     take (min limit (nat i64_max)) (filter (\<lambda>(k, _). from_ms \<le> k \<and> k \<le> to_ms) table)"

text \<open>Stepping through the rows of a statement: the i-th row may fail to be read.\<close>

fun query_rows ::
  "sqlite_env \<Rightarrow> nat \<Rightarrow> ('r \<Rightarrow> (StoreError, MetricSample) result) \<Rightarrow> 'r list \<Rightarrow>
   (StoreError, MetricSample list) result" where
  "query_rows env n f [] = Inr []"
| "query_rows env n f (row # rows) =
     (if fails env n then Inl Sqlite
      else rbind (f row) (\<lambda>s. rbind (query_rows env (n + 1) f rows) (\<lambda>ss. Inr (s # ss))))"

definition query_raw ::
  "sqlite_env \<Rightarrow> 'j codec \<Rightarrow> 'j MetricStore \<Rightarrow> i64 \<Rightarrow> i64 \<Rightarrow> nat \<Rightarrow>
   (StoreError, MetricSample list) result" where
  "query_raw env codec st from_ms to_ms limit =
     (if fails env 0 then Inl Sqlite
      else query_rows env 1 (\<lambda>(_, json). ok_or Json (from_json codec json))
        (select_range from_ms to_ms limit (metric_samples st)))"

definition average_f64 :: "fl option \<Rightarrow> int \<Rightarrow> fl option" where
  "average_f64 acc cnt =
     (if 0 \<le> cnt \<and> cnt \<le> int u32_max then
        if 0 < cnt then map_option (\<lambda>value. fl_div f64_fmt value (Fin (of_int cnt))) acc else None
      else None)"

text \<open>\<open>value / count\<close> truncates towards zero.\<close>

definition average_i64 :: "int option \<Rightarrow> int \<Rightarrow> u64 option" where
  "average_i64 acc cnt =
     (if 0 < cnt then
        Option.bind acc (\<lambda>value. u64_try_from_i64 (sgn value * (\<bar>value\<bar> div cnt)))
      else None)"

definition f64_to_f32 :: "fl \<Rightarrow> fl" where
  "f64_to_f32 value = fl_round f32_fmt value"

definition unwrap_or_default :: "u64 option \<Rightarrow> u64" where
  "unwrap_or_default x = (case x of None \<Rightarrow> 0 | Some v \<Rightarrow> v)"

definition minute_average_label :: string where
  "minute_average_label = ''(minute average)''"

text \<open>\<open>row.get::<_, Option<i64>>\<close> succeeds only for a sum that is still an integer.\<close>

definition readable_sums :: "'j MinuteRow \<Rightarrow> bool" where
  "readable_sums row \<longleftrightarrow>
     list_all (\<lambda>acc. case acc of None \<Rightarrow> True | Some v \<Rightarrow> in_i64 v)
       [mr_memory_used_sum row, mr_rx_sum row, mr_tx_sum row, mr_disk_used_sum row,
        mr_disk_total_sum row, mr_swap_used_sum row, mr_swap_total_sum row]"

definition minute_sample ::
  "'j codec \<Rightarrow> i64 \<times> 'j MinuteRow \<Rightarrow> (StoreError, MetricSample) result" where
  "minute_sample codec entry =
     (let (timestamp_ms, row) = entry in
      if \<not> readable_sums row then Inl Sqlite
      else rbind (ok_or Json (from_json codec (mr_last_sample_json row))) (\<lambda>sample.
        Inr (sample
          \<lparr>ms_timestamp_ms := timestamp_ms,
           ms_cpu_percent := map_option f64_to_f32 (average_f64 (mr_cpu_sum row) (mr_cpu_count row)),
           ms_memory_used_bytes := average_i64 (mr_memory_used_sum row) (mr_memory_used_count row),
           ms_network :=
             (if 0 < mr_rx_count row \<or> 0 < mr_tx_count row then
                Some \<lparr>nm_received_bytes_per_second =
                        unwrap_or_default (average_i64 (mr_rx_sum row) (mr_rx_count row)),
                      nm_sent_bytes_per_second =
                        unwrap_or_default (average_i64 (mr_tx_sum row) (mr_tx_count row))\<rparr>
              else None),
           ms_disks :=
             (if 0 < mr_disk_count row then
                [\<lparr>dm_mount = minute_average_label,
                  dm_total_bytes =
                    unwrap_or_default (average_i64 (mr_disk_total_sum row) (mr_disk_count row)),
                  dm_used_bytes =
                    unwrap_or_default (average_i64 (mr_disk_used_sum row) (mr_disk_count row))\<rparr>]
              else []),
           ms_swap_used_bytes := average_i64 (mr_swap_used_sum row) (mr_swap_count row),
           ms_swap_total_bytes := average_i64 (mr_swap_total_sum row) (mr_swap_count row),
           ms_temperature :=
             map_option (\<lambda>celsius.
               \<lparr>tm_label = minute_average_label, tm_celsius = f64_to_f32 celsius,
                tm_critical_celsius = None, tm_sensor_count = 0\<rparr>)
               (average_f64 (mr_temp_sum row) (mr_temp_count row))\<rparr>)))"

definition query_minute ::
  "sqlite_env \<Rightarrow> 'j codec \<Rightarrow> 'j MetricStore \<Rightarrow> i64 \<Rightarrow> i64 \<Rightarrow> nat \<Rightarrow>
   (StoreError, MetricSample list) result" where
  "query_minute env codec st from_ms to_ms limit =
     (if fails env 0 then Inl Sqlite
      else query_rows env 1 (minute_sample codec)
        (select_range from_ms to_ms limit (minute_metrics st)))"

definition query_page ::
  "sqlite_env \<Rightarrow> 'j codec \<Rightarrow> 'j MetricStore \<Rightarrow> i64 \<Rightarrow> i64 \<Rightarrow> HistoryResolution \<Rightarrow> nat \<Rightarrow>
   (StoreError, MetricSample list) result" where
  "query_page env codec st from_ms to_ms resolution limit =
     (case resolution of
        Raw \<Rightarrow> query_raw env codec st from_ms to_ms limit
      | Minute \<Rightarrow> query_minute env codec st from_ms to_ms limit)"

definition query ::
  "sqlite_env \<Rightarrow> 'j codec \<Rightarrow> 'j MetricStore \<Rightarrow> i64 \<Rightarrow> i64 \<Rightarrow> HistoryResolution \<Rightarrow>
   (StoreError, MetricSample list) result" where
  "query env codec st from_ms to_ms resolution =
     query_page env codec st from_ms to_ms resolution MAX_QUERY_ROWS"

definition latest ::
  "sqlite_env \<Rightarrow> 'j codec \<Rightarrow> 'j MetricStore \<Rightarrow> (StoreError, MetricSample option) result" where
  "latest env codec st =
     (if fails env 0 then Inl Sqlite
      else case rev (metric_samples st) of
             [] \<Rightarrow> Inr None
           | (_, json) # _ \<Rightarrow> rbind (ok_or Json (from_json codec json)) (\<lambda>s. Inr (Some s)))"

section \<open>Retention\<close>

definition database_allocated_size_bytes :: "sqlite_env \<Rightarrow> nat \<Rightarrow> (StoreError, i64) result" where
  "database_allocated_size_bytes env n =
     (if fails env n \<or> fails env (n + 1) then Inl Sqlite
      else Inr (i64_saturating_mul (pragma env n) (pragma env (n + 1))))"

definition database_live_size_bytes :: "sqlite_env \<Rightarrow> nat \<Rightarrow> (StoreError, i64) result" where
  "database_live_size_bytes env n =
     rbind (database_allocated_size_bytes env n) (\<lambda>allocated.
       if fails env (n + 2) \<or> fails env (n + 3) then Inl Sqlite
       else Inr (i64_saturating_sub allocated
              (i64_saturating_mul (pragma env (n + 2)) (pragma env (n + 3)))))"

text \<open>
  The loop of \<open>enforce_size_cap_bytes\<close>. Its deletions are not inside a transaction, so the tables
  it reaches are returned also with an error.
\<close>

function size_cap_loop ::
  "sqlite_env \<Rightarrow> i64 \<Rightarrow> nat \<Rightarrow> 'j MetricStore \<Rightarrow> bool \<Rightarrow>
   (StoreError, nat \<times> bool) result \<times> 'j MetricStore" where
  "size_cap_loop env cap n st deleted_any =
     (case database_live_size_bytes env n of
        Inl e \<Rightarrow> (Inl e, st)
      | Inr live \<Rightarrow>
          if live \<le> cap then (Inr (n + 4, deleted_any), st)
          else if fails env (n + 4) then (Inl Sqlite, st)
          else if metric_samples st \<noteq> [] then
            size_cap_loop env cap (n + 5)
              (st\<lparr>metric_samples := drop 1000 (metric_samples st)\<rparr>) True
          else if fails env (n + 5) then (Inl Sqlite, st)
          else if minute_metrics st \<noteq> [] then
            size_cap_loop env cap (n + 6)
              (st\<lparr>minute_metrics := drop 1000 (minute_metrics st)\<rparr>) True
          else (Inr (n + 6, deleted_any), st))"
  by pat_completeness auto

termination size_cap_loop
  by (relation "measure (\<lambda>(env, cap, n, st, d). length (metric_samples st) + length (minute_metrics st))")
    auto

declare size_cap_loop.simps [simp del]

definition enforce_size_cap_bytes ::
  "sqlite_env \<Rightarrow> nat \<Rightarrow> 'j MetricStore \<Rightarrow> i64 \<Rightarrow> (StoreError, unit) result \<times> 'j MetricStore" where
  "enforce_size_cap_bytes env n st cap =
     (case size_cap_loop env cap n st False of
        (Inl e, st') \<Rightarrow> (Inl e, st')
      | (Inr (m, deleted_any), st') \<Rightarrow>
          if deleted_any then ((if fails env m then Inl Sqlite else Inr ()), st')
          else case database_allocated_size_bytes env m of
                 Inl e \<Rightarrow> (Inl e, st')
               | Inr allocated \<Rightarrow>
                   ((if cap < allocated \<and> fails env (m + 2) then Inl Sqlite else Inr ()), st'))"

definition delete_before :: "i64 \<Rightarrow> (i64, 'r) btree \<Rightarrow> (i64, 'r) btree" where
  "delete_before limit table = filter (\<lambda>(k, _). \<not> k < limit) table"

definition prune ::
  "sqlite_env \<Rightarrow> 'j MetricStore \<Rightarrow> i64 \<Rightarrow> (StoreError, unit) result \<times> 'j MetricStore" where
  "prune env st now =
     (if fails env 0 \<or> fails env 1 \<or> fails env 2 \<or> fails env 3 then (Inl Sqlite, st)
      else
        enforce_size_cap_bytes env 4
          (st\<lparr>metric_samples := delete_before (i64_wrap (now - RAW_RETENTION_MS)) (metric_samples st),
              minute_metrics := delete_before (i64_wrap (now - MINUTE_RETENTION_MS)) (minute_metrics st)\<rparr>)
          (size_cap_bytes st))"

section \<open>Schema migration\<close>

text \<open>\<open>migrate_minute_metrics_columns\<close>: the columns of the table after the migration, in order.\<close>

definition REQUIRED_COLUMNS :: "(string \<times> string) list" where
  "REQUIRED_COLUMNS =
     [(''disk_count'', ''INTEGER NOT NULL DEFAULT 0''), (''disk_used_sum'', ''INTEGER''),
      (''disk_total_sum'', ''INTEGER''), (''temp_count'', ''INTEGER NOT NULL DEFAULT 0''),
      (''temp_sum'', ''REAL''), (''swap_count'', ''INTEGER NOT NULL DEFAULT 0''),
      (''swap_used_sum'', ''INTEGER''), (''swap_total_sum'', ''INTEGER'')]"

text \<open>The check reads the column list once, before the loop; an added column is appended.\<close>

fun add_columns ::
  "sqlite_env \<Rightarrow> nat \<Rightarrow> string list \<Rightarrow> string list \<Rightarrow> (string \<times> string) list \<Rightarrow>
   (StoreError, unit) result \<times> string list" where
  "add_columns env n existing columns [] = (Inr (), columns)"
| "add_columns env n existing columns ((name, def) # rest) =
     (if name \<in> set existing then add_columns env n existing columns rest
      else if fails env n then (Inl Sqlite, columns)
      else add_columns env (n + 1) existing (columns @ [name]) rest)"

definition migrate_minute_metrics_columns ::
  "sqlite_env \<Rightarrow> string list \<Rightarrow> (StoreError, unit) result \<times> string list" where
  "migrate_minute_metrics_columns env columns =
     (if fails env 0 then (Inl Sqlite, columns)
      else add_columns env 1 columns columns REQUIRED_COLUMNS)"

text \<open>
  \<open>from_connection\<close>: two pragmas, the table definitions (which leave an existing table alone), and
  the migration. The columns of \<open>minute_metrics\<close> found in the file are \<open>None\<close> for a new file.
\<close>

definition minute_columns :: "string list" where
  "minute_columns =
     [''minute_ms'', ''sample_count'', ''cpu_count'', ''cpu_sum'', ''memory_used_count'',
      ''memory_used_sum'', ''rx_count'', ''rx_sum'', ''tx_count'', ''tx_sum'', ''disk_count'',
      ''disk_used_sum'', ''disk_total_sum'', ''temp_count'', ''temp_sum'', ''swap_count'',
      ''swap_used_sum'', ''swap_total_sum'', ''last_sample_json'']"

definition from_connection ::
  "sqlite_env \<Rightarrow> string list option \<Rightarrow> 'j MetricStore \<Rightarrow>
   (StoreError, 'j MetricStore) result \<times> string list option" where
  "from_connection env columns st =
     (if fails env 0 \<or> fails env 1 \<or> fails env 2 then (Inl Sqlite, columns)
      else
        let created = (case columns of None \<Rightarrow> minute_columns | Some cs \<Rightarrow> cs);
            (r, migrated) =
              migrate_minute_metrics_columns (env\<lparr>fails := (\<lambda>n. fails env (n + 3))\<rparr>) created
        in (rbind r (\<lambda>_. Inr (st\<lparr>size_cap_bytes := SIZE_CAP_BYTES\<rparr>)), Some migrated))"

lemma add_columns_Inr:
  assumes "add_columns env n existing columns req = (Inr (), out)"
  shows "out = columns @ filter (\<lambda>c. c \<notin> set existing) (map fst req)"
  using assms
  by (induction env n existing columns req rule: add_columns.induct) (auto split: if_splits)

section \<open>What the tables stand for\<close>

text \<open>
  The abstract state of a store that was only inserted into: the samples accepted so far, in
  insertion order. \<open>aggregate\<close> is the specification of a minute row: how many samples carried
  each value, and their sum.
\<close>

definition count_of :: "(MetricSample \<Rightarrow> 'a option) \<Rightarrow> MetricSample list \<Rightarrow> int" where
  "count_of f ss = int (length (filter (\<lambda>s. f s \<noteq> None) ss))"

definition total_of :: "(MetricSample \<Rightarrow> int option) \<Rightarrow> MetricSample list \<Rightarrow> int" where
  "total_of f ss = sum_list (map (\<lambda>s. coalesce 0 (f s)) ss)"

definition isum_of :: "(MetricSample \<Rightarrow> int option) \<Rightarrow> MetricSample list \<Rightarrow> int option" where
  "isum_of f ss = (if length ss = 1 then f (hd ss) else Some (total_of f ss))"

definition rsum_of :: "(MetricSample \<Rightarrow> fl option) \<Rightarrow> MetricSample list \<Rightarrow> fl option" where
  "rsum_of f ss = foldl (\<lambda>acc s. add_real acc (f s)) (f (hd ss)) (tl ss)"

definition aggregate :: "'j codec \<Rightarrow> MetricSample list \<Rightarrow> 'j MinuteRow" where
  "aggregate codec ss =
     \<lparr>mr_sample_count = int (length ss),
      mr_cpu_count = count_of cpu_param ss, mr_cpu_sum = rsum_of cpu_param ss,
      mr_memory_used_count = count_of memory_param ss, mr_memory_used_sum = isum_of memory_param ss,
      mr_rx_count = count_of rx_param ss, mr_rx_sum = isum_of rx_param ss,
      mr_tx_count = count_of tx_param ss, mr_tx_sum = isum_of tx_param ss,
      mr_disk_count = count_of (map_option fst \<circ> disk_param) ss,
      mr_disk_used_sum = isum_of (map_option fst \<circ> disk_param) ss,
      mr_disk_total_sum = isum_of (map_option snd \<circ> disk_param) ss,
      mr_temp_count = count_of temp_param ss, mr_temp_sum = rsum_of temp_param ss,
      mr_swap_count = count_of (map_option fst \<circ> swap_param) ss,
      mr_swap_used_sum = isum_of (map_option fst \<circ> swap_param) ss,
      mr_swap_total_sum = isum_of (map_option snd \<circ> swap_param) ss,
      mr_last_sample_json = the (to_json codec (last ss))\<rparr>"

definition in_minute :: "i64 \<Rightarrow> MetricSample list \<Rightarrow> MetricSample list" where
  "in_minute m ss = filter (\<lambda>s. minute_of s = m) ss"

definition represents :: "'j codec \<Rightarrow> 'j MetricStore \<Rightarrow> MetricSample list \<Rightarrow> bool" where
  "represents codec st hist \<longleftrightarrow>
     bt_ok (metric_samples st) \<and> bt_ok (minute_metrics st) \<and>
     distinct (map ms_timestamp_ms hist) \<and>
     (\<forall>s \<in> set hist. to_json codec s \<noteq> None) \<and>
     (\<forall>t. bt_get (metric_samples st) t =
        Option.bind (find (\<lambda>s. ms_timestamp_ms s = t) hist) (to_json codec)) \<and>
     (\<forall>m. bt_get (minute_metrics st) m =
        (if in_minute m hist = [] then None else Some (aggregate codec (in_minute m hist))))"

text \<open>First write wins: a sample whose millisecond is already recorded is dropped.\<close>

fun accept :: "MetricSample list \<Rightarrow> MetricSample list \<Rightarrow> MetricSample list" where
  "accept hist [] = hist"
| "accept hist (s # rest) =
     accept (if ms_timestamp_ms s \<in> ms_timestamp_ms ` set hist then hist else hist @ [s]) rest"

lemma count_of_simps [simp]:
  "count_of f [s] = not_null (f s)"
  "count_of f (ss @ [s]) = count_of f ss + not_null (f s)"
  by (simp_all add: count_of_def not_null_def)

lemma total_of_append [simp]: "total_of f (ss @ [s]) = total_of f ss + coalesce 0 (f s)"
  by (simp add: total_of_def)

lemma coalesce_isum_of: "ss \<noteq> [] \<Longrightarrow> coalesce 0 (isum_of f ss) = total_of f ss"
  by (cases ss) (auto simp: isum_of_def total_of_def coalesce_def)

lemma isum_of_simps [simp]:
  "isum_of f [s] = f s"
  "ss \<noteq> [] \<Longrightarrow> isum_of f (ss @ [s]) = add_int (isum_of f ss) (f s)"
  by (simp_all add: isum_of_def [of f "ss @ [s]"] add_int_def coalesce_isum_of isum_of_def [of f "[s]"])

lemma rsum_of_simps [simp]:
  "rsum_of f [s] = f s"
  "ss \<noteq> [] \<Longrightarrow> rsum_of f (ss @ [s]) = add_real (rsum_of f ss) (f s)"
  by (cases ss; simp add: rsum_of_def)+

lemma aggregate_single:
  "to_json codec s = Some json \<Longrightarrow> aggregate codec [s] = minute_values s json"
  by (simp add: aggregate_def minute_values_def)

lemma aggregate_snoc:
  assumes "to_json codec s = Some json" and "ss \<noteq> []"
  shows "aggregate codec (ss @ [s]) = minute_update (aggregate codec ss) (minute_values s json)"
  using assms by (simp add: aggregate_def minute_values_def minute_update_def)

lemma find_None_timestamp:
  "find (\<lambda>s. ms_timestamp_ms s = t) hist = None \<longleftrightarrow> t \<notin> ms_timestamp_ms ` set hist"
  by (auto simp: find_None_iff)

lemma find_append: "find P (xs @ ys) = (case find P xs of None \<Rightarrow> find P ys | Some x \<Rightarrow> Some x)"
  by (induction xs) auto

lemma represents_raw_None:
  assumes "represents codec st hist"
  shows "bt_get (metric_samples st) t = None \<longleftrightarrow> t \<notin> ms_timestamp_ms ` set hist"
proof -
  have "bt_get (metric_samples st) t =
      Option.bind (find (\<lambda>s. ms_timestamp_ms s = t) hist) (to_json codec)"
    using assms by (simp add: represents_def)
  moreover have "to_json codec s \<noteq> None" if "find (\<lambda>s. ms_timestamp_ms s = t) hist = Some s" for s
    using that assms by (auto simp: represents_def find_Some_iff)
  ultimately show ?thesis
    by (cases "find (\<lambda>s. ms_timestamp_ms s = t) hist") (auto simp: find_None_timestamp [symmetric])
qed

lemma in_minute_snoc:
  "in_minute m (hist @ [s]) = (if minute_of s = m then in_minute m hist @ [s] else in_minute m hist)"
  by (simp add: in_minute_def)

lemma minute_upsert:
  assumes rep: "represents codec st hist" and json: "to_json codec s = Some json"
  shows "bt_get (minute_metrics (upsert_minute s json st)) m =
    (if in_minute m (hist @ [s]) = [] then None else Some (aggregate codec (in_minute m (hist @ [s]))))"
proof -
  have "bt_get (minute_metrics st) m' =
      (if in_minute m' hist = [] then None else Some (aggregate codec (in_minute m' hist)))" for m'
    using rep by (simp add: represents_def)
  then show ?thesis
    using json
    by (auto simp: upsert_minute_def Let_def in_minute_snoc aggregate_single aggregate_snoc)
qed

lemma represents_insert:
  assumes rep: "represents codec st hist" and json: "to_json codec s = Some json"
    and new: "ms_timestamp_ms s \<notin> ms_timestamp_ms ` set hist"
  shows "represents codec
    (upsert_minute s json
      (st\<lparr>metric_samples := bt_insert (ms_timestamp_ms s) json (metric_samples st)\<rparr>)) (hist @ [s])"
proof -
  let ?mid = "st\<lparr>metric_samples := bt_insert (ms_timestamp_ms s) json (metric_samples st)\<rparr>"
  have old: "bt_get (metric_samples st) t =
      Option.bind (find (\<lambda>s. ms_timestamp_ms s = t) hist) (to_json codec)" for t
    using rep by (simp add: represents_def)
  have raw: "bt_get (metric_samples (upsert_minute s json ?mid)) t =
      Option.bind (find (\<lambda>s. ms_timestamp_ms s = t) (hist @ [s])) (to_json codec)" for t
  proof (cases "t = ms_timestamp_ms s")
    case True
    then have "find (\<lambda>s. ms_timestamp_ms s = t) hist = None"
      using new by (simp add: find_None_timestamp)
    then show ?thesis using True json by (simp add: upsert_minute_def Let_def find_append)
  next
    case False
    then have "find (\<lambda>s. ms_timestamp_ms s = t) (hist @ [s]) = find (\<lambda>s. ms_timestamp_ms s = t) hist"
      by (simp add: find_append split: option.split)
    then show ?thesis using False old by (simp add: upsert_minute_def Let_def)
  qed
  have "minute_metrics (upsert_minute s json ?mid) = minute_metrics (upsert_minute s json st)"
    by (simp add: upsert_minute_def Let_def)
  then have "bt_get (minute_metrics (upsert_minute s json ?mid)) m =
      (if in_minute m (hist @ [s]) = [] then None else Some (aggregate codec (in_minute m (hist @ [s]))))"
    for m using minute_upsert [OF rep json] by simp
  moreover have "bt_ok (metric_samples (upsert_minute s json ?mid))"
    "bt_ok (minute_metrics (upsert_minute s json ?mid))"
    using rep by (simp_all add: represents_def upsert_minute_def Let_def)
  ultimately show ?thesis
    using rep json new raw unfolding represents_def by auto
qed

lemma insert_sample_refines:
  assumes "represents codec st hist" and "insert_sample env codec n st s = Inr (n', st')"
  shows "represents codec st' (accept hist [s])"
proof -
  obtain json where json: "to_json codec s = Some json"
    using assms(2) by (auto simp: insert_sample_def split: option.splits)
  show ?thesis
  proof (cases "bt_get (metric_samples st) (ms_timestamp_ms s) = None")
    case True
    then show ?thesis
      using assms(2) json represents_insert [OF assms(1) json] represents_raw_None [OF assms(1)]
      by (auto simp: insert_sample_def Let_def split: if_splits)
  next
    case False
    then show ?thesis
      using assms(2) json assms(1) represents_raw_None [OF assms(1)]
      by (auto simp: insert_sample_def Let_def split: if_splits)
  qed
qed

lemma insert_samples_refines:
  assumes "represents codec st hist" and "insert_samples env codec n st ss = Inr (n', st')"
  shows "represents codec st' (accept hist ss)"
  using assms
proof (induction ss arbitrary: n st hist)
  case (Cons s ss)
  then obtain m mid where
    "insert_sample env codec n st s = Inr (m, mid)" "insert_samples env codec m mid ss = Inr (n', st')"
    by (auto simp: rbind_eq_Inr)
  then show ?case
    using Cons.IH [OF insert_sample_refines [OF Cons.prems(1)]] by simp
qed simp

lemma insert_samples_succeeds:
  assumes "\<forall>s \<in> set ss. to_json codec s \<noteq> None" and "\<And>n. \<not> fails env n"
  shows "\<exists>n' st'. insert_samples env codec n st ss = Inr (n', st')"
  using assms(1)
proof (induction ss arbitrary: n st)
  case (Cons s ss)
  have "\<exists>m mid. insert_sample env codec n st s = Inr (m, mid)"
    using Cons.prems assms(2) by (auto simp: insert_sample_def Let_def)
  then show ?case using Cons.IH Cons.prems by auto
qed simp

lemma represents_new: "represents codec MetricStore_new []"
  by (simp add: represents_def MetricStore_new_def in_minute_def)

section \<open>Query and retention lemmas\<close>

lemma query_rows_ok: "(\<And>i. \<not> fails env i) \<Longrightarrow> query_rows env n f rows = collect_results (map f rows)"
  by (induction rows arbitrary: n) simp_all

lemma query_rows_Inr: "query_rows env n f rows = Inr ss \<Longrightarrow> map f rows = map Inr ss"
proof (induction rows arbitrary: n ss)
  case (Cons r rows)
  then show ?case
    by (cases ss) (auto simp: rbind_eq_Inr split: if_splits)
qed simp

lemma sorted_filter_keys: "bt_ok table \<Longrightarrow> sorted_wrt (<) (map fst (filter P table))"
  using bt_ok_filter [of table P] by (simp add: bt_ok_def)

lemma select_range_sorted:
  "bt_ok table \<Longrightarrow> sorted_wrt (<) (map fst (select_range a b limit table))"
  unfolding select_range_def by (simp add: take_map [symmetric] sorted_wrt_take sorted_filter_keys)

lemma select_range_bounds:
  assumes "k \<in> set (map fst (select_range a b limit table))"
  shows "a \<le> k \<and> k \<le> b"
proof -
  from assms obtain v where "(k, v) \<in> set (select_range a b limit table)" by auto
  then have "(k, v) \<in> set (filter (\<lambda>(k, _). a \<le> k \<and> k \<le> b) table)"
    unfolding select_range_def by (rule in_set_takeD)
  then show ?thesis by simp
qed

lemma length_select_range: "length (select_range a b limit table) \<le> limit"
  by (simp add: select_range_def)

lemma raw_table_sorted:
  assumes "represents codec st hist"
  shows "metric_samples st =
    map (\<lambda>s. (ms_timestamp_ms s, the (to_json codec s))) (sort_key ms_timestamp_ms hist)"
    (is "_ = ?table")
proof (rule bt_canonical)
  show "bt_ok (metric_samples st)" using assms by (simp add: represents_def)
  have dist: "distinct (map ms_timestamp_ms (sort_key ms_timestamp_ms hist))"
    using assms by (simp add: represents_def distinct_map)
  then show ok: "bt_ok ?table"
    by (simp add: bt_ok_def strict_sorted_iff comp_def)
  show "bt_get (metric_samples st) = bt_get ?table"
  proof (rule ext)
    fix t
    show "bt_get (metric_samples st) t = bt_get ?table t"
    proof (cases "find (\<lambda>s. ms_timestamp_ms s = t) hist")
      case None
      then have "bt_get (metric_samples st) t = None" using assms by (simp add: represents_def)
      moreover have "bt_get ?table t = None"
        using None by (auto simp: bt_get_def map_of_eq_None_iff find_None_timestamp image_comp comp_def)
      ultimately show ?thesis by simp
    next
      case (Some s)
      then have s: "s \<in> set hist" "ms_timestamp_ms s = t" by (auto simp: find_Some_iff)
      then obtain json where json: "to_json codec s = Some json"
        using assms by (auto simp: represents_def)
      have "bt_get (metric_samples st) t = Some json"
        using assms Some json by (simp add: represents_def)
      moreover have "(t, json) \<in> set ?table" using s json by force
      ultimately show ?thesis using bt_get_iff [OF ok] by simp
    qed
  qed
qed

lemma query_raw_exact:
  assumes "represents codec st hist"
    and "\<forall>s \<in> set hist. from_json codec (the (to_json codec s)) = Some s"
    and "\<And>n. \<not> fails env n"
  shows "query_raw env codec st a b limit =
    Inr (take (min limit (nat i64_max))
      (filter (\<lambda>s. a \<le> ms_timestamp_ms s \<and> ms_timestamp_ms s \<le> b) (sort_key ms_timestamp_ms hist)))"
proof -
  let ?P = "\<lambda>s. a \<le> ms_timestamp_ms s \<and> ms_timestamp_ms s \<le> b"
  let ?ss = "take (min limit (nat i64_max)) (filter ?P (sort_key ms_timestamp_ms hist))"
  have "select_range a b limit (metric_samples st) =
      map (\<lambda>s. (ms_timestamp_ms s, the (to_json codec s))) ?ss"
    unfolding raw_table_sorted [OF assms(1)] select_range_def
    by (simp add: filter_map comp_def take_map)
  moreover have "map (\<lambda>s. ok_or Json (from_json codec (the (to_json codec s)))) ?ss = map Inr ?ss"
    using assms(2) by (intro map_cong) (auto dest: in_set_takeD)
  ultimately show ?thesis
    using assms(3) by (simp add: query_raw_def query_rows_ok comp_def collect_results_eq_Inr)
qed

lemma minute_sample_timestamp: "minute_sample codec (k, row) = Inr s \<Longrightarrow> ms_timestamp_ms s = k"
  by (auto simp: minute_sample_def rbind_eq_Inr split: if_splits)

lemma query_minute_timestamps:
  assumes "query_minute env codec st a b limit = Inr ss"
  shows "map ms_timestamp_ms ss = map fst (select_range a b limit (minute_metrics st))"
proof -
  let ?rows = "select_range a b limit (minute_metrics st)"
  have eq: "map (minute_sample codec) ?rows = map Inr ss"
    using assms by (auto simp: query_minute_def split: if_splits dest: query_rows_Inr)
  then have len: "length ?rows = length ss" by (metis length_map)
  show ?thesis
  proof (rule nth_equalityI)
    fix i assume "i < length (map ms_timestamp_ms ss)"
    then have "i < length ss" "i < length ?rows" using len by simp_all
    then have "minute_sample codec (?rows ! i) = Inr (ss ! i)"
      using eq by (metis nth_map)
    then show "map ms_timestamp_ms ss ! i = map fst ?rows ! i"
      using \<open>i < length ss\<close> \<open>i < length ?rows\<close> minute_sample_timestamp [of codec "fst (?rows ! i)" "snd (?rows ! i)"]
      by simp
  qed (simp add: len)
qed

text \<open>
  The effect of the size-cap loop: both tables lose a prefix, that is their oldest rows, minute
  rows are lost only once no raw row is left, and it ends at a measured size within the cap or
  with both tables empty.
\<close>

definition size_cap_post ::
  "sqlite_env \<Rightarrow> i64 \<Rightarrow> (StoreError, nat \<times> bool) result \<Rightarrow> 'j MetricStore \<Rightarrow> 'j MetricStore \<Rightarrow> bool" where
  "size_cap_post env cap r st st' \<longleftrightarrow>
     (\<exists>i j. metric_samples st' = drop i (metric_samples st) \<and>
       minute_metrics st' = drop j (minute_metrics st) \<and> (0 < j \<longrightarrow> metric_samples st' = [])) \<and>
     size_cap_bytes st' = size_cap_bytes st \<and>
     (is_ok r \<longrightarrow>
       (\<exists>k v. database_live_size_bytes env k = Inr v \<and> v \<le> cap) \<or>
       metric_samples st' = [] \<and> minute_metrics st' = [])"

lemma size_cap_post_raw:
  assumes "size_cap_post env cap r (st\<lparr>metric_samples := drop k (metric_samples st)\<rparr>) st'"
  shows "size_cap_post env cap r st st'"
proof -
  from assms obtain i j where "metric_samples st' = drop (i + k) (metric_samples st)"
    "minute_metrics st' = drop j (minute_metrics st)" "0 < j \<longrightarrow> metric_samples st' = []"
    by (auto simp: size_cap_post_def)
  then show ?thesis using assms unfolding size_cap_post_def by (metis (no_types) MetricStore.select_convs(3) MetricStore.surjective MetricStore.update_convs(1))
qed

lemma size_cap_post_minute:
  assumes "size_cap_post env cap r (st\<lparr>minute_metrics := drop k (minute_metrics st)\<rparr>) st'"
    and "metric_samples st = []"
  shows "size_cap_post env cap r st st'"
proof -
  from assms obtain j where "minute_metrics st' = drop (j + k) (minute_metrics st)"
    "metric_samples st' = drop 0 (metric_samples st)"
    by (auto simp: size_cap_post_def)
  then show ?thesis using assms unfolding size_cap_post_def
    by (intro conjI exI [of _ 0] exI [of _ "j + k"]) simp_all
qed

lemma size_cap_post_refl:
  "(is_ok r \<Longrightarrow> (\<exists>k v. database_live_size_bytes env k = Inr v \<and> v \<le> cap) \<or>
     metric_samples st = [] \<and> minute_metrics st = []) \<Longrightarrow> size_cap_post env cap r st st"
  by (auto simp: size_cap_post_def intro: exI [of _ 0])

lemma size_cap_loop_effect:
  "size_cap_loop env cap n st d = (r, st') \<Longrightarrow> size_cap_post env cap r st st'"
proof (induction env cap n st d rule: size_cap_loop.induct)
  case (1 env cap n st d)
  show ?case
  proof (cases "database_live_size_bytes env n")
    case (Inl e)
    then show ?thesis
      using 1(3) by (auto simp: size_cap_loop.simps [of env cap n] intro: size_cap_post_refl)
  next
    case (Inr live)
    note step = 1(3) [unfolded size_cap_loop.simps [of env cap n] Inr, simplified]
    consider "live \<le> cap \<or> fails env (n + 4)"
      | "\<not> live \<le> cap" "\<not> fails env (n + 4)" "metric_samples st \<noteq> []"
      | "\<not> live \<le> cap" "\<not> fails env (n + 4)" "metric_samples st = []"
          "fails env (n + 5) \<or> minute_metrics st = []"
      | "\<not> live \<le> cap" "\<not> fails env (n + 4)" "\<not> metric_samples st \<noteq> []"
          "\<not> fails env (n + 5)" "minute_metrics st \<noteq> []" by blast
    then show ?thesis
    proof cases
      case 1
      then show ?thesis
        using step Inr by (auto split: if_splits intro!: size_cap_post_refl)
    next
      case 2
      then show ?thesis using "1.IH"(1) [OF Inr 2] step by (auto intro: size_cap_post_raw)
    next
      case 3
      then show ?thesis
        using step by (auto split: if_splits intro!: size_cap_post_refl)
    next
      case 4
      then show ?thesis using "1.IH"(2) [OF Inr 4] step by (auto intro: size_cap_post_minute)
    qed
  qed
qed

lemma minute_sample_fields:
  assumes "minute_sample codec (m, row) = Inr p"
  shows "ms_memory_used_bytes p = average_i64 (mr_memory_used_sum row) (mr_memory_used_count row)"
    and "ms_swap_used_bytes p = average_i64 (mr_swap_used_sum row) (mr_swap_count row)"
    and "ms_swap_total_bytes p = average_i64 (mr_swap_total_sum row) (mr_swap_count row)"
    and "ms_network p =
      (if 0 < mr_rx_count row \<or> 0 < mr_tx_count row then
         Some \<lparr>nm_received_bytes_per_second =
                 unwrap_or_default (average_i64 (mr_rx_sum row) (mr_rx_count row)),
               nm_sent_bytes_per_second =
                 unwrap_or_default (average_i64 (mr_tx_sum row) (mr_tx_count row))\<rparr>
       else None)"
  using assms by (auto simp: minute_sample_def rbind_eq_Inr split: if_split_asm)

lemma aggregate_fields:
  "mr_memory_used_sum (aggregate codec ss) = isum_of memory_param ss"
  "mr_memory_used_count (aggregate codec ss) = count_of memory_param ss"
  "mr_swap_used_sum (aggregate codec ss) = isum_of (map_option fst \<circ> swap_param) ss"
  "mr_swap_total_sum (aggregate codec ss) = isum_of (map_option snd \<circ> swap_param) ss"
  "mr_swap_count (aggregate codec ss) = count_of (map_option fst \<circ> swap_param) ss"
  "mr_rx_sum (aggregate codec ss) = isum_of rx_param ss"
  "mr_rx_count (aggregate codec ss) = count_of rx_param ss"
  "mr_tx_sum (aggregate codec ss) = isum_of tx_param ss"
  "mr_tx_count (aggregate codec ss) = count_of tx_param ss"
  by (simp_all add: aggregate_def)

lemma count_of_swap_snd:
  "count_of (map_option snd \<circ> swap_param) ss = count_of (map_option fst \<circ> swap_param) ss"
  by (simp add: count_of_def)

lemma average_isum_of:
  assumes "ss \<noteq> []" and "\<And>s v. f s = Some v \<Longrightarrow> 0 \<le> v"
  shows "average_i64 (isum_of f ss) (count_of f ss) =
    (if count_of f ss = 0 then None else Some (word_of_int (total_of f ss div count_of f ss)))"
proof (cases "0 < count_of f ss")
  case True
  have "isum_of f ss = Some (total_of f ss)"
  proof (cases "length ss = 1")
    case one: True
    then obtain s where "ss = [s]" by (auto simp: length_Suc_conv)
    then show ?thesis using True by (cases "f s") (auto simp: not_null_def total_of_def coalesce_def)
  qed (simp add: isum_of_def)
  moreover have "0 \<le> total_of f ss"
    using assms(2) by (auto simp: total_of_def coalesce_def intro!: sum_list_nonneg split: option.split)
  ultimately show ?thesis
    using True by (simp add: average_i64_def u64_try_from_i64_def sgn_if pos_imp_zdiv_nonneg_iff)
next
  case False
  then have "count_of f ss = 0" by (simp add: count_of_def)
  then show ?thesis by (simp add: average_i64_def)
qed

lemma i64_try_from_u64_nonneg: "i64_try_from_u64 w = Some v \<Longrightarrow> 0 \<le> v"
  by (auto simp: i64_try_from_u64_def split: if_splits)

lemma params_nonneg:
  "memory_param s = Some v \<Longrightarrow> 0 \<le> v"
  "rx_param s = Some v \<Longrightarrow> 0 \<le> v"
  "tx_param s = Some v \<Longrightarrow> 0 \<le> v"
  "(map_option fst \<circ> swap_param) s = Some v \<Longrightarrow> 0 \<le> v"
  "(map_option snd \<circ> swap_param) s = Some v \<Longrightarrow> 0 \<le> v"
  by (auto simp: memory_param_def rx_param_def tx_param_def swap_param_def try_pair_def
      Option.bind_eq_Some_conv dest: i64_try_from_u64_nonneg split: option.splits)

section \<open>Properties\<close>

text \<open>
  C6. \<open>insert_batch\<close> refines appending to a list of accepted samples, first write per millisecond
  winning: when it reports success the raw table holds exactly the accepted samples and every minute
  row the exact counts and sums of the accepted samples of that minute, when it reports an error the
  store is untouched, and it does succeed when every sample serialises and no statement fails.
\<close>

theorem insert_batch_refines:
  assumes "represents codec st hist"
  shows "(case insert_batch env codec st samples of
       (Inl _, st') \<Rightarrow> st' = st
     | (Inr _, st') \<Rightarrow> represents codec st' (accept hist samples)) \<and>
    ((\<forall>s \<in> set samples. to_json codec s \<noteq> None) \<and> (\<forall>n. \<not> fails env n) \<longrightarrow>
       is_ok (fst (insert_batch env codec st samples)))"
proof (cases "fails env 0")
  case True
  then show ?thesis by (auto simp: insert_batch_def)
next
  case False
  show ?thesis
  proof (cases "insert_samples env codec 1 st samples")
    case (Inl e)
    then show ?thesis
      using False insert_samples_succeeds [of samples codec env 1 st] by (fastforce simp: insert_batch_def)
  next
    case (Inr p)
    then show ?thesis
      using False insert_samples_refines [OF assms, of env 1 samples]
      by (cases p) (auto simp: insert_batch_def)
  qed
qed

definition identity_codec :: "MetricSample codec" where
  "identity_codec = \<lparr>to_json = Some, from_json = Some\<rparr>"

definition calm_env :: sqlite_env where
  "calm_env = \<lparr>fails = (\<lambda>_. False), pragma = (\<lambda>_. 0)\<rparr>"

theorem insert_batch_refines_witness:
  "is_ok (fst (insert_batch calm_env identity_codec MetricStore_new
     [plain_sample 5 None [], plain_sample 5 (Some (Fin 1)) [], plain_sample 7 None []])) \<and>
   represents identity_codec
     (snd (insert_batch calm_env identity_codec MetricStore_new
        [plain_sample 5 None [], plain_sample 5 (Some (Fin 1)) [], plain_sample 7 None []]))
     [plain_sample 5 None [], plain_sample 7 None []]"
proof -
  let ?ss = "[plain_sample 5 None [], plain_sample 5 (Some (Fin 1)) [], plain_sample 7 None []]"
  note use = insert_batch_refines [OF represents_new, where codec = identity_codec and env = calm_env and samples = ?ss]
  have ok: "is_ok (fst (insert_batch calm_env identity_codec MetricStore_new ?ss))"
    using use by (simp add: identity_codec_def calm_env_def)
  moreover have "accept [] ?ss = [plain_sample 5 None [], plain_sample 7 None []]"
    by (simp add: plain_sample_def)
  ultimately show ?thesis
    using use by (auto simp: is_ok_def split: prod.splits sum.splits)
qed

text \<open>
  A raw history query answers exactly the accepted samples whose timestamps lie in the requested
  range, oldest first, cut at the limit: nothing is reordered, dropped or duplicated between
  \<open>insert_batch\<close> and \<open>query_page\<close>, provided the codec reads back the samples it wrote.
\<close>

theorem raw_history_exact:
  assumes "represents codec st hist"
    and "\<forall>s \<in> set hist. from_json codec (the (to_json codec s)) = Some s"
    and "\<forall>n. \<not> fails env n" and "limit \<le> nat i64_max"
  shows "query_page env codec st from_ms to_ms Raw limit =
    Inr (take limit (filter (\<lambda>s. from_ms \<le> ms_timestamp_ms s \<and> ms_timestamp_ms s \<le> to_ms)
      (sort_key ms_timestamp_ms hist)))"
  using query_raw_exact [OF assms(1,2), of env] assms(3,4) by (simp add: query_page_def min_def)

theorem raw_history_exact_witness:
  "\<exists>st. insert_samples calm_env identity_codec 1 MetricStore_new [plain_sample 7 None [], plain_sample 5 None []]
       = Inr (5, st) \<and>
     query_page calm_env identity_codec st 0 6 Raw 9 = Inr [plain_sample 5 None []]"
proof -
  let ?ss = "[plain_sample 7 None [], plain_sample 5 None []]"
  have "map_option fst (result_ok (insert_samples calm_env identity_codec 1 MetricStore_new ?ss)) = Some 5"
    by code_simp
  then obtain st where st: "insert_samples calm_env identity_codec 1 MetricStore_new ?ss = Inr (5, st)"
    by (auto simp: result_ok_def split: sum.splits)
  have acc: "accept [] ?ss = ?ss" by (simp add: plain_sample_def)
  have "represents identity_codec st ?ss"
    using insert_samples_refines [OF represents_new st] unfolding acc .
  from raw_history_exact [OF this, of calm_env 9 0 6]
  have "query_page calm_env identity_codec st 0 6 Raw 9 = Inr [plain_sample 5 None []]"
    by (simp add: identity_codec_def calm_env_def plain_sample_def i64_limits)
  with st show ?thesis by blast
qed

text \<open>
  A minute query answers at most \<open>limit\<close> points, strictly increasing in time and inside the
  requested range, and each of them is the projection of the minute row stored under its timestamp.
\<close>

theorem minute_history_ordered:
  assumes "bt_ok (minute_metrics st)"
    and "query_page env codec st from_ms to_ms Minute limit = Inr points"
  shows "length points \<le> limit \<and> sorted_wrt (<) (map ms_timestamp_ms points) \<and>
    (\<forall>p \<in> set points. from_ms \<le> ms_timestamp_ms p \<and> ms_timestamp_ms p \<le> to_ms \<and>
      (\<exists>row. bt_get (minute_metrics st) (ms_timestamp_ms p) = Some row \<and>
        minute_sample codec (ms_timestamp_ms p, row) = Inr p))"
proof -
  let ?rows = "select_range from_ms to_ms limit (minute_metrics st)"
  have q: "query_minute env codec st from_ms to_ms limit = Inr points"
    using assms(2) by (simp add: query_page_def)
  then have eq: "map (minute_sample codec) ?rows = map Inr points"
    by (auto simp: query_minute_def split: if_splits dest: query_rows_Inr)
  note ts = query_minute_timestamps [OF q]
  have row: "\<exists>row. bt_get (minute_metrics st) (ms_timestamp_ms p) = Some row \<and>
      minute_sample codec (ms_timestamp_ms p, row) = Inr p" if p: "p \<in> set points" for p
  proof -
    have "Inr p \<in> set (map (minute_sample codec) ?rows)" using eq p by simp
    then obtain k r where kr: "(k, r) \<in> set ?rows" "minute_sample codec (k, r) = Inr p" by auto
    then have "(k, r) \<in> set (minute_metrics st)"
      by (auto simp: select_range_def dest: in_set_takeD)
    then show ?thesis
      using kr minute_sample_timestamp [OF kr(2)] bt_get_iff [OF assms(1)] by auto
  qed
  have "ms_timestamp_ms p \<in> set (map fst ?rows)" if "p \<in> set points" for p
    unfolding ts [symmetric] using that by simp
  then have "from_ms \<le> ms_timestamp_ms p \<and> ms_timestamp_ms p \<le> to_ms" if "p \<in> set points" for p
    using that select_range_bounds by blast
  moreover have "length points \<le> limit"
    using length_select_range [of from_ms to_ms limit "minute_metrics st"] ts by (metis length_map)
  moreover have "sorted_wrt (<) (map ms_timestamp_ms points)"
    unfolding ts using assms(1) by (rule select_range_sorted)
  ultimately show ?thesis using row by blast
qed

theorem minute_history_ordered_witness:
  "\<exists>points. query_page calm_env identity_codec
       (snd (insert_batch calm_env identity_codec MetricStore_new [plain_sample 61000 None []]))
       0 70000 Minute 5 = Inr points \<and> map ms_timestamp_ms points = [60000] \<and> length points \<le> 5"
proof -
  let ?st = "snd (insert_batch calm_env identity_codec MetricStore_new [plain_sample 61000 None []])"
  have "is_ok (query_page calm_env identity_codec ?st 0 70000 Minute 5)"
    and ts: "map_option (map ms_timestamp_ms)
      (result_ok (query_page calm_env identity_codec ?st 0 70000 Minute 5)) = Some [60000]"
    and ok: "bt_ok (minute_metrics ?st)"
    by code_simp+
  then obtain points where "query_page calm_env identity_codec ?st 0 70000 Minute 5 = Inr points"
    by (auto simp: is_ok_iff)
  with minute_history_ordered [OF ok this] ts show ?thesis by auto
qed


definition memory_sample :: "i64 \<Rightarrow> u64 option \<Rightarrow> MetricSample" where
  "memory_sample t used = (plain_sample t None [])\<lparr>ms_memory_used_bytes := used\<rparr>"




text \<open>
  Opening a store file brings its aggregate table up to date: on success the required columns are
  all present, the columns that were there keep their order at the front, no column is added twice,
  and opening the file again adds nothing; a new file gets the full table without any migration.
\<close>

theorem open_migrates_schema:
  assumes "from_connection env columns st = (Inr st', out)"
  shows "\<exists>cs. out = Some cs \<and> fst ` set REQUIRED_COLUMNS \<subseteq> set cs \<and>
    (columns = None \<longrightarrow> cs = minute_columns) \<and>
    (\<forall>old. columns = Some old \<longrightarrow> (\<exists>added. cs = old @ added \<and> distinct added \<and> set added \<inter> set old = {})) \<and>
    (\<forall>env'. \<not> fails env' 0 \<longrightarrow> migrate_minute_metrics_columns env' cs = (Inr (), cs))"
proof -
  define old where "old = (case columns of None \<Rightarrow> minute_columns | Some cs \<Rightarrow> cs)"
  let ?new = "filter (\<lambda>c. c \<notin> set old) (map fst REQUIRED_COLUMNS)"
  have out: "out = Some (old @ ?new)"
    using assms unfolding from_connection_def old_def [symmetric]
    by (auto simp: Let_def migrate_minute_metrics_columns_def rbind_eq_Inr
        split: if_splits prod.splits dest!: add_columns_Inr)
  have again: "add_columns env' n cs columns' req = (Inr (), columns')"
    if "fst ` set req \<subseteq> set cs" for env' n cs columns' req
    using that by (induction req) auto
  have all: "fst ` set REQUIRED_COLUMNS \<subseteq> set (old @ ?new)" by auto
  have "distinct ?new" by (intro distinct_filter) (simp add: REQUIRED_COLUMNS_def)
  moreover have "columns = None \<Longrightarrow> ?new = []"
    by (simp add: old_def minute_columns_def REQUIRED_COLUMNS_def)
  moreover have "migrate_minute_metrics_columns env' (old @ ?new) = (Inr (), old @ ?new)"
    if "\<not> fails env' 0" for env'
    using that again [OF all] by (simp add: migrate_minute_metrics_columns_def)
  ultimately show ?thesis
    using out all by (intro exI [of _ "old @ ?new"]) (auto simp: old_def)
qed

theorem open_migrates_schema_witness:
  "\<exists>cs. snd (from_connection calm_env (Some [''minute_ms'', ''disk_count'']) (MetricStore_new :: unit MetricStore)) = Some cs \<and>
     fst ` set REQUIRED_COLUMNS \<subseteq> set cs"
proof -
  let ?st = "MetricStore_new :: unit MetricStore"
  obtain r out where run: "from_connection calm_env (Some [''minute_ms'', ''disk_count'']) ?st = (r, out)"
    by (cases "from_connection calm_env (Some [''minute_ms'', ''disk_count'']) ?st")
  have "is_ok (fst (from_connection calm_env (Some [''minute_ms'', ''disk_count'']) ?st))" by code_simp
  then obtain st' where "r = Inr st'" using run by (auto simp: is_ok_iff)
  with run have "from_connection calm_env (Some [''minute_ms'', ''disk_count'']) ?st = (Inr st', out)"
    by simp
  from open_migrates_schema [OF this] run show ?thesis by auto
qed

end
