(* ===== verification/Pairing.thy ===== *)
theory Pairing
  imports Transport Durable
begin

text \<open>
  Pairing (\<open>crates/rackio-iroh/src/pairing.rs\<close>): the bundle an operator carries to a viewer, the
  pairing window with its per-peer failure counts, and the registry of paired peers. Random bytes,
  the wall clock, base64, JSON and identity parsing are parameters; peers are the authenticated
  endpoint identities of the transport.
\<close>

section \<open>Bundles\<close>

definition PAIRING_SECRET_BYTES :: nat where "PAIRING_SECRET_BYTES = 32"
definition PAIRING_WINDOW_MS :: int where "PAIRING_WINDOW_MS = 5 * 60 * 1000"
definition MAX_FAILURES :: u8 where "MAX_FAILURES = 5"
definition MAX_TRACKED_FAILING_PEERS :: nat where "MAX_TRACKED_FAILING_PEERS = 64"

record PairingBundle =
  pb_format_version :: u8
  pb_node_id :: uuid
  pb_endpoint_id :: string
  pb_direct_addresses :: "SocketAddr list"
  pb_relay_urls :: "string list"
  pb_one_time_secret :: string
  pb_expires_at_ms :: i64

datatype PairingError =
  WindowClosed | Expired | Rejected | InvalidSecret | InvalidBundle | RegistryUnavailable
| PairingIo | PairingJson

record codecs =
  b64_encode :: "bytes \<Rightarrow> string"
  b64_decode :: "string \<Rightarrow> bytes option"
  bundle_to_json :: "PairingBundle \<Rightarrow> bytes option"
  bundle_of_json :: "bytes \<Rightarrow> PairingBundle option"
  endpoint_parse :: "string \<Rightarrow> endpoint_id option"
  relay_parse :: "string \<Rightarrow> string option"

text \<open>What base64 and serde document: decoding inverts encoding.\<close>

definition b64_faithful :: "codecs \<Rightarrow> bool" where
  "b64_faithful cs \<longleftrightarrow> (\<forall>bs. b64_decode cs (b64_encode cs bs) = Some bs)"

definition json_faithful :: "codecs \<Rightarrow> PairingBundle \<Rightarrow> bool" where
  "json_faithful cs b \<longleftrightarrow> (\<exists>j. bundle_to_json cs b = Some j \<and> bundle_of_json cs j = Some b)"

definition bundle_prefix :: string where "bundle_prefix = ''rackio-pair:''"

definition bundle_encode :: "codecs \<Rightarrow> PairingBundle \<Rightarrow> (PairingError, string) result" where
  "bundle_encode cs b =
     rbind (ok_or PairingJson (bundle_to_json cs b)) (\<lambda>bytes.
       Inr (bundle_prefix @ b64_encode cs bytes))"

definition bundle_decode :: "codecs \<Rightarrow> string \<Rightarrow> (PairingError, PairingBundle) result" where
  "bundle_decode cs encoded =
     rbind (ok_or InvalidBundle (strip_prefix bundle_prefix encoded)) (\<lambda>payload.
     rbind (ok_or InvalidBundle (b64_decode cs payload)) (\<lambda>bytes.
     rbind (ok_or PairingJson (bundle_of_json cs bytes)) (\<lambda>bundle.
       if pb_format_version bundle \<noteq> 1 then Inl InvalidBundle else Inr bundle)))"

definition bundle_endpoint_addr ::
  "codecs \<Rightarrow> PairingBundle \<Rightarrow> (PairingError, endpoint_id \<times> TransportAddr list) result" where
  "bundle_endpoint_addr cs b =
     rbind (ok_or InvalidBundle (endpoint_parse cs (pb_endpoint_id b))) (\<lambda>eid.
     rbind (collect_results (map (\<lambda>u. ok_or InvalidBundle (relay_parse cs u)) (pb_relay_urls b))) (\<lambda>relays.
       Inr (eid, map Ip (pb_direct_addresses b) @ map Relay relays)))"

section \<open>The pairing window\<close>

record PairingWindow =
  pw_secret :: bytes
  pw_expires_at_ms :: i64
  pw_failures :: "(endpoint_id \<times> u8) list"

record PairingManager =
  pm_active :: "PairingWindow option"

definition record_failure :: "PairingWindow \<Rightarrow> endpoint_id \<Rightarrow> PairingWindow" where
  "record_failure w peer =
     (case update_first (\<lambda>(i, _). i = peer) (\<lambda>(i, n). (i, u8_saturating_add n 1)) (pw_failures w) of
        Some failures \<Rightarrow> w\<lparr>pw_failures := failures\<rparr>
      | None \<Rightarrow>
          let kept = (if MAX_TRACKED_FAILING_PEERS \<le> length (pw_failures w)
                      then tl (pw_failures w) else pw_failures w)
          in w\<lparr>pw_failures := kept @ [(peer, 1)]\<rparr>)"

definition is_locked_out :: "PairingWindow \<Rightarrow> endpoint_id \<Rightarrow> bool" where
  "is_locked_out w peer = list_ex (\<lambda>(i, n). i = peer \<and> MAX_FAILURES \<le> n) (pw_failures w)"

definition is_open :: "PairingManager \<Rightarrow> bool" where
  "is_open pm \<longleftrightarrow> pm_active pm \<noteq> None"

definition open_window ::
  "ids \<Rightarrow> codecs \<Rightarrow> bytes \<Rightarrow> i64 \<Rightarrow> PairingManager \<Rightarrow> uuid \<Rightarrow> endpoint_id \<Rightarrow> SocketAddr list \<Rightarrow> string list \<Rightarrow>
   PairingManager \<times> PairingBundle" where
  "open_window ids cs secret now pm node_id eid direct relays =
     (let expires = i64_wrap (now + PAIRING_WINDOW_MS)
      in (pm\<lparr>pm_active := Some \<lparr>pw_secret = secret, pw_expires_at_ms = expires, pw_failures = []\<rparr>\<rparr>,
          \<lparr>pb_format_version = 1, pb_node_id = node_id, pb_endpoint_id = endpoint_str ids eid,
           pb_direct_addresses = direct, pb_relay_urls = relays,
           pb_one_time_secret = b64_encode cs secret, pb_expires_at_ms = expires\<rparr>))"

definition secret_valid :: "codecs \<Rightarrow> PairingWindow \<Rightarrow> string \<Rightarrow> bool" where
  "secret_valid cs w supplied =
     (case b64_decode cs supplied of
        None \<Rightarrow> False
      | Some s \<Rightarrow> length s = PAIRING_SECRET_BYTES \<and> pw_secret w = s)"

definition verify_and_consume_at ::
  "codecs \<Rightarrow> PairingManager \<Rightarrow> i64 \<Rightarrow> endpoint_id \<Rightarrow> string \<Rightarrow>
   (PairingError, unit) result \<times> PairingManager" where
  "verify_and_consume_at cs pm now peer supplied =
     (case pm_active pm of
        None \<Rightarrow> (Inl WindowClosed, pm)
      | Some w \<Rightarrow>
          if pw_expires_at_ms w < now then (Inl Expired, pm\<lparr>pm_active := None\<rparr>)
          else if is_locked_out w peer then (Inl Rejected, pm)
          else if secret_valid cs w supplied then (Inr (), pm\<lparr>pm_active := None\<rparr>)
          else (Inl Rejected, pm\<lparr>pm_active := Some (record_failure w peer)\<rparr>))"

text \<open>A run of attempts, each with its time, its peer and the secret it supplied.\<close>

fun attempts ::
  "codecs \<Rightarrow> PairingManager \<Rightarrow> (i64 \<times> endpoint_id \<times> string) list \<Rightarrow> PairingManager" where
  "attempts cs pm [] = pm"
| "attempts cs pm ((now, peer, supplied) # rest) =
     attempts cs (snd (verify_and_consume_at cs pm now peer supplied)) rest"

section \<open>The registry of peers\<close>

record PeerPermissions =
  pp_read_metrics :: bool
  pp_read_history :: bool

definition PeerPermissions_default :: PeerPermissions where
  "PeerPermissions_default = \<lparr>pp_read_metrics = True, pp_read_history = True\<rparr>"

record PeerRecord =
  pr_endpoint_id :: string
  pr_paired_at_ms :: i64
  pr_permissions :: PeerPermissions

type_synonym peers = "(string, PeerRecord) btree"
type_synonym 'f peer_registry = "(peers, 'f) registry"

fun pairing_persist_error :: "persist_error \<Rightarrow> PairingError" where
  "pairing_persist_error PersistIo = PairingIo"
| "pairing_persist_error PersistJson = PairingJson"

definition peers_load ::
  "(peers, 'f) file_codec \<Rightarrow> 'f read_outcome \<Rightarrow> (PairingError, 'f peer_registry) result" where
  "peers_load c outcome =
     rbind (map_err pairing_persist_error (load_records c [] outcome)) (\<lambda>records.
       Inr \<lparr>reg_records = records,
            reg_file = (case outcome of FileContent f \<Rightarrow> Some f | _ \<Rightarrow> None), reg_poisoned = False\<rparr>)"

definition permissions ::
  "ids \<Rightarrow> 'f peer_registry \<Rightarrow> endpoint_id \<Rightarrow> (PairingError, PeerPermissions option) result" where
  "permissions ids reg eid =
     (if reg_poisoned reg then Inl RegistryUnavailable
      else Inr (map_option pr_permissions (bt_get (reg_records reg) (endpoint_str ids eid))))"

definition contains ::
  "ids \<Rightarrow> 'f peer_registry \<Rightarrow> endpoint_id \<Rightarrow> (PairingError, bool) result" where
  "contains ids reg eid = rbind (permissions ids reg eid) (\<lambda>p. Inr (p \<noteq> None))"

definition list_peers :: "'f peer_registry \<Rightarrow> (PairingError, PeerRecord list) result" where
  "list_peers reg =
     (if reg_poisoned reg then Inl RegistryUnavailable else Inr (bt_values (reg_records reg)))"

definition peer_record :: "string \<Rightarrow> i64 \<Rightarrow> PeerPermissions \<Rightarrow> PeerRecord" where
  "peer_record key now perms =
     \<lparr>pr_endpoint_id = key, pr_paired_at_ms = now, pr_permissions = perms\<rparr>"

definition authorize ::
  "ids \<Rightarrow> (peers, 'f) file_codec \<Rightarrow> (nat \<Rightarrow> bool) \<Rightarrow> i64 \<times> endpoint_id \<times> PeerPermissions \<Rightarrow>
   'f peer_registry \<Rightarrow> (PairingError, unit) result \<times> 'f peer_registry" where
  "authorize ids c io a reg =
     (case a of (now, eid, perms) \<Rightarrow>
        modify pairing_persist_error RegistryUnavailable
          (\<lambda>records. Inr (Inr (bt_insert (endpoint_str ids eid)
             (peer_record (endpoint_str ids eid) now perms) records, ()))) c io reg)"

definition authorize_preserving ::
  "ids \<Rightarrow> (peers, 'f) file_codec \<Rightarrow> (nat \<Rightarrow> bool) \<Rightarrow> i64 \<times> endpoint_id \<Rightarrow>
   'f peer_registry \<Rightarrow> (PairingError, PeerPermissions) result \<times> 'f peer_registry" where
  "authorize_preserving ids c io a reg =
     (case a of (now, eid) \<Rightarrow>
        modify pairing_persist_error RegistryUnavailable
          (\<lambda>records.
             let key = endpoint_str ids eid;
                 perms = (case bt_get records key of
                            None \<Rightarrow> PeerPermissions_default
                          | Some record \<Rightarrow> pr_permissions record)
             in Inr (Inr (bt_insert key (peer_record key now perms) records, perms))) c io reg)"

definition revoke ::
  "(peers, 'f) file_codec \<Rightarrow> (nat \<Rightarrow> bool) \<Rightarrow> string \<Rightarrow>
   'f peer_registry \<Rightarrow> (PairingError, bool) result \<times> 'f peer_registry" where
  "revoke c io key reg =
     modify pairing_persist_error RegistryUnavailable
       (\<lambda>records.
          if bt_get records key = None then Inr (Inl False)
          else Inr (Inr (bt_remove key records, True))) c io reg"

interpretation authorize_op: durable_op "authorize ids"
  by unfold_locales
    (simp_all add: authorize_def split: prod.splits, (blast dest: modify_refused modify_done)+)

interpretation preserving_op: durable_op "authorize_preserving ids"
  by unfold_locales
    (simp_all add: authorize_preserving_def split: prod.splits, (blast dest: modify_refused modify_done)+)

interpretation revoke_op: durable_op revoke
  by unfold_locales (unfold revoke_def, (blast dest: modify_refused modify_done)+)

lemma authorize_preserving_Inr:
  assumes "authorize_preserving ids c io (now, eid) reg = (Inr perms, reg')"
  shows "\<not> reg_poisoned reg" and "\<not> reg_poisoned reg'"
    and "perms = (case bt_get (reg_records reg) (endpoint_str ids eid) of
      None \<Rightarrow> PeerPermissions_default | Some record \<Rightarrow> pr_permissions record)"
    and "reg_records reg' = bt_insert (endpoint_str ids eid)
      (peer_record (endpoint_str ids eid) now perms) (reg_records reg)"
  using modify_eq_Inr [OF assms [unfolded authorize_preserving_def prod.case]] by (auto simp: Let_def)

section \<open>Lemmas on the window\<close>

text \<open>The failure table is bounded, has one entry per peer, and counts from one.\<close>

definition window_ok :: "PairingWindow \<Rightarrow> bool" where
  "window_ok w \<longleftrightarrow>
     distinct (map fst (pw_failures w)) \<and> length (pw_failures w) \<le> MAX_TRACKED_FAILING_PEERS"

definition failures_of :: "PairingWindow \<Rightarrow> endpoint_id \<Rightarrow> nat" where
  "failures_of w peer = (case map_of (pw_failures w) peer of None \<Rightarrow> 0 | Some n \<Rightarrow> unat n)"

lemma is_locked_out_iff:
  assumes "window_ok w"
  shows "is_locked_out w peer \<longleftrightarrow> 5 \<le> failures_of w peer"
proof -
  have "is_locked_out w peer \<longleftrightarrow> (\<exists>n. (peer, n) \<in> set (pw_failures w) \<and> MAX_FAILURES \<le> n)"
    by (auto simp: is_locked_out_def list_ex_iff)
  also have "\<dots> \<longleftrightarrow> (\<exists>n. map_of (pw_failures w) peer = Some n \<and> MAX_FAILURES \<le> n)"
    using assms by (simp add: window_ok_def)
  also have "\<dots> \<longleftrightarrow> 5 \<le> failures_of w peer"
    by (simp add: failures_of_def MAX_FAILURES_def word_le_nat_alt split: option.splits)
  finally show ?thesis .
qed

lemma record_failure_tracked:
  assumes "update_first (\<lambda>(i, _). i = peer) (\<lambda>(i, n). (i, u8_saturating_add n 1)) fs = Some fs'"
  shows "map fst fs' = map fst fs" and "length fs' = length fs"
    and "map_of fs' q = (if q = peer then map_option (\<lambda>n. u8_saturating_add n 1) (map_of fs peer) else map_of fs q)"
    and "map_of fs peer \<noteq> None"
proof -
  show "map fst fs' = map fst fs" using assms by (rule update_first_map) auto
  show "length fs' = length fs" using assms by (rule update_first_length)
  from update_first_split [OF assms] obtain us n vs where
    "fs = us @ (peer, n) # vs" "list_all (\<lambda>u. \<not> (case u of (i, _) \<Rightarrow> i = peer)) us"
    "fs' = us @ (peer, u8_saturating_add n 1) # vs" by auto
  moreover have "map_of us peer = None"
    using calculation(2) by (auto simp: list_all_iff map_of_eq_None_iff)
  ultimately show "map_of fs' q =
      (if q = peer then map_option (\<lambda>n. u8_saturating_add n 1) (map_of fs peer) else map_of fs q)"
    and "map_of fs peer \<noteq> None"
    by (auto simp: map_add_def split: option.splits)
qed

lemma update_peer_None:
  "update_first (\<lambda>(i, _). i = peer) f fs = None \<longleftrightarrow> peer \<notin> fst ` set fs"
  by (force simp: update_first_None list_ex_iff)

lemma record_failure_fresh:
  assumes "peer \<notin> fst ` set (pw_failures w)"
  shows "record_failure w peer =
    w\<lparr>pw_failures := (if MAX_TRACKED_FAILING_PEERS \<le> length (pw_failures w)
       then tl (pw_failures w) else pw_failures w) @ [(peer, 1)]\<rparr>"
proof -
  have "update_first (\<lambda>(i, _). i = peer) (\<lambda>(i, n). (i, u8_saturating_add n 1)) (pw_failures w) = None"
    using assms by (simp add: update_peer_None)
  then show ?thesis by (simp add: record_failure_def Let_def)
qed

lemma record_failure_ok: "window_ok w \<Longrightarrow> window_ok (record_failure w peer)"
proof -
  assume ok: "window_ok w"
  show ?thesis
  proof (cases "update_first (\<lambda>(i, _). i = peer) (\<lambda>(i, n). (i, u8_saturating_add n 1)) (pw_failures w)")
    case None
    then have out: "peer \<notin> fst ` set (pw_failures w)" by (simp add: update_peer_None)
    moreover have "distinct (map fst (tl (pw_failures w)))" "set (tl (pw_failures w)) \<subseteq> set (pw_failures w)"
      using ok by (cases "pw_failures w"; auto simp: window_ok_def)+
    ultimately show ?thesis
      using ok
      by (auto simp: record_failure_fresh window_ok_def MAX_TRACKED_FAILING_PEERS_def)
  next
    case (Some fs)
    then show ?thesis
      using ok record_failure_tracked(1,2) [OF Some] by (simp add: record_failure_def window_ok_def)
  qed
qed

lemma failures_of_record_same:
  assumes "window_ok w"
  shows "failures_of (record_failure w peer) peer = min 255 (failures_of w peer + 1)"
proof (cases "update_first (\<lambda>(i, _). i = peer) (\<lambda>(i, n). (i, u8_saturating_add n 1)) (pw_failures w)")
  case None
  then have out: "peer \<notin> fst ` set (pw_failures w)" by (simp add: update_peer_None)
  then have "map_of (pw_failures w) peer = None" by (simp add: map_of_eq_None_iff)
  moreover have "map_of (tl (pw_failures w)) peer = None"
    using out by (cases "pw_failures w") (auto simp: map_of_eq_None_iff)
  ultimately show ?thesis
    using None by (auto simp: record_failure_def failures_of_def Let_def map_add_def)
next
  case (Some fs)
  then show ?thesis
    using record_failure_tracked(3,4) [OF Some]
    by (auto simp: record_failure_def failures_of_def)
qed

text \<open>A failure of one peer never raises the count of another; it may only evict it.\<close>

lemma failures_of_record_other:
  assumes "window_ok w" and "q \<noteq> peer"
  shows "failures_of (record_failure w peer) q \<in> {failures_of w q, 0}"
proof (cases "update_first (\<lambda>(i, _). i = peer) (\<lambda>(i, n). (i, u8_saturating_add n 1)) (pw_failures w)")
  case None
  have "map_of (tl (pw_failures w)) q \<in> {map_of (pw_failures w) q, None}"
    using assms(1) by (cases "pw_failures w") (auto simp: window_ok_def map_of_eq_None_iff)
  then show ?thesis
    using None assms(2) by (auto simp: record_failure_def failures_of_def Let_def map_add_def split: option.splits)
next
  case (Some fs)
  then show ?thesis
    using record_failure_tracked(3) [OF Some] assms(2)
    by (simp add: record_failure_def failures_of_def)
qed

lemma record_failure_frame [simp]:
  "pw_secret (record_failure w p) = pw_secret w"
  "pw_expires_at_ms (record_failure w p) = pw_expires_at_ms w"
  by (simp_all add: record_failure_def Let_def split: option.splits)

lemma secret_valid_record [simp]: "secret_valid cs (record_failure w p) s = secret_valid cs w s"
  by (cases "b64_decode cs s") (simp_all add: secret_valid_def)

text \<open>The manager of a window that is open with a given secret and expiry.\<close>

definition holds :: "PairingManager \<Rightarrow> bytes \<Rightarrow> i64 \<Rightarrow> PairingWindow \<Rightarrow> bool" where
  "holds pm secret expires w \<longleftrightarrow>
     pm_active pm = Some w \<and> window_ok w \<and> pw_secret w = secret \<and> pw_expires_at_ms w = expires"

lemma failed_attempt_keeps:
  assumes "holds pm secret expires w" and "now \<le> expires" and "\<not> secret_valid cs w supplied"
  shows "fst (verify_and_consume_at cs pm now peer supplied) = Inl Rejected"
    and "\<exists>w'. holds (snd (verify_and_consume_at cs pm now peer supplied)) secret expires w' \<and>
      (\<forall>q. q \<noteq> peer \<longrightarrow> failures_of w' q \<in> {failures_of w q, 0}) \<and>
      failures_of w' peer \<in> {failures_of w peer, min 255 (failures_of w peer + 1)} \<and>
      (failures_of w peer < 5 \<longrightarrow> failures_of w' peer = failures_of w peer + 1)"
proof -
  show "fst (verify_and_consume_at cs pm now peer supplied) = Inl Rejected"
    using assms by (auto simp: verify_and_consume_at_def holds_def)
  show "\<exists>w'. holds (snd (verify_and_consume_at cs pm now peer supplied)) secret expires w' \<and>
      (\<forall>q. q \<noteq> peer \<longrightarrow> failures_of w' q \<in> {failures_of w q, 0}) \<and>
      failures_of w' peer \<in> {failures_of w peer, min 255 (failures_of w peer + 1)} \<and>
      (failures_of w peer < 5 \<longrightarrow> failures_of w' peer = failures_of w peer + 1)"
  proof (cases "is_locked_out w peer")
    case True
    then show ?thesis
      using assms is_locked_out_iff
      by (intro exI [of _ w]) (auto simp: verify_and_consume_at_def holds_def)
  next
    case False
    then show ?thesis
      using assms record_failure_ok failures_of_record_same failures_of_record_other
      by (intro exI [of _ "record_failure w peer"]) (auto simp: verify_and_consume_at_def holds_def)
  qed
qed

lemma wrong_attempts_keep:
  assumes "holds pm secret expires w" and "failures_of w q = 0"
    and "\<forall>(now, peer, supplied) \<in> set as. now \<le> expires \<and> peer \<noteq> q \<and>
      \<not> (\<exists>s. b64_decode cs supplied = Some s \<and> s = secret)"
  shows "\<exists>w'. holds (attempts cs pm as) secret expires w' \<and> failures_of w' q = 0"
  using assms
proof (induction as arbitrary: pm w)
  case (Cons a as)
  obtain now peer supplied where a: "a = (now, peer, supplied)" by (cases a)
  have wrong: "\<not> secret_valid cs w supplied"
    using Cons.prems a by (auto simp: secret_valid_def holds_def split: option.splits)
  have now: "now \<le> expires" "q \<noteq> peer" using Cons.prems(3) a by auto
  from failed_attempt_keeps(2) [OF Cons.prems(1) now(1) wrong, of peer] obtain w' where
    w': "holds (snd (verify_and_consume_at cs pm now peer supplied)) secret expires w'"
    and other: "\<forall>q. q \<noteq> peer \<longrightarrow> failures_of w' q \<in> {failures_of w q, 0}" by blast
  have "failures_of w' q = 0" using other now(2) Cons.prems(2) by auto
  then show ?case using Cons.IH [OF w'] Cons.prems(3) a by simp
qed auto

section \<open>Properties\<close>

text \<open>
  A one-time secret works once, in time, for a peer that is not locked out: a verification succeeds
  exactly when a window is open, the request is not after its last millisecond, the peer has fewer than
  five recorded failures and the decoded bytes are the 32-byte secret; success closes the window, so that
  every later verification is refused until the operator opens another window.
\<close>

theorem pairing_secret_single_use:
  assumes "\<forall>w. pm_active pm = Some w \<longrightarrow> window_ok w"
  shows "(fst (verify_and_consume_at cs pm now peer supplied) = Inr () \<longleftrightarrow>
      (\<exists>w. pm_active pm = Some w \<and> now \<le> pw_expires_at_ms w \<and> failures_of w peer < 5 \<and>
         b64_decode cs supplied = Some (pw_secret w) \<and> length (pw_secret w) = PAIRING_SECRET_BYTES)) \<and>
    (fst (verify_and_consume_at cs pm now peer supplied) = Inr () \<longrightarrow>
      (\<forall>now' peer' supplied'.
         verify_and_consume_at cs (snd (verify_and_consume_at cs pm now peer supplied)) now' peer' supplied' =
         (Inl WindowClosed, pm\<lparr>pm_active := None\<rparr>)))"
proof (cases "pm_active pm")
  case None
  then show ?thesis by (simp add: verify_and_consume_at_def)
next
  case (Some w)
  then have "is_locked_out w peer \<longleftrightarrow> 5 \<le> failures_of w peer" using assms by (intro is_locked_out_iff) simp
  then show ?thesis
    using Some by (auto simp: verify_and_consume_at_def secret_valid_def split: option.splits)
qed

text \<open>A text encoding of bytes for the witnesses: one character per byte.\<close>

definition witness_bundle :: PairingBundle where
  "witness_bundle =
     \<lparr>pb_format_version = 1, pb_node_id = 0, pb_endpoint_id = ''e'', pb_direct_addresses = [],
      pb_relay_urls = [], pb_one_time_secret = ''s'', pb_expires_at_ms = 7\<rparr>"

definition plain_codecs :: codecs where
  "plain_codecs =
     \<lparr>b64_encode = map (\<lambda>b. char_of (unat b)), b64_decode = (\<lambda>s. Some (map (\<lambda>c. of_nat (of_char c)) s)),
      bundle_to_json = (\<lambda>_. Some []), bundle_of_json = (\<lambda>_. Some witness_bundle),
      endpoint_parse = (\<lambda>_. Some 1), relay_parse = Some\<rparr>"

lemma plain_b64_faithful: "b64_faithful plain_codecs"
proof -
  have "(of_nat (of_char (char_of (unat b) :: char)) :: u8) = b" for b
    using unat_u8_bound [of b] by simp
  then show ?thesis by (simp add: b64_faithful_def plain_codecs_def comp_def)
qed

lemma plain_b64_length: "b64_decode plain_codecs s = Some bs \<Longrightarrow> length bs = length s"
  by (auto simp: plain_codecs_def)

definition witness_secret :: bytes where "witness_secret = replicate 32 7"

definition witness_manager :: PairingManager where
  "witness_manager =
     \<lparr>pm_active = Some \<lparr>pw_secret = witness_secret, pw_expires_at_ms = 1000, pw_failures = []\<rparr>\<rparr>"

lemma witness_holds:
  "holds witness_manager witness_secret 1000
     \<lparr>pw_secret = witness_secret, pw_expires_at_ms = 1000, pw_failures = []\<rparr>"
  by (simp add: holds_def witness_manager_def window_ok_def)

theorem pairing_secret_single_use_witness:
  "fst (verify_and_consume_at plain_codecs witness_manager 1000 3 (b64_encode plain_codecs witness_secret)) = Inr () \<and>
   fst (verify_and_consume_at plain_codecs
     (snd (verify_and_consume_at plain_codecs witness_manager 1000 3 (b64_encode plain_codecs witness_secret)))
     1000 3 (b64_encode plain_codecs witness_secret)) = Inl WindowClosed"
proof -
  have "\<forall>w. pm_active witness_manager = Some w \<longrightarrow> window_ok w"
    by (simp add: witness_manager_def window_ok_def)
  moreover have "b64_decode plain_codecs (b64_encode plain_codecs witness_secret) = Some witness_secret"
    using plain_b64_faithful by (simp add: b64_faithful_def)
  ultimately show ?thesis
    using pairing_secret_single_use
      [of witness_manager plain_codecs 1000 3 "b64_encode plain_codecs witness_secret"]
    by (simp add: witness_manager_def failures_of_def witness_secret_def PAIRING_SECRET_BYTES_def)
qed

text \<open>
  A bystander cannot take the pairing window away: after any number of wrong guesses by any other
  peers, in any order and including ones that exhaust the failure table, the window is still open with the
  same secret and expiry, and the operator's own device, which never failed, pairs with the right secret up
  to the last millisecond.
\<close>

theorem bystander_cannot_close_window:
  assumes "holds pm secret expires w" and "failures_of w device = 0"
    and "length secret = PAIRING_SECRET_BYTES" and "b64_faithful cs"
    and "\<forall>(now, peer, supplied) \<in> set guesses. now \<le> expires \<and> peer \<noteq> device \<and>
      b64_decode cs supplied \<noteq> Some secret"
    and "now \<le> expires"
  shows "fst (verify_and_consume_at cs (attempts cs pm guesses) now device (b64_encode cs secret)) = Inr ()"
proof -
  obtain w' where w': "holds (attempts cs pm guesses) secret expires w'" "failures_of w' device = 0"
    using wrong_attempts_keep [OF assms(1,2), of guesses cs] assms(5) by auto
  then have "\<not> is_locked_out w' device" using is_locked_out_iff [of w' device] by (simp add: holds_def)
  then show ?thesis
    using w' assms(3,4,6)
    by (simp add: verify_and_consume_at_def holds_def secret_valid_def b64_faithful_def)
qed

theorem bystander_cannot_close_window_witness:
  "fst (verify_and_consume_at plain_codecs
     (attempts plain_codecs witness_manager [(1, 9, ''garbage''), (2, 9, ''AA''), (3, 8, ''BB'')])
     1000 3 (b64_encode plain_codecs witness_secret)) = Inr ()"
proof (rule bystander_cannot_close_window [OF witness_holds])
  show "\<forall>(now, peer, supplied) \<in> set [(1 :: int, 9 :: endpoint_id, ''garbage''), (2, 9, ''AA''), (3, 8, ''BB'')].
      now \<le> 1000 \<and> peer \<noteq> 3 \<and> b64_decode plain_codecs supplied \<noteq> Some witness_secret"
    by (auto simp: witness_secret_def dest!: plain_b64_length)
qed (simp_all add: plain_b64_faithful failures_of_def witness_secret_def PAIRING_SECRET_BYTES_def)

lemma five_failures:
  assumes "holds pm secret expires w" and "failures_of w peer + n \<le> 5"
    and "\<forall>(now, p, supplied) \<in> set as. now \<le> expires \<and> p = peer \<and> b64_decode cs supplied \<noteq> Some secret"
    and "length as = n"
  shows "\<exists>w'. holds (attempts cs pm as) secret expires w' \<and> failures_of w' peer = failures_of w peer + n"
  using assms
proof (induction as arbitrary: pm w n)
  case (Cons a as)
  obtain now supplied where a: "a = (now, peer, supplied)" "now \<le> expires"
    "b64_decode cs supplied \<noteq> Some secret" using Cons.prems(3) by (cases a) auto
  have wrong: "\<not> secret_valid cs w supplied"
    using Cons.prems(1) a by (auto simp: secret_valid_def holds_def split: option.splits)
  have less: "failures_of w peer < 5" using Cons.prems(2,4) by simp
  from failed_attempt_keeps(2) [OF Cons.prems(1) a(2) wrong, of peer] less obtain w' where
    w': "holds (snd (verify_and_consume_at cs pm now peer supplied)) secret expires w'"
      "failures_of w' peer = failures_of w peer + 1" by blast
  show ?case using Cons.IH [OF w'(1), of "n - 1"] Cons.prems a w'(2) by auto
qed auto

text \<open>
  Five wrong guesses lock a peer out: after five rejected attempts of one peer the sixth is rejected
  even with the right secret, while the window stays open; the table of failing peers never exceeds its
  bound and has one entry per peer.
\<close>

theorem five_failures_lock_out:
  assumes "holds pm secret expires w" and "failures_of w peer = 0"
    and "length guesses = 5"
    and "\<forall>(now, p, supplied) \<in> set guesses. now \<le> expires \<and> p = peer \<and>
      b64_decode cs supplied \<noteq> Some secret"
    and "now \<le> expires"
  shows "verify_and_consume_at cs (attempts cs pm guesses) now peer supplied =
      (Inl Rejected, attempts cs pm guesses) \<and> is_open (attempts cs pm guesses) \<and>
    (\<forall>w. pm_active (attempts cs pm guesses) = Some w \<longrightarrow>
       length (pw_failures w) \<le> MAX_TRACKED_FAILING_PEERS \<and> distinct (map fst (pw_failures w)))"
proof -
  obtain w' where w': "holds (attempts cs pm guesses) secret expires w'" "failures_of w' peer = 5"
    using five_failures [OF assms(1) _ assms(4,3)] assms(2) by auto
  then have "is_locked_out w' peer" using is_locked_out_iff [of w' peer] by (simp add: holds_def)
  then show ?thesis
    using w' assms(5) by (simp add: verify_and_consume_at_def holds_def is_open_def window_ok_def)
qed

theorem five_failures_lock_out_witness:
  "fst (verify_and_consume_at plain_codecs
     (attempts plain_codecs witness_manager (replicate 5 (1, 9, ''AA'')))
     2 9 (b64_encode plain_codecs witness_secret)) = Inl Rejected"
proof -
  have "b64_decode plain_codecs ''AA'' \<noteq> Some witness_secret"
    by (auto simp: witness_secret_def dest!: plain_b64_length)
  then show ?thesis
    using five_failures_lock_out [OF witness_holds, of 9 "replicate 5 (1, 9, ''AA'')" plain_codecs 2
        "b64_encode plain_codecs witness_secret"]
    by (simp add: failures_of_def)
qed

text \<open>
  A pairing bundle survives its text form: a version-1 bundle that serde reads back decodes to itself,
  and a text decodes only if it carries the prefix, base64 and a version-1 bundle.
\<close>

theorem bundle_roundtrip:
  assumes "b64_faithful cs" and "json_faithful cs b" and "pb_format_version b = 1"
  shows "rbind (bundle_encode cs b) (bundle_decode cs) = Inr b \<and>
    (\<forall>text b'. bundle_decode cs text = Inr b' \<longrightarrow>
       pb_format_version b' = 1 \<and>
       (\<exists>payload bytes. text = bundle_prefix @ payload \<and> b64_decode cs payload = Some bytes \<and>
          bundle_of_json cs bytes = Some b'))"
  using assms
  by (auto simp: bundle_encode_def bundle_decode_def json_faithful_def b64_faithful_def rbind_eq_Inr
      dest: strip_prefix_Some split: if_splits)

theorem bundle_roundtrip_witness:
  "rbind (bundle_encode plain_codecs witness_bundle) (bundle_decode plain_codecs) = Inr witness_bundle"
  using bundle_roundtrip [OF plain_b64_faithful, of witness_bundle]
  by (simp add: json_faithful_def plain_codecs_def witness_bundle_def)

text \<open>
  Re-pairing never restores permissions an operator narrowed, and the registry is durable: whatever
  happens to the write, the permissions in effect after \<open>authorize_preserving\<close> are the previous ones or, for
  a new peer only, the defaults; no other peer changes; a failed call changes nothing; and after any
  sequence of calls, failed ones included, a restart reads back exactly the registry in memory.
\<close>

theorem authorize_preserving_keeps_permissions:
  assumes "ids_faithful ids" and "codec_faithful c" and "synced c [] reg"
  shows "(case authorize_preserving ids c io (now, eid) reg of
      (Inl _, reg') \<Rightarrow> reg' = reg
    | (Inr perms, reg') \<Rightarrow>
        permissions ids reg' eid = Inr (Some perms) \<and>
        (case permissions ids reg eid of
           Inr (Some old) \<Rightarrow> perms = old
         | _ \<Rightarrow> perms = PeerPermissions_default) \<and>
        (\<forall>other. other \<noteq> eid \<longrightarrow> permissions ids reg' other = permissions ids reg other)) \<and>
    synced c [] (foldl (\<lambda>reg (io, a). snd (authorize_preserving ids c io a reg)) reg calls)"
proof -
  have inj: "endpoint_str ids other \<noteq> endpoint_str ids eid" if "other \<noteq> eid" for other
    using assms(1) that by (auto simp: ids_faithful_def dest: injD)
  show ?thesis
  proof (cases "authorize_preserving ids c io (now, eid) reg")
    case (Pair res reg')
    note durable = preserving_op.steps_synced [OF assms(2,3), of ids calls]
    show ?thesis
    proof (cases res)
      case (Inl e)
      then show ?thesis using Pair durable preserving_op.refused [of ids c io "(now, eid)" reg] by simp
    next
      case (Inr perms)
      note facts = authorize_preserving_Inr [OF Pair [unfolded Inr]]
      show ?thesis
        using Pair Inr durable facts(1,2) inj
        by (auto simp: permissions_def facts(3,4) peer_record_def split: option.splits)
    qed
  qed
qed

definition plain_file :: "(peers, peers) file_codec" where
  "plain_file = \<lparr>to_file = Some, of_file = Some\<rparr>"

definition witness_peers :: "peers peer_registry" where
  "witness_peers =
     (let rs = [(endpoint_str bit_ids 4,
                 peer_record (endpoint_str bit_ids 4) 1 \<lparr>pp_read_metrics = True, pp_read_history = False\<rparr>)]
      in \<lparr>reg_records = rs, reg_file = Some rs, reg_poisoned = False\<rparr>)"

theorem authorize_preserving_keeps_permissions_witness:
  "\<exists>perms reg'. authorize_preserving bit_ids plain_file (\<lambda>_. False) (5, 4) witness_peers = (Inr perms, reg') \<and>
     \<not> pp_read_history perms"
proof -
  have "codec_faithful plain_file" "synced plain_file [] witness_peers"
    by (simp_all add: codec_faithful_def plain_file_def synced_def witness_peers_def Let_def
        load_records_def outcome_of_def)
  note use = authorize_preserving_keeps_permissions [OF bit_ids_faithful this, where io = "\<lambda>_. False" and now = 5 and eid = 4]
  have "permissions bit_ids witness_peers 4 = Inr (Some \<lparr>pp_read_metrics = True, pp_read_history = False\<rparr>)"
    by (simp add: permissions_def witness_peers_def Let_def bt_get_def peer_record_def)
  moreover have "\<exists>perms reg'. authorize_preserving bit_ids plain_file (\<lambda>_. False) (5, 4) witness_peers = (Inr perms, reg')"
    by (simp add: authorize_preserving_def modify_def publish_def persist_records_def plain_file_def
        witness_peers_def Let_def split: option.splits)
  ultimately show ?thesis using use by auto
qed

end
