(* ===== verification/Mdns.thy ===== *)
theory Mdns
  imports Transport Btree
begin

text \<open>
  The short-lived pairing advertisement (\<open>crates/rackio-iroh/src/mdns.rs\<close>). An advertisement is what
  it publishes: the service, the label of the endpoint and its addresses by port. Every change of the
  state counts a generation, so that a timer can close exactly the advertisement it was started for.
\<close>

definition PAIRING_SERVICE_NAME :: string where
  "PAIRING_SERVICE_NAME = ''rackio-pairing-v1''"

datatype PairingMdnsError = NoDirectAddress | MdnsStart string

record PairingMdnsAdvertisement =
  ad_service :: string
  ad_label :: string
  ad_addresses :: "(u16, IpAddr list) btree"

record PairingMdnsState =
  md_generation :: u64
  md_active :: "PairingMdnsAdvertisement option"

definition PairingMdnsState_default :: PairingMdnsState where
  "PairingMdnsState_default = \<lparr>md_generation = 0, md_active = None\<rparr>"

definition add_address :: "(u16, IpAddr list) btree \<Rightarrow> SocketAddr \<Rightarrow> (u16, IpAddr list) btree" where
  "add_address m a =
     bt_insert (port a) ((case bt_get m (port a) of None \<Rightarrow> [] | Some ips \<Rightarrow> ips) @ [ip a]) m"

text \<open>\<open>addrs\<close> are the endpoint's own direct addresses, \<open>label\<close> its z-base-32 name, \<open>spawn\<close> the answer of
  the discovery library.\<close>

definition advertisement_start ::
  "SocketAddr list \<Rightarrow> string \<Rightarrow> string option \<Rightarrow> (PairingMdnsError, PairingMdnsAdvertisement) result" where
  "advertisement_start addrs label spawn =
     (let by_port = foldl add_address [] addrs in
      if by_port = [] then Inl NoDirectAddress
      else case spawn of
             Some err \<Rightarrow> Inl (MdnsStart err)
           | None \<Rightarrow> Inr \<lparr>ad_service = PAIRING_SERVICE_NAME, ad_label = label, ad_addresses = by_port\<rparr>)"

text \<open>The old lease is dropped and the generation counted before the new advertisement is started, so
  that a failed start leaves none.\<close>

definition mdns_open ::
  "PairingMdnsState \<Rightarrow> SocketAddr list \<Rightarrow> string \<Rightarrow> string option \<Rightarrow>
   (PairingMdnsError, u64) result \<times> PairingMdnsState" where
  "mdns_open st addrs label spawn =
     (let generation = u64_saturating_add (md_generation st) 1;
          dropped = \<lparr>md_generation = generation, md_active = None\<rparr>
      in case advertisement_start addrs label spawn of
           Inl e \<Rightarrow> (Inl e, dropped)
         | Inr ad \<Rightarrow> (Inr generation, dropped\<lparr>md_active := Some ad\<rparr>))"

definition mdns_close :: "PairingMdnsState \<Rightarrow> PairingMdnsState" where
  "mdns_close st = \<lparr>md_generation = u64_saturating_add (md_generation st) 1, md_active = None\<rparr>"

definition close_if_generation :: "PairingMdnsState \<Rightarrow> u64 \<Rightarrow> bool \<times> PairingMdnsState" where
  "close_if_generation st generation =
     (if md_generation st \<noteq> generation then (False, st)
      else (True, \<lparr>md_generation = u64_saturating_add (md_generation st) 1, md_active = None\<rparr>))"

section \<open>Lemmas\<close>

datatype mdns_step =
  MdnsOpen "SocketAddr list" string "string option"
| MdnsClose
| MdnsCloseIf u64

fun mdns_run :: "PairingMdnsState \<Rightarrow> mdns_step list \<Rightarrow> PairingMdnsState" where
  "mdns_run st [] = st"
| "mdns_run st (MdnsOpen addrs label spawn # rest) = mdns_run (snd (mdns_open st addrs label spawn)) rest"
| "mdns_run st (MdnsClose # rest) = mdns_run (mdns_close st) rest"
| "mdns_run st (MdnsCloseIf g # rest) = mdns_run (snd (close_if_generation st g)) rest"

lemma generation_open: "md_generation (snd (mdns_open st a l s)) = u64_saturating_add (md_generation st) 1"
  by (simp add: mdns_open_def Let_def split: sum.splits)

text \<open>The generation never decreases, and it grows with every effective step until it saturates.\<close>

lemma mdns_run_mono: "unat (md_generation st) \<le> unat (md_generation (mdns_run st steps))"
proof (induction steps arbitrary: st)
  case (Cons s steps)
  have bound: "unat g \<le> u64_max" for g :: u64
    using unat_u64_bound [of g] by (simp add: u64_max_def)
  have "unat (md_generation st) \<le> unat (md_generation (mdns_run st [s]))"
    using bound [of "md_generation st"]
    by (cases s) (auto simp: generation_open mdns_close_def close_if_generation_def)
  also have "\<dots> \<le> unat (md_generation (mdns_run st (s # steps)))"
    using Cons.IH [of "mdns_run st [s]"] by (cases s) simp_all
  finally show ?case .
qed simp

lemma bt_ok_add_address: "bt_ok m \<Longrightarrow> bt_ok (add_address m a)"
  by (simp add: add_address_def)

lemma by_port_lookup:
  "bt_get (foldl add_address m addrs) p =
     (let new = map ip (filter (\<lambda>a. port a = p) addrs)
      in case bt_get m p of
           Some old \<Rightarrow> Some (old @ new)
         | None \<Rightarrow> if new = [] then None else Some new)"
proof (induction addrs arbitrary: m)
  case (Cons a addrs)
  show ?case
    using Cons.IH [of "add_address m a"]
    by (cases "bt_get m p") (auto simp: add_address_def Let_def split: option.splits)
qed (simp add: Let_def split: option.splits)

section \<open>Properties\<close>

text \<open>
  A timer only ever closes the advertisement it was started for: once any later open or close has
  happened, closing by the old generation is refused and changes nothing (while the counter has not
  saturated), and before that it closes it. An advertisement publishes exactly the endpoint's own direct
  addresses, grouped by port in their order, and a failed start leaves none active.
\<close>

theorem mdns_timer_closes_only_its_own:
  assumes "mdns_open st addrs label spawn = (Inr g, st')" and "unat (md_generation st) + 2 \<le> u64_max"
  shows "md_active st' \<noteq> None \<and>
    close_if_generation st' g = (True, mdns_close st') \<and> md_active (mdns_close st') = None \<and>
    (\<forall>later. later \<in> {snd (mdns_open st' a l s), mdns_close st'} \<longrightarrow>
       close_if_generation (mdns_run later steps) g = (False, mdns_run later steps)) \<and>
    (\<forall>ad p. md_active st' = Some ad \<longrightarrow>
       (case bt_get (ad_addresses ad) p of None \<Rightarrow> [] | Some ips \<Rightarrow> ips) =
       map ip (filter (\<lambda>x. port x = p) addrs))"
proof -
  have g: "g = u64_saturating_add (md_generation st) 1" "md_generation st' = g"
    and active: "md_active st' \<noteq> None"
    using assms(1) by (auto simp: mdns_open_def Let_def split: sum.splits)
  have "unat g + 1 \<le> u64_max" using assms(2) g(1) by simp
  then have grow: "unat g < unat (u64_saturating_add g 1)" by simp
  have later: "close_if_generation (mdns_run l steps) g = (False, mdns_run l steps)"
    if "md_generation l = u64_saturating_add g 1" for l
  proof -
    have "unat g < unat (md_generation (mdns_run l steps))"
      using mdns_run_mono [of l steps] that grow by simp
    then have "md_generation (mdns_run l steps) \<noteq> g" by auto
    then show ?thesis by (simp add: close_if_generation_def)
  qed
  have "(case bt_get (ad_addresses ad) p of None \<Rightarrow> [] | Some ips \<Rightarrow> ips) =
      map ip (filter (\<lambda>x. port x = p) addrs)" if "md_active st' = Some ad" for ad p
    using assms(1) that by_port_lookup [of "[]" addrs p]
    by (auto simp: mdns_open_def advertisement_start_def Let_def split: sum.splits if_splits option.splits)
  moreover have "close_if_generation st' g = (True, mdns_close st')" "md_active (mdns_close st') = None"
    using g(2) by (simp_all add: close_if_generation_def mdns_close_def)
  moreover have "md_generation (snd (mdns_open st' a l s)) = u64_saturating_add g 1"
    "md_generation (mdns_close st') = u64_saturating_add g 1"
    using g(2) by (simp_all add: generation_open mdns_close_def)
  ultimately show ?thesis using active later by blast
qed

theorem mdns_timer_closes_only_its_own_witness:
  "\<exists>g st'. mdns_open PairingMdnsState_default [SocketV4 9 80, SocketV4 8 80] ''z'' None = (Inr g, st') \<and>
     close_if_generation (mdns_close st') g = (False, mdns_close st')"
proof -
  obtain r st' where run: "mdns_open PairingMdnsState_default [SocketV4 9 80, SocketV4 8 80] ''z'' None = (r, st')"
    by (cases "mdns_open PairingMdnsState_default [SocketV4 9 80, SocketV4 8 80] ''z'' None")
  have "is_ok (fst (mdns_open PairingMdnsState_default [SocketV4 9 80, SocketV4 8 80] ''z'' None))"
    by code_simp
  then obtain g where "r = Inr g" using run by (auto simp: is_ok_iff)
  with run have open_ok: "mdns_open PairingMdnsState_default [SocketV4 9 80, SocketV4 8 80] ''z'' None = (Inr g, st')"
    by simp
  have "close_if_generation (mdns_run (mdns_close st') []) g = (False, mdns_run (mdns_close st') [])"
    using mdns_timer_closes_only_its_own [OF open_ok, where steps = "[]"]
    by (simp add: PairingMdnsState_default_def u64_max_def)
  with open_ok show ?thesis by auto
qed

end
