(* ===== verification/Server.thy ===== *)
theory Server
  imports Storage Pairing Mdns
begin

text \<open>
  The remote server (\<open>crates/rackio-iroh/src/server.rs\<close>): the runtime an agent shares between its
  tasks, and the handling of one request on one stream. A stream is the list of responses written to
  it and how many more the transport will take, so that a peer that stops reading is a write error at
  any point. What changes between two pages of a history answer, because the sampler and the server
  take the store lock in turns, is a sequence of stores, one per page. Time, codecs and failures of
  the layers below are the fields of \<open>server_env\<close>.
\<close>

section \<open>Streams\<close>

definition HISTORY_PAGE_SIZE :: nat where "HISTORY_PAGE_SIZE = 256"

datatype ServerError =
  ServerConnection | ServerConnecting | ServerStream | ServerStreamClosed
| ServerPairing PairingError | ServerStore StoreError
| PairingStateUnavailable | ActiveConnectionStateUnavailable | RequestHeaderTimeout

record sink =
  sent :: "Response list"
  room :: "nat option"

type_synonym 'a reply = "(ServerError, 'a) result \<times> sink"

definition write_response :: "sink \<Rightarrow> Response \<Rightarrow> unit reply" where
  "write_response send body =
     (case room send of
        Some 0 \<Rightarrow> (Inl ServerStream, send)
      | Some (Suc n) \<Rightarrow> (Inr (), \<lparr>sent = sent send @ [body], room = Some n\<rparr>)
      | None \<Rightarrow> (Inr (), send\<lparr>sent := sent send @ [body]\<rparr>))"

definition then_reply :: "'a reply \<Rightarrow> ('a \<Rightarrow> sink \<Rightarrow> 'b reply) \<Rightarrow> 'b reply" where
  "then_reply r f = (case r of (Inl e, s) \<Rightarrow> (Inl e, s) | (Inr x, s) \<Rightarrow> f x s)"

fun write_responses :: "sink \<Rightarrow> Response list \<Rightarrow> unit reply" where
  "write_responses send [] = (Inr (), send)"
| "write_responses send (b # bs) =
     then_reply (write_response send b) (\<lambda>_ send'. write_responses send' bs)"

definition write_error :: "sink \<Rightarrow> string \<Rightarrow> string \<Rightarrow> unit reply" where
  "write_error send code message =
     write_response send (RError \<lparr>wer_code = code, wer_message = message\<rparr>)"

definition require_permission :: "sink \<Rightarrow> bool \<Rightarrow> string \<Rightarrow> bool reply" where
  "require_permission send allowed permission =
     (if allowed then (Inr True, send)
      else then_reply
        (write_error send ''permission_denied'' (''peer does not have '' @ permission @ '' permission''))
        (\<lambda>_ send'. (Inr False, send')))"

definition version_is_compatible :: "sink \<Rightarrow> w_ProtocolVersion \<Rightarrow> bool reply" where
  "version_is_compatible send version =
     (if compatible version then (Inr True, send)
      else then_reply
        (write_error send ''incompatible'' ''protocol major version is incompatible'')
        (\<lambda>_ send'. (Inr False, send')))"

section \<open>The runtime\<close>

record ('f, 'j, 'c) NodeRuntime =
  rt_info :: NodeInfo
  rt_health :: HealthSnapshot
  rt_latest :: "MetricSample option"
  rt_trend :: TrendWindow
  rt_store :: "'j MetricStore"
  rt_pairing :: PairingManager
  rt_pairing_poisoned :: bool
  rt_mdns :: PairingMdnsState
  rt_peers :: "'f peer_registry"
  rt_active :: "(string, (nat, 'c) btree) btree"
  rt_active_poisoned :: bool

record ('f, 'j) server_env =
  se_ids :: ids
  se_codecs :: codecs
  se_peer_file :: "(peers, 'f) file_codec"
  se_peer_io :: "nat \<Rightarrow> bool"
  se_json :: "'j codec"
  se_now_ms :: i64
  se_details :: "nat \<Rightarrow> ConnectionDetails"
  se_stores :: "nat \<Rightarrow> 'j MetricStore"
  se_sqlite :: "nat \<Rightarrow> sqlite_env"

text \<open>\<open>revoke_peer\<close> returns also the connections it closed.\<close>

definition revoke_peer ::
  "('f, 'j) server_env \<Rightarrow> ('f, 'j, 'c) NodeRuntime \<Rightarrow> string \<Rightarrow>
   (ServerError, bool) result \<times> 'c list \<times> ('f, 'j, 'c) NodeRuntime" where
  "revoke_peer env rt eid =
     (case revoke (se_peer_file env) (se_peer_io env) eid (rt_peers rt) of
        (Inl e, peers) \<Rightarrow> (Inl (ServerPairing e), [], rt\<lparr>rt_peers := peers\<rparr>)
      | (Inr removed, peers) \<Rightarrow>
          let rt' = rt\<lparr>rt_peers := peers\<rparr> in
          if \<not> removed then (Inr False, [], rt')
          else if rt_active_poisoned rt' then (Inl ActiveConnectionStateUnavailable, [], rt')
          else
            (Inr True,
             (case bt_get (rt_active rt') eid of None \<Rightarrow> [] | Some cs \<Rightarrow> bt_values cs),
             rt'\<lparr>rt_active := bt_remove eid (rt_active rt')\<rparr>))"

definition register_connection ::
  "ids \<Rightarrow> ('f, 'j, 'c) NodeRuntime \<Rightarrow> endpoint_id \<Rightarrow> nat \<Rightarrow> 'c \<Rightarrow>
   (ServerError, unit) result \<times> ('f, 'j, 'c) NodeRuntime" where
  "register_connection ids rt remote stable_id connection =
     (if rt_active_poisoned rt then (Inl ActiveConnectionStateUnavailable, rt)
      else
        let key = endpoint_str ids remote;
            connections = (case bt_get (rt_active rt) key of None \<Rightarrow> [] | Some cs \<Rightarrow> cs)
        in (Inr (), rt\<lparr>rt_active :=
              bt_insert key (bt_insert stable_id connection connections) (rt_active rt)\<rparr>))"

definition unregister_connection ::
  "ids \<Rightarrow> ('f, 'j, 'c) NodeRuntime \<Rightarrow> endpoint_id \<Rightarrow> nat \<Rightarrow> ('f, 'j, 'c) NodeRuntime" where
  "unregister_connection ids rt remote stable_id =
     (if rt_active_poisoned rt then rt
      else
        let key = endpoint_str ids remote in
        case bt_get (rt_active rt) key of
          None \<Rightarrow> rt
        | Some cs \<Rightarrow>
            let left = bt_remove stable_id cs in
            if left = [] then rt\<lparr>rt_active := bt_remove key (rt_active rt)\<rparr>
            else rt\<lparr>rt_active := bt_insert key left (rt_active rt)\<rparr>)"

section \<open>History\<close>

text \<open>\<open>page k cursor\<close> is the answer of the store to the k-th page request.\<close>

function history_loop ::
  "(nat \<Rightarrow> i64 \<Rightarrow> (StoreError, MetricSample list) result) \<Rightarrow> nat \<Rightarrow> i64 \<Rightarrow> sink \<Rightarrow> unit reply" where
  "history_loop page k cursor send =
     (case page k cursor of
        Inl e \<Rightarrow> (Inl (ServerStore e), send)
      | Inr [] \<Rightarrow> (Inr (), send)
      | Inr (s # ss) \<Rightarrow>
          (case write_responses send (map (\<lambda>x. RMetricSample (metric_sample_to_wire x)) (s # ss)) of
             (Inl e, send') \<Rightarrow> (Inl e, send')
           | (Inr _, send') \<Rightarrow>
               let next = i64_saturating_add (ms_timestamp_ms (last (s # ss))) 1 in
               if next \<le> cursor then (Inr (), send')
               else history_loop page (k + 1) next send'))"
  by pat_completeness auto

termination history_loop
proof (relation "measure (\<lambda>(page, k, cursor, send). nat (i64_max - cursor))", simp, goal_cases)
  case (1 page k cursor send a s ss b send' y x)
  then show ?case
    by (auto simp: i64_saturating_add_def i64_saturate_def i64_limits)
qed

declare history_loop.simps [simp del]

definition resolution_of :: "i32 \<Rightarrow> HistoryResolution option" where
  "resolution_of i = (if i = 1 then Some Raw else if i = 2 then Some Minute else None)"

definition handle_history ::
  "('f, 'j) server_env \<Rightarrow> sink \<Rightarrow> PeerPermissions \<Rightarrow> w_HistoryQuery \<Rightarrow> unit reply" where
  "handle_history env send perms q =
     then_reply (require_permission send (pp_read_history perms) ''read_history'') (\<lambda>allowed send.
       if \<not> allowed then (Inr (), send)
       else case whq_protocol q of
         None \<Rightarrow> write_error send ''invalid_request'' ''history protocol version is required''
       | Some version \<Rightarrow>
           then_reply (version_is_compatible send version) (\<lambda>ok send.
             if \<not> ok then (Inr (), send)
             else if whq_to_ms q < whq_from_ms q then
               write_error send ''invalid_range'' ''history range is reversed''
             else case resolution_of (whq_resolution q) of
               None \<Rightarrow> write_error send ''invalid_resolution'' ''history resolution is required''
             | Some resolution \<Rightarrow>
                 then_reply
                   (history_loop
                     (\<lambda>k cursor. query_page (se_sqlite env k) (se_json env) (se_stores env k) cursor
                        (whq_to_ms q) resolution HISTORY_PAGE_SIZE)
                     0 (whq_from_ms q) send)
                   (\<lambda>_ send. write_response send RStreamComplete)))"

section \<open>Requests\<close>

text \<open>\<open>settle\<close>: look again up to ten times while the path is unknown.\<close>

fun settle_from :: "(nat \<Rightarrow> ConnectionDetails) \<Rightarrow> nat \<Rightarrow> nat \<Rightarrow> ConnectionDetails \<Rightarrow> ConnectionDetails" where
  "settle_from classify look 0 details = details"
| "settle_from classify look (Suc budget) details =
     (if cd_path details \<noteq> UnknownPath then details
      else settle_from classify (look + 1) budget (classify look))"

definition settle :: "(nat \<Rightarrow> ConnectionDetails) \<Rightarrow> ConnectionDetails" where
  "settle classify = settle_from classify 1 10 (classify 0)"

text \<open>The events a live stream waits for: a new value of the channel, its end, or a heartbeat tick.\<close>

datatype watch_event = WatchChanged "MetricSample option" | WatchClosed | WatchTick i64

fun watch_events :: "MetricSample option \<Rightarrow> sink \<Rightarrow> watch_event list \<Rightarrow> unit reply" where
  "watch_events current send [] = (Inr (), send)"
| "watch_events current send (WatchClosed # _) = (Inr (), send)"
| "watch_events current send (WatchChanged (Some s) # rest) =
     then_reply (write_response send (RMetricSample (metric_sample_to_wire s)))
       (\<lambda>_ send. watch_events (Some s) send rest)"
| "watch_events current send (WatchChanged None # rest) = watch_events None send rest"
| "watch_events current send (WatchTick now # rest) =
     then_reply (write_response send (RHeartbeat
       \<lparr>whb_timestamp_ms = now,
        whb_sequence = (case current of None \<Rightarrow> 0 | Some s \<Rightarrow> ms_sequence s)\<rparr>))
       (\<lambda>_ send. watch_events current send rest)"

definition watch_metrics :: "sink \<Rightarrow> MetricSample option \<Rightarrow> watch_event list \<Rightarrow> unit reply" where
  "watch_metrics send current events =
     then_reply
       (case current of
          None \<Rightarrow> (Inr (), send)
        | Some s \<Rightarrow> write_response send (RMetricSample (metric_sample_to_wire s)))
       (\<lambda>_ send. watch_events current send events)"

text \<open>The guard the four metric requests share.\<close>

definition guarded ::
  "sink \<Rightarrow> PeerPermissions \<Rightarrow> w_ProtocolVersion \<Rightarrow> (sink \<Rightarrow> unit reply) \<Rightarrow> unit reply" where
  "guarded send perms version answer =
     then_reply (require_permission send (pp_read_metrics perms) ''read_metrics'') (\<lambda>allowed send.
       if \<not> allowed then (Inr (), send)
       else then_reply (version_is_compatible send version) (\<lambda>ok send.
         if \<not> ok then (Inr (), send) else answer send))"

definition handle_authorized ::
  "('f, 'j) server_env \<Rightarrow> endpoint_id \<Rightarrow> ('f, 'j, 'c) NodeRuntime \<Rightarrow> watch_event list \<Rightarrow>
   RequestBody \<Rightarrow> PeerPermissions \<Rightarrow> sink \<Rightarrow> unit reply" where
  "handle_authorized env local_id rt events body perms send =
     (case body of
        GetNodeInfo version \<Rightarrow>
          guarded send perms version (\<lambda>send.
            write_response send (RNodeInfo (node_info_to_wire (se_ids env) (rt_info rt) local_id)))
      | GetHealth version \<Rightarrow>
          guarded send perms version (\<lambda>send. write_response send (RHealth (health_to_wire (rt_health rt))))
      | GetConnectionPath version \<Rightarrow>
          guarded send perms version (\<lambda>send.
            let details = settle (se_details env)
            in write_response send (RConnectionPath (connection_details (cd_path details) (cd_rtt_ms details))))
      | WatchMetrics version \<Rightarrow>
          guarded send perms version (\<lambda>send. watch_metrics send (rt_latest rt) events)
      | QueryHistory q \<Rightarrow> handle_history env send perms q
      | Pair _ \<Rightarrow> (Inr (), send))"

definition handle_pair ::
  "('f, 'j) server_env \<Rightarrow> endpoint_id \<Rightarrow> endpoint_id \<Rightarrow> ('f, 'j, 'c) NodeRuntime \<Rightarrow> w_PairRequest \<Rightarrow>
   sink \<Rightarrow> unit reply \<times> ('f, 'j, 'c) NodeRuntime" where
  "handle_pair env remote_id local_id rt pair send =
     (if wpr_viewer_endpoint_id pair \<noteq> endpoint_str (se_ids env) remote_id then
        (write_error send ''identity_mismatch'' ''claimed viewer identity does not match the QUIC peer'', rt)
      else if rt_pairing_poisoned rt then ((Inl PairingStateUnavailable, send), rt)
      else
        let (verified, pairing) =
              verify_and_consume_at (se_codecs env) (rt_pairing rt) (se_now_ms env) remote_id
                (wpr_one_time_secret pair);
            rt = rt\<lparr>rt_pairing := pairing\<rparr>;
            rt = (if is_open pairing then rt else rt\<lparr>rt_mdns := mdns_close (rt_mdns rt)\<rparr>)
        in case verified of
             Inl _ \<Rightarrow> (write_error send ''pairing_rejected'' ''pairing request was rejected'', rt)
           | Inr _ \<Rightarrow>
               (case authorize_preserving (se_ids env) (se_peer_file env) (se_peer_io env)
                       (se_now_ms env, remote_id) (rt_peers rt) of
                  (Inl e, peers) \<Rightarrow> ((Inl (ServerPairing e), send), rt\<lparr>rt_peers := peers\<rparr>)
                | (Inr _, peers) \<Rightarrow>
                    (write_response send (RPair
                       \<lparr>wps_accepted = True, wps_node_id = uuid_str (se_ids env) (ni_node_id (rt_info rt)),
                        wps_endpoint_id = endpoint_str (se_ids env) local_id\<rparr>),
                     rt\<lparr>rt_peers := peers\<rparr>)))"

definition handle_request ::
  "('f, 'j) server_env \<Rightarrow> endpoint_id \<Rightarrow> endpoint_id \<Rightarrow> ('f, 'j, 'c) NodeRuntime \<Rightarrow> watch_event list \<Rightarrow>
   RequestBody option \<Rightarrow> sink \<Rightarrow> unit reply \<times> ('f, 'j, 'c) NodeRuntime" where
  "handle_request env remote_id local_id rt events request send =
     (case request of
        None \<Rightarrow> (write_error send ''invalid_request'' ''request body is required'', rt)
      | Some (Pair pair) \<Rightarrow> handle_pair env remote_id local_id rt pair send
      | Some body \<Rightarrow>
          (case permissions (se_ids env) (rt_peers rt) remote_id of
             Inl e \<Rightarrow> ((Inl (ServerPairing e), send), rt)
           | Inr None \<Rightarrow> (write_error send ''auth_error'' ''peer is not authorized'', rt)
           | Inr (Some perms) \<Rightarrow> (handle_authorized env local_id rt events body perms send, rt)))"

text \<open>One stream of a connection: the request must arrive in time and the stream be finished.\<close>

datatype header = HeaderTimeout | HeaderFrame "(FrameError, RequestBody option) result"

definition handle_stream ::
  "('f, 'j) server_env \<Rightarrow> endpoint_id \<Rightarrow> endpoint_id \<Rightarrow> ('f, 'j, 'c) NodeRuntime \<Rightarrow> watch_event list \<Rightarrow>
   header \<Rightarrow> bool \<Rightarrow> unit reply \<times> ('f, 'j, 'c) NodeRuntime" where
  "handle_stream env remote_id local_id rt events header finish_ok =
     (case header of
        HeaderTimeout \<Rightarrow> ((Inl RequestHeaderTimeout, \<lparr>sent = [], room = None\<rparr>), rt)
      | HeaderFrame (Inl _) \<Rightarrow> ((Inl ServerStream, \<lparr>sent = [], room = None\<rparr>), rt)
      | HeaderFrame (Inr request) \<Rightarrow>
          (case handle_request env remote_id local_id rt events request \<lparr>sent = [], room = None\<rparr> of
             ((Inl e, send), rt') \<Rightarrow> ((Inl e, send), rt')
           | ((Inr _, send), rt') \<Rightarrow>
               ((if finish_ok then Inr () else Inl ServerStreamClosed, send), rt')))"


text \<open>
  A connection is accepted stream by stream until the peer closes it or it fails; the streams are handled
  by tasks of their own, which take effect in the order they are listed here. A list of events that ends
  without a closing one is a connection that is still open (\<open>None\<close>).
\<close>

datatype accept_event = StreamAccepted "watch_event list" header bool | PeerClosed | ConnectionLost

fun handle_connection ::
  "('f, 'j) server_env \<Rightarrow> endpoint_id \<Rightarrow> endpoint_id \<Rightarrow> ('f, 'j, 'c) NodeRuntime \<Rightarrow> accept_event list \<Rightarrow>
   (ServerError, unit) result option \<times> ('f, 'j, 'c) NodeRuntime" where
  "handle_connection env remote_id local_id rt [] = (None, rt)"
| "handle_connection env remote_id local_id rt (PeerClosed # _) = (Some (Inr ()), rt)"
| "handle_connection env remote_id local_id rt (ConnectionLost # _) = (Some (Inl ServerConnection), rt)"
| "handle_connection env remote_id local_id rt (StreamAccepted events header finish_ok # rest) =
     handle_connection env remote_id local_id
       (snd (handle_stream env remote_id local_id rt events header finish_ok)) rest"

text \<open>One turn of \<open>RemoteServer::run\<close>: the task spawned for an incoming connection.\<close>

definition serve_incoming ::
  "('f, 'j) server_env \<Rightarrow> bool \<Rightarrow> endpoint_id \<Rightarrow> endpoint_id \<Rightarrow> nat \<Rightarrow> 'c \<Rightarrow> accept_event list \<Rightarrow>
   ('f, 'j, 'c) NodeRuntime \<Rightarrow> (ServerError, unit) result option \<times> ('f, 'j, 'c) NodeRuntime" where
  "serve_incoming env handshake_ok remote_id local_id stable_id connection accepted rt =
     (if \<not> handshake_ok then (Some (Inl ServerConnecting), rt)
      else case register_connection (se_ids env) rt remote_id stable_id connection of
        (Inl e, rt) \<Rightarrow> (Some (Inl e), rt)
      | (Inr _, rt) \<Rightarrow>
          (case handle_connection env remote_id local_id rt accepted of
             (None, rt) \<Rightarrow> (None, rt)
           | (Some outcome, rt) \<Rightarrow>
               (Some outcome, unregister_connection (se_ids env) rt remote_id stable_id)))"

section \<open>Writing\<close>

lemma then_reply_simps [simp]:
  "then_reply (Inl e, s) f = (Inl e, s)"
  "then_reply (Inr x, s) f = f x s"
  by (simp_all add: then_reply_def)

lemma then_reply_assoc:
  "then_reply (then_reply r f) g = then_reply r (\<lambda>x s. then_reply (f x s) g)"
  by (auto simp: then_reply_def split: prod.splits sum.splits)

lemma write_response_open [simp]:
  "room send = None \<Longrightarrow> write_response send b = (Inr (), send\<lparr>sent := sent send @ [b]\<rparr>)"
  by (simp add: write_response_def)

lemma write_responses_open [simp]:
  "room send = None \<Longrightarrow> write_responses send bs = (Inr (), send\<lparr>sent := sent send @ bs\<rparr>)"
  by (induction bs arbitrary: send) simp_all

lemma write_responses_append:
  "write_responses send (as @ bs) =
     then_reply (write_responses send as) (\<lambda>_ s. write_responses s bs)"
proof (induction as arbitrary: send)
  case (Cons a as)
  then show ?case by (simp add: then_reply_assoc)
qed simp

text \<open>Whatever the transport takes, what was written is a prefix of what was meant to be written.\<close>

lemma write_responses_prefix:
  "write_responses send bs = (r, send') \<Longrightarrow>
     \<exists>as cs. bs = as @ cs \<and> sent send' = sent send @ as \<and> (r = Inr () \<longrightarrow> cs = []) \<and>
       (room send = None \<longrightarrow> room send' = None)"
proof (induction bs arbitrary: send)
  case (Cons b bs)
  show ?case
  proof (cases "write_response send b")
    case (Pair r1 send1)
    then consider "r1 = Inl ServerStream" "send1 = send" "room send \<noteq> None" |
      "r1 = Inr ()" "sent send1 = sent send @ [b]" "room send = None \<longrightarrow> room send1 = None"
      by (auto simp: write_response_def split: option.splits nat.splits)
    then show ?thesis
    proof cases
      case 1
      with Pair Cons.prems show ?thesis by (intro exI [of _ "[]"] exI [of _ "b # bs"]) auto
    next
      case 2
      with Pair Cons.prems have "write_responses send1 bs = (r, send')" by simp
      from Cons.IH [OF this] 2 show ?thesis
        by clarsimp
    qed
  qed
qed simp

section \<open>Paging\<close>

lemma history_loop_error: "page k cursor = Inl e \<Longrightarrow> history_loop page k cursor send = (Inl (ServerStore e), send)"
  by (subst history_loop.simps) simp

lemma history_loop_empty: "page k cursor = Inr [] \<Longrightarrow> history_loop page k cursor send = (Inr (), send)"
  by (subst history_loop.simps) simp

abbreviation sample_response :: "MetricSample \<Rightarrow> Response" where
  "sample_response s \<equiv> RMetricSample (metric_sample_to_wire s)"

lemma history_loop_page:
  assumes "page k cursor = Inr ss" and "ss \<noteq> []"
  shows "history_loop page k cursor send =
    then_reply (write_responses send (map sample_response ss)) (\<lambda>_ send'.
      let next = i64_saturating_add (ms_timestamp_ms (last ss)) 1
      in if next \<le> cursor then (Inr (), send') else history_loop page (k + 1) next send')"
proof (cases ss)
  case (Cons s ss')
  with assms(1) have page: "page k cursor = Inr (s # ss')" by simp
  show ?thesis
    unfolding Cons by (subst history_loop.simps)
      (simp only: page then_reply_def sum.case list.case split: prod.splits sum.splits)
qed (use assms in simp)

lemma sorted_take_rest:
  fixes ts :: "'a \<Rightarrow> int"
  assumes "sorted_wrt (<) (map ts xs)" and "take n xs \<noteq> []"
  shows "filter (\<lambda>x. ts (last (take n xs)) + 1 \<le> ts x) xs = drop n xs"
proof -
  obtain ys l where take: "take n xs = ys @ [l]" using assms(2) by (meson rev_exhaust)
  have "sorted_wrt (<) (map ts ((ys @ [l]) @ drop n xs))"
    using assms(1) by (simp flip: take)
  then have "\<forall>x \<in> set (take n xs). \<not> ts l + 1 \<le> ts x" "\<forall>x \<in> set (drop n xs). ts l + 1 \<le> ts x"
    unfolding take by (auto simp: sorted_wrt_append)
  then have "filter (\<lambda>x. ts l + 1 \<le> ts x) (take n xs @ drop n xs) = [] @ drop n xs"
    unfolding filter_append by (intro arg_cong2 [where f = append] filter_False filter_True)
  then show ?thesis unfolding append_take_drop_id by (simp add: take)
qed

text \<open>After a page that ends inside the range the cursor goes just past it, without saturating.\<close>

lemma history_loop_next:
  assumes page: "page k a = Inr ss" and "ss \<noteq> []"
    and "a \<le> ms_timestamp_ms (last ss)" and "ms_timestamp_ms (last ss) \<le> b"
    and "b < i64_max" and "i64_min \<le> a"
  shows "history_loop page k a send = then_reply (write_responses send (map sample_response ss))
    (\<lambda>_ s. history_loop page (k + 1) (ms_timestamp_ms (last ss) + 1) s)"
proof -
  have step: "i64_saturating_add (ms_timestamp_ms (last ss)) 1 = ms_timestamp_ms (last ss) + 1"
    using assms(3-6) by (simp add: i64_saturating_add_def i64_saturate_def)
  show ?thesis
    unfolding history_loop_page [where page = page, OF assms(1,2)] step Let_def using assms(3) by simp
qed

lemma sorted_page_rest:
  fixes ts :: "'a \<Rightarrow> int" and xs :: "'a list" and a b :: int and n :: nat
  defines "page \<equiv> take n (filter (\<lambda>x. a \<le> ts x \<and> ts x \<le> b) xs)"
  assumes "sorted_wrt (<) (map ts xs)" and "page \<noteq> []"
  shows "a \<le> ts (last page)" and "ts (last page) \<le> b"
    and "filter (\<lambda>x. ts (last page) + 1 \<le> ts x \<and> ts x \<le> b) xs =
      drop n (filter (\<lambda>x. a \<le> ts x \<and> ts x \<le> b) xs)"
proof -
  let ?xs = "filter (\<lambda>x. a \<le> ts x \<and> ts x \<le> b) xs"
  have "last page \<in> set ?xs" using assms(3) unfolding page_def by (meson in_set_takeD last_in_set)
  then show last: "a \<le> ts (last page)" "ts (last page) \<le> b" by simp_all
  have "filter (\<lambda>x. ts (last page) + 1 \<le> ts x \<and> ts x \<le> b) xs =
      filter (\<lambda>x. ts (last page) + 1 \<le> ts x) ?xs"
    using last unfolding filter_filter by (intro filter_cong) auto
  also have "\<dots> = drop n ?xs"
    using assms(2,3) unfolding page_def
    by (intro sorted_take_rest) (simp_all add: sorted_wrt_map sorted_wrt_filter)
  finally show "filter (\<lambda>x. ts (last page) + 1 \<le> ts x \<and> ts x \<le> b) xs = drop n ?xs" .
qed

text \<open>
  What the paging loop needs of a store: it answers the first rows of a range, and no two rows of the
  answer have the same time. The loop sends every row of the range exactly once, whatever the page
  size is.
\<close>

locale paged_source =
  fixes usable :: "'src \<Rightarrow> bool"
    and fetch :: "'src \<Rightarrow> i64 \<Rightarrow> i64 \<Rightarrow> nat \<Rightarrow> (StoreError, MetricSample list) result"
    and rows :: "'src \<Rightarrow> MetricSample list"
  assumes fetch_first: "usable src \<Longrightarrow> limit \<le> nat i64_max \<Longrightarrow>
      fetch src a b limit =
        Inr (take limit (filter (\<lambda>s. a \<le> ms_timestamp_ms s \<and> ms_timestamp_ms s \<le> b) (rows src)))"
    and rows_sorted: "usable src \<Longrightarrow> sorted_wrt (<) (map ms_timestamp_ms (rows src))"
begin

lemma history_loop_sends_range:
  assumes "\<And>k. usable (srcs k) \<and> rows (srcs k) = R"
    and "0 < limit" and "limit \<le> nat i64_max" and "b < i64_max" and "i64_min \<le> a"
  shows "history_loop (\<lambda>k cursor. fetch (srcs k) cursor b limit) k a send =
    write_responses send (map sample_response
      (filter (\<lambda>s. a \<le> ms_timestamp_ms s \<and> ms_timestamp_ms s \<le> b) R))"
  using assms(5)
proof (induction "nat (i64_max - a)" arbitrary: a k send rule: less_induct)
  case less
  let ?in = "\<lambda>a s. a \<le> ms_timestamp_ms s \<and> ms_timestamp_ms s \<le> b"
  let ?loop = "history_loop (\<lambda>k cursor. fetch (srcs k) cursor b limit)"
  let ?page = "take limit (filter (?in a) R)"
  have page: "fetch (srcs k) a b limit = Inr ?page"
    using assms(1) [of k] fetch_first [of "srcs k" limit a b] assms(3) by simp
  show ?case
  proof (cases "?page = []")
    case True
    then have none: "filter (?in a) R = []" using assms(2) by simp
    have "?loop k a send = (Inr (), send)"
      using page unfolding True by (rule history_loop_empty)
    then show ?thesis using none by simp
  next
    case False
    let ?last = "ms_timestamp_ms (last ?page)"
    have "sorted_wrt (<) (map ms_timestamp_ms R)" using rows_sorted [of "srcs 0"] assms(1) [of 0] by simp
    note page_facts = sorted_page_rest [OF this False]
    have IH: "?loop (k + 1) (?last + 1) s =
        write_responses s (map sample_response (drop limit (filter (?in a) R)))" for s
      using less.hyps [of "?last + 1" "k + 1" s] page_facts(1,2) less.prems assms(4)
      unfolding page_facts(3) by simp
    have "?loop k a send = then_reply (write_responses send (map sample_response ?page))
        (\<lambda>_ s. ?loop (k + 1) (?last + 1) s)"
      by (rule history_loop_next [where b = b and page = "\<lambda>k cursor. fetch (srcs k) cursor b limit",
            OF page False page_facts(1,2) assms(4) less.prems])
    also have "\<dots> = write_responses send (map sample_response ?page @
        map sample_response (drop limit (filter (?in a) R)))"
      by (simp only: IH write_responses_append)
    also have "\<dots> = write_responses send (map sample_response (filter (?in a) R))"
      by (simp flip: map_append)
    finally show ?thesis .
  qed
qed

end

text \<open>The two tables of the store are such sources.\<close>

record 'j raw_source =
  rs_codec :: "'j codec"
  rs_store :: "'j MetricStore"
  rs_hist :: "MetricSample list"
  rs_env :: sqlite_env

definition raw_usable :: "'j raw_source \<Rightarrow> bool" where
  "raw_usable src \<longleftrightarrow> represents (rs_codec src) (rs_store src) (rs_hist src) \<and>
     (\<forall>s \<in> set (rs_hist src). from_json (rs_codec src) (the (to_json (rs_codec src) s)) = Some s) \<and>
     (\<forall>n. \<not> fails (rs_env src) n)"

definition raw_fetch ::
  "'j raw_source \<Rightarrow> i64 \<Rightarrow> i64 \<Rightarrow> nat \<Rightarrow> (StoreError, MetricSample list) result" where
  "raw_fetch src a b limit = query_page (rs_env src) (rs_codec src) (rs_store src) a b Raw limit"

definition raw_rows :: "'j raw_source \<Rightarrow> MetricSample list" where
  "raw_rows src = sort_key ms_timestamp_ms (rs_hist src)"

definition minute_usable :: "'j raw_source \<Rightarrow> bool" where
  "minute_usable src \<longleftrightarrow> bt_ok (minute_metrics (rs_store src)) \<and> (\<forall>n. \<not> fails (rs_env src) n) \<and>
     (\<forall>r \<in> set (minute_metrics (rs_store src)). is_ok (minute_sample (rs_codec src) r))"

definition minute_fetch ::
  "'j raw_source \<Rightarrow> i64 \<Rightarrow> i64 \<Rightarrow> nat \<Rightarrow> (StoreError, MetricSample list) result" where
  "minute_fetch src a b limit = query_page (rs_env src) (rs_codec src) (rs_store src) a b Minute limit"

definition minute_rows :: "'j raw_source \<Rightarrow> MetricSample list" where
  "minute_rows src =
     map (\<lambda>r. the (result_ok (minute_sample (rs_codec src) r))) (minute_metrics (rs_store src))"

lemma represents_strict:
  assumes "represents codec st hist"
  shows "sorted_wrt (<) (map ms_timestamp_ms (sort_key ms_timestamp_ms hist))"
proof -
  have "bt_ok (metric_samples st)" using assms by (simp add: represents_def)
  then show ?thesis
    unfolding raw_table_sorted [OF assms] by (simp add: bt_ok_def comp_def)
qed

interpretation raw_pages: paged_source raw_usable raw_fetch raw_rows
proof
  show "raw_fetch src a b limit = Inr (take limit
      (filter (\<lambda>s. a \<le> ms_timestamp_ms s \<and> ms_timestamp_ms s \<le> b) (raw_rows src)))"
    if "raw_usable src" "limit \<le> nat i64_max" for src :: "'a raw_source" and a b limit
    using that query_raw_exact [of "rs_codec src" "rs_store src" "rs_hist src" "rs_env src" a b limit]
    by (simp add: raw_usable_def raw_fetch_def raw_rows_def query_page_def min_def)
  show "sorted_wrt (<) (map ms_timestamp_ms (raw_rows src))" if "raw_usable src" for src :: "'a raw_source"
    using that represents_strict unfolding raw_usable_def raw_rows_def by blast
qed

lemma minute_rows_ok:
  assumes "minute_usable src" and "r \<in> set (minute_metrics (rs_store src))"
  shows "minute_sample (rs_codec src) r = Inr (the (result_ok (minute_sample (rs_codec src) r)))"
    and "ms_timestamp_ms (the (result_ok (minute_sample (rs_codec src) r))) = fst r"
proof -
  obtain s where "minute_sample (rs_codec src) r = Inr s"
    using assms by (auto simp: minute_usable_def is_ok_iff)
  then show "minute_sample (rs_codec src) r = Inr (the (result_ok (minute_sample (rs_codec src) r)))"
    and "ms_timestamp_ms (the (result_ok (minute_sample (rs_codec src) r))) = fst r"
    using minute_sample_timestamp [of "rs_codec src" "fst r" "snd r"] by simp_all
qed

interpretation minute_pages: paged_source minute_usable minute_fetch minute_rows
proof
  fix src :: "'a raw_source" and a b :: i64 and limit :: nat
  let ?conv = "\<lambda>r. the (result_ok (minute_sample (rs_codec src) r))"
  let ?table = "minute_metrics (rs_store src)"
  assume src: "minute_usable src"
  show "sorted_wrt (<) (map ms_timestamp_ms (minute_rows src))"
  proof -
    have "map ms_timestamp_ms (minute_rows src) = map fst ?table"
      using minute_rows_ok(2) [OF src] by (simp add: minute_rows_def)
    then show ?thesis using src by (simp add: minute_usable_def bt_ok_def)
  qed
  assume limit: "limit \<le> nat i64_max"
  let ?sel = "select_range a b limit ?table"
  have "map (minute_sample (rs_codec src)) ?sel = map Inr (map ?conv ?sel)"
    using minute_rows_ok(1) [OF src]
    by (auto simp: select_range_def dest!: in_set_takeD)
  then have "minute_fetch src a b limit = Inr (map ?conv ?sel)"
    using src by (simp add: minute_fetch_def query_page_def query_minute_def minute_usable_def
        query_rows_ok collect_results_eq_Inr)
  moreover have "map ?conv ?sel = take limit
      (filter (\<lambda>s. a \<le> ms_timestamp_ms s \<and> ms_timestamp_ms s \<le> b) (minute_rows src))"
    using limit minute_rows_ok(2) [OF src]
    by (simp add: select_range_def min_def take_map filter_map minute_rows_def comp_def
        case_prod_beta cong: filter_cong)
  ultimately show "minute_fetch src a b limit = Inr (take limit
      (filter (\<lambda>s. a \<le> ms_timestamp_ms s \<and> ms_timestamp_ms s \<le> b) (minute_rows src)))"
    by simp
qed

section \<open>Paging while the store changes\<close>

lemma write_samples_prefix:
  assumes "write_responses send (map sample_response ss) = (r, send')"
  shows "\<exists>us vs. ss = us @ vs \<and> sent send' = sent send @ map sample_response us \<and> (r = Inr () \<longrightarrow> vs = [])"
proof -
  obtain as cs where "map sample_response ss = as @ cs" "sent send' = sent send @ as" "r = Inr () \<longrightarrow> cs = []"
    using write_responses_prefix [OF assms] by blast
  then show ?thesis by (force simp: map_eq_append_conv)
qed

text \<open>
  The sampler inserts and prunes between two pages, so the k-th page comes from the k-th store.
\<close>

context paged_source
begin

definition paging_ok :: "(nat \<Rightarrow> 'src) \<Rightarrow> i64 \<Rightarrow> i64 \<Rightarrow> MetricSample list \<Rightarrow> bool" where
  "paging_ok srcs a b ss \<longleftrightarrow> sorted_wrt (<) (map ms_timestamp_ms ss) \<and>
     (\<forall>s \<in> set ss. a \<le> ms_timestamp_ms s \<and> ms_timestamp_ms s \<le> b \<and> (\<exists>k. s \<in> set (rows (srcs k))))"

definition stable :: "(nat \<Rightarrow> 'src) \<Rightarrow> i64 \<Rightarrow> i64 \<Rightarrow> MetricSample set" where
  "stable srcs a b = {s. a \<le> ms_timestamp_ms s \<and> ms_timestamp_ms s \<le> b \<and> (\<forall>k. s \<in> set (rows (srcs k)))}"

lemma fetched_page:
  assumes "usable (srcs k)" and "limit \<le> nat i64_max" and "fetch (srcs k) a b limit = Inr ss"
  shows "paging_ok srcs a b ss"
    and "s \<in> stable srcs a b \<Longrightarrow> 0 < limit \<Longrightarrow>
      s \<in> set ss \<or> ss \<noteq> [] \<and> ms_timestamp_ms (last ss) < ms_timestamp_ms s"
proof -
  let ?rows = "filter (\<lambda>s. a \<le> ms_timestamp_ms s \<and> ms_timestamp_ms s \<le> b) (rows (srcs k))"
  have ss: "ss = take limit ?rows" using fetch_first [OF assms(1,2), of a b] assms(3) by simp
  have sorted: "sorted_wrt (<) (map ms_timestamp_ms ?rows)"
    using rows_sorted [OF assms(1)] by (simp add: sorted_wrt_map sorted_wrt_filter)
  then show "paging_ok srcs a b ss"
    unfolding paging_ok_def ss by (auto simp: sorted_wrt_take simp flip: take_map dest!: in_set_takeD)
  assume s: "s \<in> stable srcs a b" and "0 < limit"
  then have mem: "s \<in> set (take limit ?rows @ drop limit ?rows)"
    by (simp add: stable_def)
  then have ne: "ss \<noteq> []" using \<open>0 < limit\<close> unfolding ss by (cases ?rows) auto
  show "s \<in> set ss \<or> ss \<noteq> [] \<and> ms_timestamp_ms (last ss) < ms_timestamp_ms s"
  proof (cases "s \<in> set ss")
    case False
    then have "s \<in> set (drop limit ?rows)" using mem unfolding ss set_append by blast
    then have "s \<in> set (filter (\<lambda>x. ms_timestamp_ms (last ss) + 1 \<le> ms_timestamp_ms x) ?rows)"
      using sorted_take_rest [OF sorted, of limit] ne unfolding ss by simp
    then show ?thesis using ne by simp
  qed simp
qed

lemma paging_ok_prefix: "paging_ok srcs a b (us @ vs) \<Longrightarrow> paging_ok srcs a b us"
  by (auto simp: paging_ok_def sorted_wrt_append)

lemma paging_ok_append:
  assumes "paging_ok srcs a b us" and "us \<noteq> []" and "paging_ok srcs (ms_timestamp_ms (last us) + 1) b vs"
  shows "paging_ok srcs a b (us @ vs)"
proof -
  obtain ys l where us: "us = ys @ [l]" using assms(2) by (meson rev_exhaust)
  show ?thesis using assms(1,3) unfolding us paging_ok_def by (force simp: sorted_wrt_append)
qed

lemma history_loop_concurrent:
  assumes "\<And>k. usable (srcs k)" and "0 < limit" and "limit \<le> nat i64_max" and "b < i64_max"
    and "i64_min \<le> a" and "history_loop (\<lambda>k cursor. fetch (srcs k) cursor b limit) k a send = (r, send')"
  shows "\<exists>ss. sent send' = sent send @ map sample_response ss \<and> paging_ok srcs a b ss \<and>
    (r = Inr () \<longrightarrow> stable srcs a b \<subseteq> set ss) \<and> (room send = None \<longrightarrow> r = Inr () \<and> room send' = None)"
  using assms(5,6)
proof (induction "nat (i64_max - a)" arbitrary: a k send rule: less_induct)
  case less
  let ?loop = "history_loop (\<lambda>k cursor. fetch (srcs k) cursor b limit)"
  obtain ss where page: "fetch (srcs k) a b limit = Inr ss"
    using fetch_first [OF assms(1,3)] by metis
  note facts = fetched_page [where srcs = srcs and k = k, OF assms(1,3) page]
  show ?case
  proof (cases "ss = []")
    case True
    with page less.prems(2) have "r = Inr ()" "send' = send"
      using history_loop_empty [where page = "\<lambda>k cursor. fetch (srcs k) cursor b limit"] by simp_all
    then show ?thesis using facts True assms(2) by auto
  next
    case False
    let ?last = "ms_timestamp_ms (last ss)"
    have last: "a \<le> ?last" "?last \<le> b" using facts(1) False by (auto simp: paging_ok_def)
    obtain r1 send1 where w: "write_responses send (map sample_response ss) = (r1, send1)" by fastforce
    obtain us vs where us: "ss = us @ vs" "sent send1 = sent send @ map sample_response us"
      "r1 = Inr () \<longrightarrow> vs = []" using write_samples_prefix [OF w] by blast
    have loop: "then_reply (r1, send1) (\<lambda>_ s. ?loop (k + 1) (?last + 1) s) = (r, send')"
      using less.prems(2)
      unfolding history_loop_next [where b = b and page = "\<lambda>k cursor. fetch (srcs k) cursor b limit",
          OF page False last assms(4) less.prems(1)] w .
    show ?thesis
    proof (cases r1)
      case (Inl e)
      then have "r \<noteq> Inr ()" "send' = send1" using loop by auto
      moreover have "room send \<noteq> None" using Inl w by (metis Inl_Inr_False prod.inject write_responses_open)
      ultimately show ?thesis using us facts(1) paging_ok_prefix by auto
    next
      case (Inr u)
      then have "?loop (k + 1) (?last + 1) send1 = (r, send')" using loop by simp
      from less.hyps [OF _ _ this] last less.prems(1) assms(4) obtain vs' where
        vs': "sent send' = sent send1 @ map sample_response vs'" "paging_ok srcs (?last + 1) b vs'"
          "r = Inr () \<longrightarrow> stable srcs (?last + 1) b \<subseteq> set vs'"
          "room send1 = None \<longrightarrow> r = Inr () \<and> room send' = None" by auto
      have "s \<in> set (ss @ vs')" if "r = Inr ()" "s \<in> stable srcs a b" for s
        using facts(2) [OF that(2) assms(2)] that vs'(3) by (auto simp: stable_def subset_iff)
      then have "stable srcs a b \<subseteq> set (ss @ vs')" if "r = Inr ()" using that by blast
      moreover have "sent send' = sent send @ map sample_response (ss @ vs')"
        using us vs'(1) Inr by simp
      moreover have "room send = None \<longrightarrow> room send1 = None" using w by auto
      ultimately show ?thesis
        using vs'(4) paging_ok_append [OF facts(1) False vs'(2)] by (intro exI [of _ "ss @ vs'"]) simp
    qed
  qed
qed

end

section \<open>Who may read what\<close>

definition entitled :: "PeerPermissions option \<Rightarrow> RequestBody \<Rightarrow> bool" where
  "entitled perms body =
     (case perms of
        None \<Rightarrow> False
      | Some p \<Rightarrow> (case body of QueryHistory _ \<Rightarrow> pp_read_history p | _ \<Rightarrow> pp_read_metrics p))"

definition refusal :: "PeerPermissions option \<Rightarrow> RequestBody \<Rightarrow> w_ErrorResponse" where
  "refusal perms body =
     (case perms of
        None \<Rightarrow> \<lparr>wer_code = ''auth_error'', wer_message = ''peer is not authorized''\<rparr>
      | Some _ \<Rightarrow>
          \<lparr>wer_code = ''permission_denied'',
           wer_message = ''peer does not have '' @
             (case body of QueryHistory _ \<Rightarrow> ''read_history'' | _ \<Rightarrow> ''read_metrics'') @ '' permission''\<rparr>)"

lemma then_reply_unit: "then_reply (then_reply (r :: unit reply) (\<lambda>_ s. (Inr False, s)))
    (\<lambda>allowed s. if \<not> allowed then (Inr (), s) else f s) = r"
  by (auto simp: then_reply_def split: prod.splits sum.splits)

lemma guarded_refused:
  "\<not> pp_read_metrics p \<Longrightarrow> guarded send p version answer =
     write_error send ''permission_denied'' (''peer does not have '' @ ''read_metrics'' @ '' permission'')"
  unfolding guarded_def require_permission_def by (simp only: if_False then_reply_unit)

lemma handle_history_refused:
  "\<not> pp_read_history p \<Longrightarrow> handle_history env send p q =
     write_error send ''permission_denied'' (''peer does not have '' @ ''read_history'' @ '' permission'')"
  unfolding handle_history_def require_permission_def by (simp only: if_False then_reply_unit)

lemma handle_request_refused:
  assumes "permissions (se_ids env) (rt_peers rt) remote_id = Inr perms"
    and "\<not> entitled perms body" and "\<forall>pair. body \<noteq> Pair pair"
  shows "handle_request env remote_id local_id rt events (Some body) send =
    (write_response send (RError (refusal perms body)), rt)"
proof (cases perms)
  case None
  then show ?thesis
    using assms by (cases body) (simp_all add: handle_request_def refusal_def write_error_def)
next
  case (Some p)
  then show ?thesis
    using assms
    by (cases body)
      (simp_all add: handle_request_def handle_authorized_def refusal_def write_error_def entitled_def
        guarded_refused handle_history_refused)
qed

lemma handle_request_reads_only:
  assumes "\<forall>pair. request \<noteq> Some (Pair pair)"
  shows "snd (handle_request env remote_id local_id rt events request send) = rt"
  using assms
  by (auto simp: handle_request_def split: option.splits RequestBody.splits sum.splits)

lemma handle_request_allowed:
  assumes "permissions (se_ids env) (rt_peers rt) remote_id = Inr (Some p)" and "\<forall>pair. body \<noteq> Pair pair"
  shows "handle_request env remote_id local_id rt events (Some body) send =
    (handle_authorized env local_id rt events body p send, rt)"
  using assms by (cases body) (simp_all add: handle_request_def)

section \<open>Who gets in\<close>

definition accepts :: "('f, 'j) server_env \<Rightarrow> PairingManager \<Rightarrow> endpoint_id \<Rightarrow> w_PairRequest \<Rightarrow> bool" where
  "accepts env pm remote_id pair \<longleftrightarrow>
     wpr_viewer_endpoint_id pair = endpoint_str (se_ids env) remote_id \<and>
     (case pm_active pm of
        None \<Rightarrow> False
      | Some w \<Rightarrow> se_now_ms env \<le> pw_expires_at_ms w \<and> \<not> is_locked_out w remote_id \<and>
          secret_valid (se_codecs env) w (wpr_one_time_secret pair))"

lemma verify_accepts:
  assumes "wpr_viewer_endpoint_id pair = endpoint_str (se_ids env) remote_id"
  shows "fst (verify_and_consume_at (se_codecs env) pm (se_now_ms env) remote_id (wpr_one_time_secret pair)) = Inr ()
    \<longleftrightarrow> accepts env pm remote_id pair"
    and "accepts env pm remote_id pair \<Longrightarrow>
      snd (verify_and_consume_at (se_codecs env) pm (se_now_ms env) remote_id (wpr_one_time_secret pair)) =
        pm\<lparr>pm_active := None\<rparr>"
  using assms by (auto simp: verify_and_consume_at_def accepts_def split: option.splits)

lemma verify_never_opens:
  "pm_active pm = None \<Longrightarrow> pm_active (snd (verify_and_consume_at cs pm now peer s)) = None"
  by (simp add: verify_and_consume_at_def)

text \<open>What a pairing request can do to the runtime.\<close>

lemma handle_pair_cases:
  obtains (refused) "rt_peers (snd (handle_pair env remote_id local_id rt pair send)) = rt_peers rt"
      "pm_active (rt_pairing rt) = None \<longrightarrow>
         pm_active (rt_pairing (snd (handle_pair env remote_id local_id rt pair send))) = None"
    | (accepted) "accepts env (rt_pairing rt) remote_id pair"
      "pm_active (rt_pairing (snd (handle_pair env remote_id local_id rt pair send))) = None"
      "md_active (rt_mdns (snd (handle_pair env remote_id local_id rt pair send))) = None"
      "rt_peers (snd (handle_pair env remote_id local_id rt pair send)) =
         snd (authorize_preserving (se_ids env) (se_peer_file env) (se_peer_io env)
           (se_now_ms env, remote_id) (rt_peers rt))"
proof (cases "accepts env (rt_pairing rt) remote_id pair \<and> \<not> rt_pairing_poisoned rt")
  case True
  then have id: "wpr_viewer_endpoint_id pair = endpoint_str (se_ids env) remote_id"
    by (simp add: accepts_def)
  have v: "verify_and_consume_at (se_codecs env) (rt_pairing rt) (se_now_ms env) remote_id
      (wpr_one_time_secret pair) = (Inr (), (rt_pairing rt)\<lparr>pm_active := None\<rparr>)"
    using verify_accepts [OF id, of "rt_pairing rt"] True by (metis prod.collapse)
  show ?thesis
    using True id v
    by (intro accepted)
      (auto simp: handle_pair_def is_open_def mdns_close_def Let_def split: prod.splits sum.splits)
next
  case False
  show ?thesis
  proof (cases "rt_pairing_poisoned rt \<or> wpr_viewer_endpoint_id pair \<noteq> endpoint_str (se_ids env) remote_id")
    case True
    then show ?thesis by (intro refused) (auto simp: handle_pair_def)
  next
    case ok: False
    obtain e pm' where v: "verify_and_consume_at (se_codecs env) (rt_pairing rt) (se_now_ms env) remote_id
        (wpr_one_time_secret pair) = (Inl e, pm')"
      using verify_accepts(1) [of pair env remote_id "rt_pairing rt"] ok False
      by (cases "verify_and_consume_at (se_codecs env) (rt_pairing rt) (se_now_ms env) remote_id
        (wpr_one_time_secret pair)", cases "fst (verify_and_consume_at (se_codecs env) (rt_pairing rt)
        (se_now_ms env) remote_id (wpr_one_time_secret pair))") auto
    have "pm_active (rt_pairing rt) = None \<longrightarrow> pm_active pm' = None"
      using verify_never_opens v by (metis snd_conv)
    then show ?thesis
      using ok v by (intro refused) (auto simp: handle_pair_def Let_def split: prod.splits)
  qed
qed

lemma handle_request_peers:
  obtains (same) "rt_peers (snd (handle_request env remote_id local_id rt events request send)) = rt_peers rt"
    | (paired) pair where "request = Some (Pair pair)" "accepts env (rt_pairing rt) remote_id pair"
      "pm_active (rt_pairing (snd (handle_request env remote_id local_id rt events request send))) = None"
      "md_active (rt_mdns (snd (handle_request env remote_id local_id rt events request send))) = None"
      "rt_peers (snd (handle_request env remote_id local_id rt events request send)) =
         snd (authorize_preserving (se_ids env) (se_peer_file env) (se_peer_io env)
           (se_now_ms env, remote_id) (rt_peers rt))"
proof (cases "\<exists>pair. request = Some (Pair pair)")
  case True
  then obtain pair where pair: "request = Some (Pair pair)" by blast
  then have eq: "handle_request env remote_id local_id rt events request send =
      handle_pair env remote_id local_id rt pair send" by (simp add: handle_request_def)
  show ?thesis
  proof (cases env remote_id local_id rt pair send rule: handle_pair_cases)
    case refused
    then show ?thesis by (intro same) (simp add: eq)
  next
    case accepted
    show ?thesis by (rule paired) (fact pair, simp_all only: eq accepted)
  qed
next
  case False
  then show ?thesis using handle_request_reads_only same by metis
qed

section \<open>Connections\<close>

text \<open>The table of live connections: ordered, and without empty entries.\<close>

definition active_ok :: "('f, 'j, 'c) NodeRuntime \<Rightarrow> bool" where
  "active_ok rt \<longleftrightarrow> bt_ok (rt_active rt) \<and>
     (\<forall>key cs. bt_get (rt_active rt) key = Some cs \<longrightarrow> bt_ok cs) \<and>
     (\<forall>key. bt_get (rt_active rt) key \<noteq> Some [])"

definition connections_of :: "('f, 'j, 'c) NodeRuntime \<Rightarrow> string \<Rightarrow> (nat, 'c) btree" where
  "connections_of rt key = (case bt_get (rt_active rt) key of None \<Rightarrow> [] | Some cs \<Rightarrow> cs)"

lemma bt_insert_not_Nil [simp]: "bt_insert k v m \<noteq> []"
  using keys_bt_insert [of k v m] by auto

lemma bt_small [simp]:
  "bt_ok [(k, v)]"
  "bt_get [(k, v)] j = (if j = k then Some v else None)"
  "bt_remove k [] = []"
  by (simp_all add: bt_ok_def bt_get_def bt_remove_def)

lemma register_connection_effect:
  assumes "active_ok rt" and "register_connection ids rt remote sid c = (Inr (), rt')"
  shows "active_ok rt'"
    and "bt_get (connections_of rt' (endpoint_str ids remote)) sid = Some c"
    and "key \<noteq> endpoint_str ids remote \<Longrightarrow> connections_of rt' key = connections_of rt key"
  using assms
  by (auto simp: register_connection_def active_ok_def connections_of_def Let_def
      split: if_splits option.splits)

lemma unregister_connection_effect:
  assumes "active_ok rt" and "\<not> rt_active_poisoned rt"
  shows "active_ok (unregister_connection ids rt remote sid)"
    and "connections_of (unregister_connection ids rt remote sid) key =
      (if key = endpoint_str ids remote then bt_remove sid (connections_of rt key) else connections_of rt key)"
  using assms
  by (auto simp: unregister_connection_def active_ok_def connections_of_def Let_def
      split: if_splits option.splits)

lemma revoke_Inr:
  assumes "revoke c io key reg = (Inr removed, reg')"
  shows "\<not> reg_poisoned reg" and "\<not> reg_poisoned reg'"
    and "removed \<longleftrightarrow> bt_get (reg_records reg) key \<noteq> None"
    and "reg_records reg' = (if removed then bt_remove key (reg_records reg) else reg_records reg)"
  using modify_eq_Inr [OF assms [unfolded revoke_def]] by (auto split: if_splits)

lemma permissions_revoked:
  assumes "revoke c io key reg = (Inr removed, reg')"
  shows "permissions ids reg' eid =
    (if endpoint_str ids eid = key then Inr None else permissions ids reg eid)"
  using revoke_Inr [OF assms] by (auto simp: permissions_def)

section \<open>Properties\<close>

text \<open>
  C4. A peer that lacks the permission for a request learns nothing from it: whatever the two runtimes,
  stores and live events behind the server are, as long as the peer's own standing is the same, it
  receives the same single error response (or the same write failure), and the runtime is unchanged.
\<close>

theorem unentitled_peer_learns_nothing:
  assumes "permissions (se_ids env1) (rt_peers rt1) remote_id = Inr perms"
    and "permissions (se_ids env2) (rt_peers rt2) remote_id = Inr perms"
    and "\<not> entitled perms body" and "\<forall>pair. body \<noteq> Pair pair"
  shows "\<exists>reply. handle_request env1 remote_id local1 rt1 events1 (Some body) send = (reply, rt1) \<and>
    handle_request env2 remote_id local2 rt2 events2 (Some body) send = (reply, rt2) \<and>
    (sent (snd reply) = sent send \<or>
     (\<exists>e. sent (snd reply) = sent send @ [RError e] \<and>
        wer_code e = (if perms = None then ''auth_error'' else ''permission_denied'')))"
proof -
  let ?reply = "write_response send (RError (refusal perms body))"
  have "sent (snd ?reply) = sent send \<or> sent (snd ?reply) = sent send @ [RError (refusal perms body)]"
    by (auto simp: write_response_def split: option.splits nat.splits)
  moreover have "wer_code (refusal perms body) = (if perms = None then ''auth_error'' else ''permission_denied'')"
    by (simp add: refusal_def split: option.splits)
  ultimately show ?thesis
    using handle_request_refused [OF assms(1,3,4)] handle_request_refused [OF assms(2,3,4)] by auto
qed

text \<open>
  C5. Pairing is the only way in. If handling a request changes what some peer may do, then that peer is
  the authenticated sender, it sent a pairing request naming itself with the secret of an open, unexpired
  window it was not locked out of; it was unknown before and now has the default permissions; and both the
  window and its advertisement are closed.
\<close>

theorem pairing_is_the_only_way_in:
  assumes "ids_faithful (se_ids env)"
    and "handle_request env remote_id local_id rt events request send = (reply, rt')"
    and "permissions (se_ids env) (rt_peers rt') eid \<noteq> permissions (se_ids env) (rt_peers rt) eid"
  shows "eid = remote_id \<and> permissions (se_ids env) (rt_peers rt) eid = Inr None \<and>
    permissions (se_ids env) (rt_peers rt') eid = Inr (Some PeerPermissions_default) \<and>
    (\<exists>pair. request = Some (Pair pair) \<and> accepts env (rt_pairing rt) remote_id pair) \<and>
    pm_active (rt_pairing rt') = None \<and> md_active (rt_mdns rt') = None"
proof -
  have rt': "rt' = snd (handle_request env remote_id local_id rt events request send)"
    using assms(2) by simp
  show ?thesis
  proof (rule handle_request_peers [of env remote_id local_id rt events request send], goal_cases same paired)
    case same
    then show ?thesis using assms(3) rt' by simp
  next
    case (paired pair)
    let ?auth = "authorize_preserving (se_ids env) (se_peer_file env) (se_peer_io env)
      (se_now_ms env, remote_id) (rt_peers rt)"
    have peers: "rt_peers rt' = snd ?auth" using paired(5) rt' by simp
    obtain perms where auth: "?auth = (Inr perms, rt_peers rt')"
      using assms(3) peers preserving_op.refused [of "se_ids env" "se_peer_file env" "se_peer_io env"
          "(se_now_ms env, remote_id)" "rt_peers rt"]
      by (cases ?auth; cases "fst ?auth") auto
    note facts = authorize_preserving_Inr [OF auth]
    have "eid = remote_id"
    proof (rule ccontr)
      assume "eid \<noteq> remote_id"
      then have "endpoint_str (se_ids env) eid \<noteq> endpoint_str (se_ids env) remote_id"
        using assms(1) by (auto simp: ids_faithful_def dest: injD)
      then show False using assms(3) facts(1,2) by (simp add: permissions_def facts(4))
    qed
    moreover have "permissions (se_ids env) (rt_peers rt) remote_id = Inr None \<and>
        permissions (se_ids env) (rt_peers rt') remote_id = Inr (Some PeerPermissions_default)"
      using assms(3) facts(1-3) calculation
      by (auto simp: permissions_def facts(4) peer_record_def split: option.splits)
    ultimately show ?thesis using paired(1-4) unfolding rt' by blast
  qed
qed

text \<open>
  C12. Revoking a peer takes effect at once: when \<open>revoke_peer\<close> reports success the peer is not in the
  registry, every connection it had registered is among the closed ones and none is left in the table, and
  neither the permissions nor the connections of any other peer change. When it reports that there was
  nothing to revoke, nothing was closed and the connection table is the old one.
\<close>

theorem revoke_peer_tears_down:
  assumes "ids_faithful (se_ids env)" and "active_ok rt"
    and "revoke_peer env rt (endpoint_str (se_ids env) eid) = (Inr removed, torn, rt')"
  shows "permissions (se_ids env) (rt_peers rt') eid = Inr None \<and> active_ok rt' \<and>
    (if removed then
       connections_of rt' (endpoint_str (se_ids env) eid) = [] \<and>
       (\<forall>c. c \<in> set torn \<longleftrightarrow> (\<exists>sid. bt_get (connections_of rt (endpoint_str (se_ids env) eid)) sid = Some c))
     else torn = [] \<and> rt_active rt' = rt_active rt) \<and>
    (\<forall>other. other \<noteq> eid \<longrightarrow>
       permissions (se_ids env) (rt_peers rt') other = permissions (se_ids env) (rt_peers rt) other \<and>
       connections_of rt' (endpoint_str (se_ids env) other) =
         connections_of rt (endpoint_str (se_ids env) other))"
proof -
  let ?key = "endpoint_str (se_ids env) eid"
  have inj: "endpoint_str (se_ids env) other \<noteq> ?key" if "other \<noteq> eid" for other
    using assms(1) that by (auto simp: ids_faithful_def dest: injD)
  obtain peers where rev: "revoke (se_peer_file env) (se_peer_io env) ?key (rt_peers rt) = (Inr removed, peers)"
    and peers: "rt_peers rt' = peers"
    using assms(3) by (auto simp: revoke_peer_def Let_def split: prod.splits sum.splits if_splits)
  note perms = permissions_revoked [OF rev, of "se_ids env"]
  show ?thesis
  proof (cases removed)
    case True
    then have torn: "torn = bt_values (connections_of rt ?key)"
      and active: "rt_active rt' = bt_remove ?key (rt_active rt)"
      using assms(3) rev
      by (auto simp: revoke_peer_def connections_of_def Let_def split: if_splits option.splits)
    have "bt_ok (connections_of rt ?key)"
      using assms(2) by (auto simp: active_ok_def connections_of_def split: option.splits)
    then have "c \<in> set torn \<longleftrightarrow> (\<exists>sid. bt_get (connections_of rt ?key) sid = Some c)" for c
      unfolding torn by (rule set_bt_values)
    moreover have "connections_of rt' key = (if key = ?key then [] else connections_of rt key)" for key
      by (simp add: connections_of_def active)
    moreover have "active_ok rt'" using assms(2) by (simp add: active_ok_def active)
    ultimately show ?thesis using True perms peers inj by simp
  next
    case False
    then have "torn = []" "rt_active rt' = rt_active rt"
      using assms(3) rev by (auto simp: revoke_peer_def Let_def)
    then show ?thesis
      using False perms peers inj assms(2) by (auto simp: active_ok_def connections_of_def)
  qed
qed

lemma handle_history_allowed:
  assumes "pp_read_history p" and "whq_protocol q = Some version" and "compatible version"
    and "whq_from_ms q \<le> whq_to_ms q" and "resolution_of (whq_resolution q) = Some resolution"
  shows "handle_history env send p q = then_reply
    (history_loop (\<lambda>k cursor. query_page (se_sqlite env k) (se_json env) (se_stores env k) cursor
       (whq_to_ms q) resolution HISTORY_PAGE_SIZE) 0 (whq_from_ms q) send)
    (\<lambda>_ send. write_response send RStreamComplete)"
  using assms by (simp add: handle_history_def require_permission_def version_is_compatible_def)

definition source_at :: "('f, 'j) server_env \<Rightarrow> (nat \<Rightarrow> MetricSample list) \<Rightarrow> nat \<Rightarrow> 'j raw_source" where
  "source_at env hist k =
     \<lparr>rs_codec = se_json env, rs_store = se_stores env k, rs_hist = hist k, rs_env = se_sqlite env k\<rparr>"

lemma page_size_ok: "0 < HISTORY_PAGE_SIZE" "HISTORY_PAGE_SIZE \<le> nat i64_max"
  by (simp_all add: HISTORY_PAGE_SIZE_def i64_limits)

text \<open>
  A history answer over a store that does not change is exactly the stored history of the range: an
  entitled peer that asks for minutes with a compatible version receives every minute point of the range once,
  in time order, followed by the end marker, whatever the number of pages this takes.
\<close>

theorem minute_history_stream_exact:
  assumes "permissions (se_ids env) (rt_peers rt) remote_id = Inr (Some p)" and "pp_read_history p"
    and "whq_protocol q = Some version" and "compatible version"
    and "i64_min \<le> whq_from_ms q" and "whq_from_ms q \<le> whq_to_ms q" and "whq_to_ms q < i64_max"
    and "whq_resolution q = 2" and "room send = None"
    and "\<forall>k. minute_usable (source_at env hist k) \<and> se_stores env k = store"
  shows "handle_request env remote_id local_id rt events (Some (QueryHistory q)) send =
    ((Inr (), send\<lparr>sent := sent send @
        map sample_response (filter (\<lambda>s. whq_from_ms q \<le> ms_timestamp_ms s \<and> ms_timestamp_ms s \<le> whq_to_ms q)
          (minute_rows (source_at env hist 0))) @ [RStreamComplete]\<rparr>), rt)"
proof -
  have rows: "minute_rows (source_at env hist k) = minute_rows (source_at env hist 0)" for k
    using assms(10) by (simp add: minute_rows_def source_at_def)
  have usable: "minute_usable (source_at env hist k)" for k using assms(10) by blast
  have loop: "history_loop (\<lambda>k cursor. query_page (se_sqlite env k) (se_json env) (se_stores env k) cursor
        (whq_to_ms q) Minute HISTORY_PAGE_SIZE) 0 (whq_from_ms q) send =
      write_responses send (map sample_response
        (filter (\<lambda>s. whq_from_ms q \<le> ms_timestamp_ms s \<and> ms_timestamp_ms s \<le> whq_to_ms q)
          (minute_rows (source_at env hist 0))))"
    using minute_pages.history_loop_sends_range [where srcs = "source_at env hist" and k = 0,
        OF conjI page_size_ok assms(7,5), of "minute_rows (source_at env hist 0)" send,
        OF usable rows]
    by (simp add: minute_fetch_def source_at_def)
  have "resolution_of (whq_resolution q) = Some Minute" using assms(8) by (simp add: resolution_of_def)
  note history = handle_history_allowed [OF assms(2-4,6) this, of env send]
  show ?thesis
    using assms(1,9) by (simp add: handle_request_def handle_authorized_def history loop)
qed


text \<open>Handling streams never touches the connection table.\<close>

lemma handle_pair_active [simp]:
  "rt_active (snd (handle_pair env remote_id local_id rt pair send)) = rt_active rt"
  "rt_active_poisoned (snd (handle_pair env remote_id local_id rt pair send)) = rt_active_poisoned rt"
  by (auto simp: handle_pair_def Let_def split: prod.splits sum.splits)

lemma handle_request_active [simp]:
  "rt_active (snd (handle_request env remote_id local_id rt events request send)) = rt_active rt"
  "rt_active_poisoned (snd (handle_request env remote_id local_id rt events request send)) = rt_active_poisoned rt"
  by (auto simp: handle_request_def split: option.splits RequestBody.splits sum.splits)

lemma handle_stream_runtime:
  "snd (handle_stream env remote_id local_id rt events header finish_ok) =
     (case header of HeaderFrame (Inr request) \<Rightarrow>
        snd (handle_request env remote_id local_id rt events request \<lparr>sent = [], room = None\<rparr>)
      | _ \<Rightarrow> rt)"
  by (auto simp: handle_stream_def split: header.splits sum.splits prod.splits)

lemma handle_connection_active [simp]:
  "rt_active (snd (handle_connection env remote_id local_id rt accepted)) = rt_active rt"
  "rt_active_poisoned (snd (handle_connection env remote_id local_id rt accepted)) = rt_active_poisoned rt"
  by (induction env remote_id local_id rt accepted rule: handle_connection.induct)
    (simp_all add: handle_stream_runtime split: header.splits sum.splits)

text \<open>
  No connection leaks: whatever the peer does on it and however it ends, a connection whose task has
  finished is out of the table of live connections, the table is well formed, without empty entries, and
  what it held of every other connection is unchanged.
\<close>

theorem finished_connection_unregistered:
  assumes "ids_faithful (se_ids env)" and "active_ok rt"
    and "bt_get (connections_of rt (endpoint_str (se_ids env) remote_id)) stable_id = None"
    and "serve_incoming env handshake_ok remote_id local_id stable_id connection accepted rt = (Some outcome, rt')"
  shows "active_ok rt' \<and> (\<forall>key sid. bt_get (connections_of rt' key) sid = bt_get (connections_of rt key) sid)"
proof (cases "handshake_ok \<and> \<not> rt_active_poisoned rt")
  case False
  then show ?thesis
    using assms(2,4) by (auto simp: serve_incoming_def register_connection_def split: if_splits)
next
  case True
  let ?key = "endpoint_str (se_ids env) remote_id"
  obtain rt1 where reg: "register_connection (se_ids env) rt remote_id stable_id connection = (Inr (), rt1)"
    and poison: "\<not> rt_active_poisoned rt1"
    using True by (auto simp: register_connection_def Let_def)
  note effect = register_connection_effect [OF assms(2) reg]
  have ins: "connections_of rt1 ?key = bt_insert stable_id connection (connections_of rt ?key)"
    using reg True by (auto simp: register_connection_def connections_of_def Let_def split: option.splits)
  obtain r rt2 where rt2: "handle_connection env remote_id local_id rt1 accepted = (r, rt2)" by fastforce
  have active: "rt_active rt2 = rt_active rt1" "\<not> rt_active_poisoned rt2"
    using handle_connection_active [of env remote_id local_id rt1 accepted] rt2 poison by simp_all
  have rt': "rt' = unregister_connection (se_ids env) rt2 remote_id stable_id"
    using assms(4) True reg rt2 by (auto simp: serve_incoming_def split: option.splits)
  have ok2: "active_ok rt2" using effect(1) active by (simp add: active_ok_def)
  note un = unregister_connection_effect [OF ok2 active(2), of "se_ids env" remote_id stable_id, folded rt']
  have same: "connections_of rt2 key = connections_of rt1 key" for key
    by (simp add: connections_of_def active)
  have "bt_get (connections_of rt' key) sid = bt_get (connections_of rt key) sid" for key sid
    using assms(3) effect(3) [of key] by (auto simp: un(2) same ins)
  then show ?thesis using un(1) by blast
qed

section \<open>Witnesses\<close>

definition witness_info :: NodeInfo where
  "witness_info = \<lparr>ni_node_id = 5, ni_display_name = ''n'', ni_os = ''linux'', ni_architecture = ''x'',
     ni_agent_version = ''1'', ni_protocol = \<lparr>pv_major = 1, pv_minor = 1\<rparr>, ni_capabilities = []\<rparr>"

definition witness_rt :: "(peers, MetricSample, nat) NodeRuntime" where
  "witness_rt =
     \<lparr>rt_info = witness_info,
      rt_health = \<lparr>hs_state = Healthy, hs_collector_degraded = False, hs_storage_degraded = False,
        hs_remote_listener_degraded = False, hs_details = []\<rparr>,
      rt_latest = Some (plain_sample 9 None []), rt_trend = TrendWindow_default, rt_store = MetricStore_new,
      rt_pairing = witness_manager, rt_pairing_poisoned = False, rt_mdns = PairingMdnsState_default,
      rt_peers = witness_peers, rt_active = [(endpoint_str bit_ids 4, [(1, 11), (2, 12)])],
      rt_active_poisoned = False\<rparr>"

definition witness_env :: "(nat \<Rightarrow> MetricSample MetricStore) \<Rightarrow> (peers, MetricSample) server_env" where
  "witness_env stores =
     \<lparr>se_ids = bit_ids, se_codecs = plain_codecs, se_peer_file = plain_file, se_peer_io = (\<lambda>_. False),
      se_json = identity_codec, se_now_ms = 1000, se_details = (\<lambda>_. \<lparr>cd_path = UnknownPath, cd_rtt_ms = 0\<rparr>),
      se_stores = stores, se_sqlite = (\<lambda>_. calm_env)\<rparr>"

abbreviation empty_sink :: sink where "empty_sink \<equiv> \<lparr>sent = [], room = None\<rparr>"

lemma witness_permissions:
  "permissions bit_ids witness_peers 4 = Inr (Some \<lparr>pp_read_metrics = True, pp_read_history = False\<rparr>)"
  "permissions bit_ids witness_peers 3 = Inr None"
proof -
  have "endpoint_str bit_ids 3 \<noteq> endpoint_str bit_ids 4"
    using bit_ids_faithful by (auto simp: ids_faithful_def dest!: injD)
  then show "permissions bit_ids witness_peers 4 = Inr (Some \<lparr>pp_read_metrics = True, pp_read_history = False\<rparr>)"
    "permissions bit_ids witness_peers 3 = Inr None"
    by (simp_all add: permissions_def witness_peers_def Let_def bt_get_def peer_record_def)
qed

theorem unentitled_peer_learns_nothing_witness:
  "\<exists>reply. handle_request (witness_env (\<lambda>_. MetricStore_new)) 3 5 witness_rt []
      (Some (GetHealth current_version)) empty_sink = (reply, witness_rt) \<and>
    handle_request (witness_env (\<lambda>_. MetricStore_new)) 3 6 (witness_rt\<lparr>rt_latest := None\<rparr>) []
      (Some (GetHealth current_version)) empty_sink = (reply, witness_rt\<lparr>rt_latest := None\<rparr>)"
proof -
  have "permissions (se_ids (witness_env (\<lambda>_. MetricStore_new))) (rt_peers witness_rt) 3 = Inr None"
    "permissions (se_ids (witness_env (\<lambda>_. MetricStore_new))) (rt_peers (witness_rt\<lparr>rt_latest := None\<rparr>)) 3 = Inr None"
    by (simp_all add: witness_env_def witness_rt_def witness_permissions)
  from unentitled_peer_learns_nothing [OF this, of "GetHealth current_version" 5 "[]" empty_sink 6 "[]"]
  show ?thesis by (auto simp: entitled_def)
qed

definition witness_pair :: w_PairRequest where
  "witness_pair =
     \<lparr>wpr_one_time_secret = b64_encode plain_codecs witness_secret,
      wpr_viewer_endpoint_id = endpoint_str bit_ids 3\<rparr>"

theorem pairing_is_the_only_way_in_witness:
  "pm_active (rt_pairing (snd (handle_request (witness_env (\<lambda>_. MetricStore_new)) 3 5 witness_rt []
     (Some (Pair witness_pair)) empty_sink))) = None"
proof -
  let ?env = "witness_env (\<lambda>_. MetricStore_new)"
  let ?run = "handle_request ?env 3 5 witness_rt [] (Some (Pair witness_pair)) empty_sink"
  have viewer: "wpr_viewer_endpoint_id witness_pair = endpoint_str bit_ids 3"
    by (simp add: witness_pair_def)
  have v: "verify_and_consume_at plain_codecs witness_manager 1000 3 (wpr_one_time_secret witness_pair) =
      (Inr (), witness_manager\<lparr>pm_active := None\<rparr>)"
    using plain_b64_faithful
    by (simp add: verify_and_consume_at_def witness_manager_def witness_pair_def secret_valid_def
        is_locked_out_def b64_faithful_def witness_secret_def PAIRING_SECRET_BYTES_def)
  have a: "authorize_preserving bit_ids plain_file (\<lambda>_. False) (1000, 3) witness_peers =
      (Inr PeerPermissions_default, witness_peers\<lparr>reg_records := bt_insert (endpoint_str bit_ids 3)
         (peer_record (endpoint_str bit_ids 3) 1000 PeerPermissions_default) (reg_records witness_peers),
       reg_file := Some (bt_insert (endpoint_str bit_ids 3)
         (peer_record (endpoint_str bit_ids 3) 1000 PeerPermissions_default) (reg_records witness_peers))\<rparr>)"
    using witness_permissions(2)
    by (auto simp: authorize_preserving_def modify_def publish_def persist_records_def plain_file_def
        permissions_def Let_def split: if_splits option.splits)
  have peers: "rt_peers (snd ?run) = snd (authorize_preserving bit_ids plain_file (\<lambda>_. False) (1000, 3) witness_peers)"
    using viewer
    by (simp add: handle_request_def handle_pair_def witness_env_def witness_rt_def v a is_open_def Let_def)
  have "permissions bit_ids (rt_peers (snd ?run)) 3 \<noteq> permissions bit_ids witness_peers 3"
    unfolding peers a using witness_permissions(2) by (auto simp: permissions_def)
  with pairing_is_the_only_way_in [of ?env 3 5 witness_rt "[]" "Some (Pair witness_pair)" empty_sink
      "fst ?run" "snd ?run" 3]
  show ?thesis
    by (simp add: bit_ids_faithful witness_env_def witness_rt_def)
qed

theorem revoke_peer_tears_down_witness:
  "\<exists>rt'. revoke_peer (witness_env (\<lambda>_. MetricStore_new)) witness_rt (endpoint_str bit_ids 4) =
      (Inr True, [11, 12], rt') \<and> permissions bit_ids (rt_peers rt') 4 = Inr None"
proof -
  let ?env = "witness_env (\<lambda>_. MetricStore_new)"
  have "\<exists>rt'. revoke_peer ?env witness_rt (endpoint_str bit_ids 4) = (Inr True, [11, 12], rt')"
    by (simp add: revoke_peer_def witness_env_def witness_rt_def witness_peers_def revoke_def modify_def
        publish_def persist_records_def plain_file_def bt_get_def bt_values_def Let_def)
  then obtain rt' where rt': "revoke_peer ?env witness_rt (endpoint_str bit_ids 4) = (Inr True, [11, 12], rt')"
    by blast
  moreover have "active_ok witness_rt" by (simp add: active_ok_def witness_rt_def bt_ok_def)
  ultimately show ?thesis
    using revoke_peer_tears_down [of ?env witness_rt 4 True "[11, 12]" rt'] bit_ids_faithful
    by (simp add: witness_env_def)
qed

definition witness_reader :: "(peers, MetricSample, nat) NodeRuntime" where
  "witness_reader =
     (let rs = [(endpoint_str bit_ids 4, peer_record (endpoint_str bit_ids 4) 1 PeerPermissions_default)]
      in witness_rt\<lparr>rt_peers := \<lparr>reg_records = rs, reg_file = Some rs, reg_poisoned = False\<rparr>\<rparr>)"

definition witness_query :: "i32 \<Rightarrow> w_HistoryQuery" where
  "witness_query resolution =
     \<lparr>whq_from_ms = 0, whq_to_ms = 100000, whq_resolution = resolution, whq_protocol = Some current_version\<rparr>"

text \<open>A store that gains a sample after the first page.\<close>

definition witness_hist :: "nat \<Rightarrow> MetricSample list" where
  "witness_hist k = (if k = 0 then [plain_sample 61000 None []]
     else [plain_sample 61000 None [], plain_sample 63000 None []])"

definition witness_store :: "nat \<Rightarrow> MetricSample MetricStore" where
  "witness_store k = (case insert_samples calm_env identity_codec 1 MetricStore_new (witness_hist k) of
     Inl _ \<Rightarrow> MetricStore_new | Inr (_, st) \<Rightarrow> st)"

lemma witness_reader_reads:
  "permissions (se_ids (witness_env stores)) (rt_peers witness_reader) 4 = Inr (Some PeerPermissions_default)"
  by (simp add: permissions_def witness_reader_def witness_rt_def witness_env_def Let_def peer_record_def)

lemma witness_store_represents: "represents identity_codec (witness_store k) (witness_hist k)"
proof -
  have acc: "accept [] (witness_hist k) = witness_hist k" by (simp add: witness_hist_def plain_sample_def)
  obtain n st where st: "insert_samples calm_env identity_codec 1 MetricStore_new (witness_hist k) = Inr (n, st)"
    using insert_samples_succeeds [of "witness_hist k" identity_codec calm_env 1 MetricStore_new]
    by (auto simp: calm_env_def identity_codec_def)
  from insert_samples_refines [OF represents_new st] show ?thesis
    unfolding acc witness_store_def st by simp
qed

lemma witness_raw_usable: "raw_usable (source_at (witness_env witness_store) witness_hist k)"
  using witness_store_represents [of k]
  by (simp add: raw_usable_def source_at_def witness_env_def identity_codec_def calm_env_def)


theorem minute_history_stream_exact_witness:
  "handle_request (witness_env (\<lambda>_. MetricStore_new)) 4 5 witness_reader [] (Some (QueryHistory (witness_query 2)))
     empty_sink = ((Inr (), \<lparr>sent = [RStreamComplete], room = None\<rparr>), witness_reader)"
proof -
  let ?env = "witness_env (\<lambda>_. MetricStore_new)"
  have "pp_read_history PeerPermissions_default" "compatible current_version"
    "whq_protocol (witness_query 2) = Some current_version"
    "i64_min \<le> whq_from_ms (witness_query 2)" "whq_from_ms (witness_query 2) \<le> whq_to_ms (witness_query 2)"
    "whq_to_ms (witness_query 2) < i64_max" "whq_resolution (witness_query 2) = 2" "room empty_sink = None"
    by (simp_all add: PeerPermissions_default_def compatible_def current_version_def witness_query_def i64_limits)
  note q = this
  have "\<forall>k. minute_usable (source_at ?env (\<lambda>_. []) k) \<and> se_stores ?env k = MetricStore_new"
    by (simp add: minute_usable_def source_at_def witness_env_def MetricStore_new_def calm_env_def)
  from minute_history_stream_exact [OF witness_reader_reads q(1,3,2,4-8) this, of 5 "[]"]
  show ?thesis by (simp add: minute_rows_def source_at_def witness_env_def MetricStore_new_def)
qed

text \<open>
  At the end of the time line the cursor cannot move past the last row, and the loop sends that row once
  more before it notices.
\<close>

lemma history_repeats_last_instant:
  "history_loop (\<lambda>_ cursor. Inr (if cursor \<le> i64_max then [plain_sample i64_max None []] else [])) 0 0 empty_sink =
     (Inr (), \<lparr>sent = replicate 2 (sample_response (plain_sample i64_max None [])), room = None\<rparr>)"
proof -
  have next_max: "i64_saturating_add i64_max 1 = i64_max"
    by (simp add: i64_saturating_add_def i64_saturate_def i64_limits)
  show ?thesis
    by (subst history_loop.simps, simp add: plain_sample_def Let_def next_max)
      (subst history_loop.simps, simp add: plain_sample_def Let_def next_max numeral_2_eq_2, simp add: i64_limits)
qed

theorem finished_connection_unregistered_witness:
  "connections_of (snd (serve_incoming (witness_env (\<lambda>_. MetricStore_new)) True 4 5 3 13
     [StreamAccepted [] (HeaderFrame (Inr None)) True, PeerClosed] witness_rt)) (endpoint_str bit_ids 4) =
   [(1, 11), (2, 12)]"
proof -
  let ?env = "witness_env (\<lambda>_. MetricStore_new)"
  let ?run = "serve_incoming ?env True 4 5 3 13 [StreamAccepted [] (HeaderFrame (Inr None)) True, PeerClosed] witness_rt"
  have start: "connections_of witness_rt (endpoint_str bit_ids 4) = [(1, 11), (2, 12)]"
    by (simp add: connections_of_def witness_rt_def)
  have ok: "active_ok witness_rt" by (simp add: active_ok_def witness_rt_def bt_ok_def)
  have run: "?run = (Some (Inr ()), snd ?run)"
    by (auto simp: serve_incoming_def register_connection_def witness_rt_def Let_def split: prod.splits)
  have use: "active_ok (snd ?run) \<and>
      (\<forall>key sid. bt_get (connections_of (snd ?run) key) sid = bt_get (connections_of witness_rt key) sid)"
    by (rule finished_connection_unregistered [OF _ ok _ run])
      (simp_all add: witness_env_def bit_ids_faithful start bt_get_def)
  have "bt_ok (connections_of (snd ?run) (endpoint_str bit_ids 4))"
    using use by (auto simp: active_ok_def connections_of_def split: option.splits)
  then have "connections_of (snd ?run) (endpoint_str bit_ids 4) = connections_of witness_rt (endpoint_str bit_ids 4)"
    using use by (intro bt_canonical) (auto simp: start bt_ok_def)
  then show ?thesis unfolding start .
qed

end
