(* ===== verification/Machines.thy ===== *)
theory Machines
  imports Pairing
begin

text \<open>
  The viewer's registry of paired machines and the last known view of each
  (\<open>apps/agent/src/remote/registry.rs\<close>, \<open>apps/agent/src/remote/snapshot.rs\<close> and the error type of
  \<open>apps/agent/src/remote.rs\<close>). The registry follows the write-then-publish pattern of \<open>Durable\<close>; the
  four operations that change it are interpretations of its contract.
\<close>

datatype RemoteFleetError =
  FleetPairing PairingError
| FleetTransport TransportError
| FleetTimeout string
| IdentityMismatch
| PairingRejected
| UnexpectedResponse string
| AlreadyPaired
| UnknownMachine
| InvalidHistoryRange
| HistoryResponseTooLarge
| MachinesUnavailable
| FleetIo
| FleetJson

fun fleet_persist_error :: "persist_error \<Rightarrow> RemoteFleetError" where
  "fleet_persist_error PersistIo = FleetIo"
| "fleet_persist_error PersistJson = FleetJson"

section \<open>Records and snapshots\<close>

record PersistedRemoteSnapshot =
  ps_latest :: "MetricSample option"
  ps_state :: NodeState
  ps_path :: ConnectionPath
  ps_rtt_ms :: "u64 option"
  ps_last_seen_ms :: "i64 option"
  ps_trend :: TrendWindow
  ps_details :: "string list"

record RemoteMachineRecord =
  rr_node :: NodeInfo
  rr_endpoint_id :: string
  rr_direct_addresses :: "SocketAddr list"
  rr_relay_urls :: "string list"
  rr_paired_at_ms :: i64
  rr_last_snapshot :: "PersistedRemoteSnapshot option"

record RemoteMachineSnapshot =
  sn_node :: NodeInfo
  sn_endpoint_id :: string
  sn_latest :: "MetricSample option"
  sn_state :: NodeState
  sn_path :: ConnectionPath
  sn_rtt_ms :: "u64 option"
  sn_last_seen_ms :: "i64 option"
  sn_trend :: TrendWindow
  sn_details :: "string list"

definition record_endpoint_addr ::
  "codecs \<Rightarrow> RemoteMachineRecord \<Rightarrow> (PairingError, endpoint_id \<times> TransportAddr list) result" where
  "record_endpoint_addr cs r =
     bundle_endpoint_addr cs
       \<lparr>pb_format_version = 1, pb_node_id = ni_node_id (rr_node r), pb_endpoint_id = rr_endpoint_id r,
        pb_direct_addresses = rr_direct_addresses r, pb_relay_urls = rr_relay_urls r,
        pb_one_time_secret = '''', pb_expires_at_ms = i64_max\<rparr>"

definition persisted_from :: "RemoteMachineSnapshot \<Rightarrow> PersistedRemoteSnapshot" where
  "persisted_from snapshot =
     \<lparr>ps_latest = sn_latest snapshot, ps_state = sn_state snapshot, ps_path = sn_path snapshot,
      ps_rtt_ms = sn_rtt_ms snapshot, ps_last_seen_ms = sn_last_seen_ms snapshot,
      ps_trend = sn_trend snapshot, ps_details = sn_details snapshot\<rparr>"

definition STALE_AFTER_MS :: i64 where "STALE_AFTER_MS = 10000"
definition OFFLINE_AFTER_MS :: i64 where "OFFLINE_AFTER_MS = 30000"

definition offline :: "RemoteMachineRecord \<Rightarrow> RemoteMachineSnapshot" where
  "offline r =
     (case rr_last_snapshot r of
        Some persisted \<Rightarrow>
          \<lparr>sn_node = rr_node r, sn_endpoint_id = rr_endpoint_id r, sn_latest = ps_latest persisted,
           sn_state = ps_state persisted, sn_path = ps_path persisted, sn_rtt_ms = ps_rtt_ms persisted,
           sn_last_seen_ms = ps_last_seen_ms persisted, sn_trend = ps_trend persisted,
           sn_details = ps_details persisted\<rparr>
      | None \<Rightarrow>
          \<lparr>sn_node = rr_node r, sn_endpoint_id = rr_endpoint_id r, sn_latest = None,
           sn_state = Offline, sn_path = UnknownPath, sn_rtt_ms = None,
           sn_last_seen_ms = None, sn_trend = TrendWindow_default,
           sn_details = [''Waiting for remote connection'']\<rparr>)"

definition state_at :: "RemoteMachineSnapshot \<Rightarrow> i64 \<Rightarrow> NodeState" where
  "state_at snapshot at_ms =
     (if sn_state snapshot = AuthError \<or> sn_state snapshot = Incompatible then sn_state snapshot
      else case sn_last_seen_ms snapshot of
        None \<Rightarrow> sn_state snapshot
      | Some last_seen_ms \<Rightarrow>
          let age_ms = max (i64_saturating_sub at_ms last_seen_ms) 0 in
          if OFFLINE_AFTER_MS \<le> age_ms then Offline
          else if STALE_AFTER_MS \<le> age_ms then Stale
          else sn_state snapshot)"

section \<open>The registry\<close>

type_synonym machines = "(string, RemoteMachineRecord) btree"
type_synonym 'f machine_registry = "(machines, 'f) registry"

definition machines_load ::
  "(machines, 'f) file_codec \<Rightarrow> 'f read_outcome \<Rightarrow> (RemoteFleetError, machines) result" where
  "machines_load c outcome = map_err fleet_persist_error (load_records c [] outcome)"

definition machines_list :: "'f machine_registry \<Rightarrow> (RemoteFleetError, RemoteMachineRecord list) result" where
  "machines_list reg =
     (if reg_poisoned reg then Inl MachinesUnavailable else Inr (bt_values (reg_records reg)))"

definition machines_contains :: "'f machine_registry \<Rightarrow> string \<Rightarrow> (RemoteFleetError, bool) result" where
  "machines_contains reg eid =
     (if reg_poisoned reg then Inl MachinesUnavailable else Inr (bt_get (reg_records reg) eid \<noteq> None))"

definition machines_get ::
  "'f machine_registry \<Rightarrow> string \<Rightarrow> (RemoteFleetError, RemoteMachineRecord) result" where
  "machines_get reg eid =
     (if reg_poisoned reg then Inl MachinesUnavailable else ok_or UnknownMachine (bt_get (reg_records reg) eid))"

definition machines_insert ::
  "(machines, 'f) file_codec \<Rightarrow> (nat \<Rightarrow> bool) \<Rightarrow> RemoteMachineRecord \<Rightarrow> 'f machine_registry \<Rightarrow>
   (RemoteFleetError, unit) result \<times> 'f machine_registry" where
  "machines_insert c io r reg =
     modify fleet_persist_error MachinesUnavailable
       (\<lambda>records. Inr (Inr (bt_insert (rr_endpoint_id r) r records, ()))) c io reg"

definition update_addresses ::
  "(machines, 'f) file_codec \<Rightarrow> (nat \<Rightarrow> bool) \<Rightarrow> string \<times> SocketAddr list \<Rightarrow> 'f machine_registry \<Rightarrow>
   (RemoteFleetError, unit) result \<times> 'f machine_registry" where
  "update_addresses c io a reg =
     (case a of (eid, addrs) \<Rightarrow>
        modify fleet_persist_error MachinesUnavailable
          (\<lambda>records. case bt_get records eid of
             None \<Rightarrow> Inl UnknownMachine
           | Some r \<Rightarrow> Inr (Inr (bt_insert eid (r\<lparr>rr_direct_addresses := addrs\<rparr>) records, ()))) c io reg)"

definition update_snapshot ::
  "(machines, 'f) file_codec \<Rightarrow> (nat \<Rightarrow> bool) \<Rightarrow> string \<times> RemoteMachineSnapshot \<Rightarrow> 'f machine_registry \<Rightarrow>
   (RemoteFleetError, unit) result \<times> 'f machine_registry" where
  "update_snapshot c io a reg =
     (case a of (eid, snapshot) \<Rightarrow>
        modify fleet_persist_error MachinesUnavailable
          (\<lambda>records. case bt_get records eid of
             None \<Rightarrow> Inl UnknownMachine
           | Some r \<Rightarrow> Inr (Inr (bt_insert eid
               (r\<lparr>rr_last_snapshot := Some (persisted_from snapshot)\<rparr>) records, ()))) c io reg)"

definition machines_remove ::
  "(machines, 'f) file_codec \<Rightarrow> (nat \<Rightarrow> bool) \<Rightarrow> string \<Rightarrow> 'f machine_registry \<Rightarrow>
   (RemoteFleetError, bool) result \<times> 'f machine_registry" where
  "machines_remove c io eid reg =
     modify fleet_persist_error MachinesUnavailable
       (\<lambda>records.
          if bt_get records eid = None then Inr (Inl False)
          else Inr (Inr (bt_remove eid records, True))) c io reg"

section \<open>The contract of the registry\<close>

text \<open>
  Beyond \<open>durable_op\<close>, every operation keeps each record under its own endpoint and touches the record
  of one endpoint only.
\<close>

definition keyed :: "machines \<Rightarrow> bool" where
  "keyed records \<longleftrightarrow> bt_ok records \<and> (\<forall>eid r. bt_get records eid = Some r \<longrightarrow> rr_endpoint_id r = eid)"

locale machine_op = durable_op step
  for step :: "(machines, 'f) file_codec \<Rightarrow> (nat \<Rightarrow> bool) \<Rightarrow> 'a \<Rightarrow> 'f machine_registry \<Rightarrow>
    (RemoteFleetError, 'r) result \<times> 'f machine_registry" +
  fixes target :: "'a \<Rightarrow> string"
  assumes keyed_step: "keyed (reg_records reg) \<Longrightarrow> keyed (reg_records (snd (step c io a reg)))"
    and frame: "eid \<noteq> target a \<Longrightarrow>
      bt_get (reg_records (snd (step c io a reg))) eid = bt_get (reg_records reg) eid"
begin

lemma frame_contains:
  assumes "eid \<noteq> target a" and "reg_poisoned (snd (step c io a reg)) = reg_poisoned reg"
  shows "machines_contains (snd (step c io a reg)) eid = machines_contains reg eid"
  using assms frame by (simp add: machines_contains_def)

end

lemma modify_cases:
  obtains (unchanged) "snd (modify err u change c io reg) = reg"
    | (published) "next" r where "change (reg_records reg) = Inr (Inr (next, r))"
      "snd (modify err u change c io reg) = reg\<lparr>reg_records := next, reg_file := to_file c next\<rparr>"
      "fst (modify err u change c io reg) = Inr r"
proof (cases "reg_poisoned reg")
  case False
  show ?thesis
  proof (cases "change (reg_records reg)")
    case (Inr b)
    then show ?thesis
    proof (cases b)
      case (Inr p)
      obtain m r where p: "p = (m, r)" by fastforce
      with publish_fails_or_ok [of c io reg m] \<open>change (reg_records reg) = Inr b\<close> Inr False
      show ?thesis by (auto simp: modify_def intro: unchanged published)
    qed (use False unchanged in \<open>simp add: modify_def\<close>)
  qed (use False unchanged in \<open>simp add: modify_def\<close>)
qed (use unchanged in \<open>simp add: modify_def\<close>)

lemma keyed_insert: "keyed m \<Longrightarrow> rr_endpoint_id r = eid \<Longrightarrow> keyed (bt_insert eid r m)"
  by (auto simp: keyed_def split: if_splits)

lemma keyed_remove: "keyed m \<Longrightarrow> keyed (bt_remove eid m)"
  by (auto simp: keyed_def split: if_splits)

lemma modify_machine_op:
  fixes change :: "'a \<Rightarrow> machines \<Rightarrow> (RemoteFleetError, 'r + machines \<times> 'r) result"
  assumes "\<And>a m next r. keyed m \<Longrightarrow> change a m = Inr (Inr (next, r)) \<Longrightarrow> keyed next"
    and "\<And>a m next r eid. change a m = Inr (Inr (next, r)) \<Longrightarrow> eid \<noteq> target a \<Longrightarrow>
      bt_get next eid = bt_get m eid"
  shows "machine_op (\<lambda>c io a reg. modify fleet_persist_error MachinesUnavailable (change a) c io reg) target"
proof (rule machine_op.intro [OF modify_durable], unfold_locales, goal_cases)
  case (1 reg c io a)
  then show ?case
    using assms(1) by (cases fleet_persist_error MachinesUnavailable "change a" c io reg rule: modify_cases) auto
next
  case (2 eid a c io reg)
  then show ?case
    using assms(2) by (cases fleet_persist_error MachinesUnavailable "change a" c io reg rule: modify_cases) auto
qed

interpretation insert_machine: machine_op machines_insert rr_endpoint_id
  unfolding machines_insert_def [abs_def] by (rule modify_machine_op) (auto intro: keyed_insert)

interpretation move_machine: machine_op update_addresses fst
  unfolding update_addresses_def [abs_def] case_prod_beta
  by (rule modify_machine_op) (auto simp: keyed_def split: option.splits if_splits)

interpretation note_machine: machine_op update_snapshot fst
  unfolding update_snapshot_def [abs_def] case_prod_beta
  by (rule modify_machine_op) (auto simp: keyed_def split: option.splits if_splits)

interpretation drop_machine: machine_op machines_remove id
  unfolding machines_remove_def [abs_def]
  by (rule modify_machine_op) (auto intro: keyed_remove split: if_splits)

section \<open>Sequences of operations\<close>

datatype machine_call =
  CallInsert RemoteMachineRecord
| CallMove string "SocketAddr list"
| CallNote string RemoteMachineSnapshot
| CallRemove string

fun machine_call_step ::
  "(machines, 'f) file_codec \<Rightarrow> (nat \<Rightarrow> bool) \<Rightarrow> machine_call \<Rightarrow> 'f machine_registry \<Rightarrow> 'f machine_registry" where
  "machine_call_step c io (CallInsert r) reg = snd (machines_insert c io r reg)"
| "machine_call_step c io (CallMove eid addrs) reg = snd (update_addresses c io (eid, addrs) reg)"
| "machine_call_step c io (CallNote eid snapshot) reg = snd (update_snapshot c io (eid, snapshot) reg)"
| "machine_call_step c io (CallRemove eid) reg = snd (machines_remove c io eid reg)"

fun machine_run ::
  "(machines, 'f) file_codec \<Rightarrow> 'f machine_registry \<Rightarrow> ((nat \<Rightarrow> bool) \<times> machine_call) list \<Rightarrow>
   'f machine_registry" where
  "machine_run c reg [] = reg"
| "machine_run c reg ((io, call) # calls) = machine_run c (machine_call_step c io call reg) calls"

lemmas machine_synced =
  insert_machine.step_synced move_machine.step_synced note_machine.step_synced drop_machine.step_synced

lemma machine_call_synced:
  "codec_faithful c \<Longrightarrow> synced c [] reg \<Longrightarrow> synced c [] (machine_call_step c io call reg)"
  by (cases call) (simp_all add: machine_synced)

lemma machine_call_keyed:
  "keyed (reg_records reg) \<Longrightarrow> keyed (reg_records (machine_call_step c io call reg))"
  by (cases call)
    (simp_all add: insert_machine.keyed_step move_machine.keyed_step note_machine.keyed_step
      drop_machine.keyed_step)

lemma modify_adds_nothing:
  assumes "bt_get (reg_records (snd (modify err u change c io reg))) eid \<noteq> None"
    and "\<And>next r. change (reg_records reg) = Inr (Inr (next, r)) \<Longrightarrow> bt_get next eid \<noteq> None \<Longrightarrow>
      bt_get (reg_records reg) eid \<noteq> None"
  shows "bt_get (reg_records reg) eid \<noteq> None"
  using assms by (cases err u change c io reg rule: modify_cases) auto

lemma modify_keeps_domain:
  assumes "\<And>next r. change (reg_records reg) = Inr (Inr (next, r)) \<Longrightarrow>
      bt_get next eid = None \<longleftrightarrow> bt_get (reg_records reg) eid = None"
  shows "bt_get (reg_records (snd (modify err u change c io reg))) eid = None \<longleftrightarrow>
    bt_get (reg_records reg) eid = None"
  using assms by (cases err u change c io reg rule: modify_cases) auto

lemma modify_poisoned [simp]: "reg_poisoned (snd (modify err u change c io reg)) = reg_poisoned reg"
  by (cases err u change c io reg rule: modify_cases) auto

lemma machine_call_adds:
  assumes "bt_get (reg_records (machine_call_step c io call reg)) eid \<noteq> None"
  shows "bt_get (reg_records reg) eid \<noteq> None \<or> (\<exists>r. call = CallInsert r \<and> rr_endpoint_id r = eid)"
proof (cases call)
  case (CallInsert r)
  then show ?thesis using assms insert_machine.frame [of eid r c io reg] by fastforce
next
  case (CallMove key addrs)
  show ?thesis
    by (rule disjI1, rule modify_adds_nothing
        [OF assms [unfolded CallMove machine_call_step.simps update_addresses_def prod.case]])
      (auto split: option.splits if_splits)
next
  case (CallNote key s)
  show ?thesis
    by (rule disjI1, rule modify_adds_nothing
        [OF assms [unfolded CallNote machine_call_step.simps update_snapshot_def prod.case]])
      (auto split: option.splits if_splits)
next
  case (CallRemove key)
  show ?thesis
    by (rule disjI1, rule modify_adds_nothing
        [OF assms [unfolded CallRemove machine_call_step.simps machines_remove_def]])
      (auto split: if_splits)
qed

lemma machine_run_invariant:
  assumes "codec_faithful c" and "synced c [] reg" and "keyed (reg_records reg)"
  shows "synced c [] (machine_run c reg calls) \<and> keyed (reg_records (machine_run c reg calls))"
  using assms(2,3)
  by (induction calls arbitrary: reg)
    (auto simp: machine_call_keyed machine_call_synced [OF assms(1)])

lemma machine_run_adds:
  assumes "bt_get (reg_records (machine_run c reg calls)) eid \<noteq> None"
  shows "bt_get (reg_records reg) eid \<noteq> None \<or>
    (\<exists>io r. (io, CallInsert r) \<in> set calls \<and> rr_endpoint_id r = eid)"
  using assms
proof (induction calls arbitrary: reg)
  case (Cons ic calls)
  obtain io call where ic: "ic = (io, call)" by fastforce
  from Cons.IH [of "machine_call_step c io call reg"] Cons.prems ic
  have "bt_get (reg_records (machine_call_step c io call reg)) eid \<noteq> None \<or>
      (\<exists>io r. (io, CallInsert r) \<in> set calls \<and> rr_endpoint_id r = eid)" by simp
  then show ?case using machine_call_adds [of c io call reg eid] ic by auto
qed simp

lemma update_snapshot_Inr:
  assumes "update_snapshot c io (eid, s) reg = (Inr u, reg')"
  shows "\<exists>r. bt_get (reg_records reg) eid = Some r \<and>
    bt_get (reg_records reg') eid = Some (r\<lparr>rr_last_snapshot := Some (persisted_from s)\<rparr>)"
proof (cases "bt_get (reg_records reg) eid")
  case None
  then show ?thesis
    using modify_eq_Inr [OF assms [unfolded update_snapshot_def prod.case]] by simp
next
  case (Some r)
  then have "reg_records reg' = bt_insert eid (r\<lparr>rr_last_snapshot := Some (persisted_from s)\<rparr>) (reg_records reg)"
    using modify_eq_Inr [OF assms [unfolded update_snapshot_def prod.case]] by auto
  then show ?thesis using Some by simp
qed

section \<open>Properties\<close>

text \<open>
  The registry of paired machines is durable and closed: after any sequence of insertions, address and
  snapshot updates and removals, each of which may fail at any step of its write, a restart reads back exactly
  the records in memory, every record stands under its own endpoint, and the only machines known that were
  not known before are those inserted by a pairing.
\<close>

theorem machines_durable:
  assumes "codec_faithful c" and "machines_load c (outcome_of (reg_file reg)) = Inr (reg_records reg)"
    and "keyed (reg_records reg)"
  shows "machines_load c (outcome_of (reg_file (machine_run c reg calls))) =
      Inr (reg_records (machine_run c reg calls)) \<and>
    keyed (reg_records (machine_run c reg calls)) \<and>
    (\<forall>eid. bt_get (reg_records (machine_run c reg calls)) eid \<noteq> None \<longrightarrow>
       bt_get (reg_records reg) eid \<noteq> None \<or>
       (\<exists>io r. (io, CallInsert r) \<in> set calls \<and> rr_endpoint_id r = eid))"
proof -
  have "synced c [] reg" using assms(2) by (simp add: synced_def machines_load_def)
  from machine_run_invariant [OF assms(1) this assms(3), of calls]
  have "machines_load c (outcome_of (reg_file (machine_run c reg calls))) =
      Inr (reg_records (machine_run c reg calls)) \<and> keyed (reg_records (machine_run c reg calls))"
    by (simp add: synced_def machines_load_def)
  then show ?thesis using machine_run_adds by blast
qed

definition plain_machines :: "(machines, machines) file_codec" where
  "plain_machines = \<lparr>to_file = Some, of_file = Some\<rparr>"

definition empty_registry :: "machines machine_registry" where
  "empty_registry = \<lparr>reg_records = [], reg_file = None, reg_poisoned = False\<rparr>"

definition witness_record :: RemoteMachineRecord where
  "witness_record =
     \<lparr>rr_node = \<lparr>ni_node_id = 5, ni_display_name = ''n'', ni_os = ''linux'', ni_architecture = ''x'',
        ni_agent_version = ''1'', ni_protocol = V1, ni_capabilities = []\<rparr>,
      rr_endpoint_id = ''e'', rr_direct_addresses = [SocketV4 1 80], rr_relay_urls = [],
      rr_paired_at_ms = 3, rr_last_snapshot = None\<rparr>"

theorem machines_durable_witness:
  "machines_load plain_machines (outcome_of (reg_file (machine_run plain_machines empty_registry
     [(\<lambda>_. False, CallInsert witness_record), (\<lambda>_. True, CallRemove ''e''), (\<lambda>_. False, CallMove ''e'' [])]))) =
   Inr [(''e'', witness_record\<lparr>rr_direct_addresses := []\<rparr>)]"
proof -
  have "codec_faithful plain_machines"
    "machines_load plain_machines (outcome_of (reg_file empty_registry)) = Inr (reg_records empty_registry)"
    "keyed (reg_records empty_registry)"
    by (simp_all add: codec_faithful_def plain_machines_def empty_registry_def machines_load_def
        load_records_def outcome_of_def keyed_def)
  note use = machines_durable [OF this, of
      "[(\<lambda>_. False, CallInsert witness_record), (\<lambda>_. True, CallRemove ''e''), (\<lambda>_. False, CallMove ''e'' [])]"]
  have "reg_records (machine_run plain_machines empty_registry
      [(\<lambda>_. False, CallInsert witness_record), (\<lambda>_. True, CallRemove ''e''), (\<lambda>_. False, CallMove ''e'' [])]) =
      [(''e'', witness_record\<lparr>rr_direct_addresses := []\<rparr>)]"
    by code_simp
  with use show ?thesis by simp
qed

text \<open>
  C13. The last known view of a machine survives a restart and ages honestly. Once \<open>update_snapshot\<close> reports
  success, loading the registry file again and starting from its record gives the same latest sample, path,
  round trip, trend and details, and at every time the same state: offline from thirty seconds after the
  machine was last seen, stale from ten, the reported state before that and for a machine seen in the future,
  without overflow for any two clock readings, and an authorization or compatibility error for as long as it
  stands.
\<close>

theorem last_known_view_survives_restart:
  assumes "codec_faithful c" and "update_snapshot c io (eid, s) reg = (Inr (), reg')"
    and "keyed (reg_records reg)" and "synced c [] reg"
    and "sn_last_seen_ms s = Some seen" and "in_i64 seen" and "in_i64 t"
  shows "\<exists>records r. machines_load c (outcome_of (reg_file reg')) = Inr records \<and>
    bt_get records eid = Some r \<and>
    offline r = s\<lparr>sn_node := rr_node r, sn_endpoint_id := eid\<rparr> \<and>
    state_at (offline r) t =
      (if sn_state s \<in> {AuthError, Incompatible} then sn_state s
       else if seen + 30000 \<le> t then Offline
       else if seen + 10000 \<le> t then Stale
       else sn_state s)"
proof -
  have "synced c [] reg'"
    using note_machine.step_synced [OF assms(1,4), of io "(eid, s)"] assms(2) by simp
  then have load: "machines_load c (outcome_of (reg_file reg')) = Inr (reg_records reg')"
    by (simp add: synced_def machines_load_def)
  obtain r where r: "bt_get (reg_records reg) eid = Some r"
    "bt_get (reg_records reg') eid = Some (r\<lparr>rr_last_snapshot := Some (persisted_from s)\<rparr>)"
    using update_snapshot_Inr [OF assms(2)] by blast
  let ?r = "r\<lparr>rr_last_snapshot := Some (persisted_from s)\<rparr>"
  have "rr_endpoint_id ?r = eid" using r(1) assms(3) by (simp add: keyed_def)
  then have off: "offline ?r = s\<lparr>sn_node := rr_node ?r, sn_endpoint_id := eid\<rparr>"
    by (simp add: offline_def persisted_from_def)
  have "state_at (offline ?r) t =
      (if sn_state s \<in> {AuthError, Incompatible} then sn_state s
       else if seen + 30000 \<le> t then Offline
       else if seen + 10000 \<le> t then Stale
       else sn_state s)"
    unfolding off using assms(5-7)
    by (auto simp: state_at_def STALE_AFTER_MS_def OFFLINE_AFTER_MS_def i64_saturating_sub_def
        i64_saturate_def in_i64_def i64_limits Let_def)
  with load r(2) off show ?thesis by blast
qed

definition witness_snapshot :: RemoteMachineSnapshot where
  "witness_snapshot = (offline witness_record)\<lparr>sn_state := Healthy, sn_last_seen_ms := Some 1000\<rparr>"

theorem last_known_view_survives_restart_witness:
  "\<exists>records r. machines_load plain_machines (outcome_of (reg_file (snd (update_snapshot plain_machines (\<lambda>_. False)
      (''e'', witness_snapshot) (machine_run plain_machines empty_registry
        [(\<lambda>_. False, CallInsert witness_record)]))))) = Inr records \<and>
    bt_get records ''e'' = Some r \<and> state_at (offline r) 12000 = Stale"
proof -
  let ?reg = "machine_run plain_machines empty_registry [(\<lambda>_. False, CallInsert witness_record)]"
  have c: "codec_faithful plain_machines" by (simp add: codec_faithful_def plain_machines_def)
  have inv: "synced plain_machines [] ?reg \<and> keyed (reg_records ?reg)"
    by (rule machine_run_invariant [OF c])
      (simp_all add: synced_def load_records_def outcome_of_def empty_registry_def keyed_def)
  have "fst (update_snapshot plain_machines (\<lambda>_. False) (''e'', witness_snapshot) ?reg) = Inr ()"
    by code_simp
  then obtain reg' where reg':
    "update_snapshot plain_machines (\<lambda>_. False) (''e'', witness_snapshot) ?reg = (Inr (), reg')"
    by (metis prod.collapse)
  from last_known_view_survives_restart [OF c reg' conjunct2 [OF inv] conjunct1 [OF inv], of 1000 12000]
  show ?thesis unfolding reg' snd_conv by (auto simp: witness_snapshot_def in_i64_def i64_limits)
qed

end
