(* ===== verification/Monitor.thy ===== *)
theory Monitor
  imports Machines Wire
begin

text \<open>
  The viewer's side of the protocol (\<open>apps/agent/src/remote/client.rs\<close>) and the loop that watches one
  paired machine (\<open>apps/agent/src/remote/monitor.rs\<close>). A connection is what dialling returned and how the
  peer answers the n-th request on it; the peer is arbitrary. A session is the list of what its \<open>select!\<close>
  loop wakes up for, with the readings of the viewer's two clocks (monotonic milliseconds and wall time);
  a session whose list ends is still running. \<open>mo_writes\<close> records when the loop asked for a durable write
  of a snapshot.
\<close>

section \<open>The client\<close>

datatype 'a timed = TimedOut | InTime 'a

record client =
  cl_remote_id :: endpoint_id
  cl_local_id :: endpoint_id
  cl_paths :: "path_info list"
  cl_answer :: "nat \<Rightarrow> RequestBody \<Rightarrow> (TransportError, Response option) result timed"

type_synonym dial = "endpoint_id \<times> TransportAddr list \<Rightarrow> (TransportError, client) result timed"

definition timed_result :: "string \<Rightarrow> (TransportError, 'a) result timed \<Rightarrow> (RemoteFleetError, 'a) result" where
  "timed_result operation r =
     (case r of TimedOut \<Rightarrow> Inl (FleetTimeout operation) | InTime m \<Rightarrow> map_err FleetTransport m)"

lemma timed_result_Inr [simp]: "timed_result operation r = Inr x \<longleftrightarrow> r = InTime (Inr x)"
  by (cases r) (simp_all add: timed_result_def)

definition client_request ::
  "client \<Rightarrow> nat \<Rightarrow> RequestBody \<Rightarrow> string \<Rightarrow> (RemoteFleetError, Response option) result" where
  "client_request cl n body operation =
     rbind (timed_result operation (cl_answer cl n body)) (\<lambda>response.
       case response of
         Some (RError e) \<Rightarrow> Inl (FleetTransport (RemoteError (wer_code e) (wer_message e)))
       | _ \<Rightarrow> Inr response)"

definition get_node_info :: "ids \<Rightarrow> client \<Rightarrow> nat \<Rightarrow> (RemoteFleetError, NodeInfo) result" where
  "get_node_info ids cl n =
     rbind (client_request cl n (GetNodeInfo current_version) ''node info'') (\<lambda>response.
       case response of
         Some (RNodeInfo info) \<Rightarrow> map_err UnexpectedResponse (node_info_of_wire ids info)
       | _ \<Rightarrow> Inl (UnexpectedResponse ''node info''))"

definition get_health :: "client \<Rightarrow> nat \<Rightarrow> (RemoteFleetError, HealthSnapshot) result" where
  "get_health cl n =
     rbind (client_request cl n (GetHealth current_version) ''health'') (\<lambda>response.
       case response of
         Some (RHealth health) \<Rightarrow> Inr (health_of_wire health)
       | _ \<Rightarrow> Inl (UnexpectedResponse ''health''))"

definition get_connection_path :: "client \<Rightarrow> nat \<Rightarrow> (RemoteFleetError, ConnectionPath \<times> u64) result" where
  "get_connection_path cl n =
     rbind (client_request cl n (GetConnectionPath current_version) ''connection path'') (\<lambda>response.
       case response of
         Some (RConnectionPath details) \<Rightarrow> Inr (connection_path_of (wcd_path details), wcd_rtt_ms details)
       | _ \<Rightarrow> Inl (UnexpectedResponse ''connection path''))"

definition connect_record ::
  "ids \<Rightarrow> codecs \<Rightarrow> dial \<Rightarrow> RemoteMachineRecord \<Rightarrow> (RemoteFleetError, client) result" where
  "connect_record ids cs dial r =
     rbind (map_err FleetPairing (record_endpoint_addr cs r)) (\<lambda>address.
     rbind (timed_result ''connect'' (dial address)) (\<lambda>cl.
       if endpoint_str ids (cl_remote_id cl) \<noteq> rr_endpoint_id r then Inl IdentityMismatch
       else rbind (get_node_info ids cl 0) (\<lambda>node.
         if ni_node_id node \<noteq> ni_node_id (rr_node r) then Inl IdentityMismatch else Inr cl)))"

section \<open>The monitor\<close>

definition STREAM_SILENCE_TIMEOUT :: nat where "STREAM_SILENCE_TIMEOUT = 12000"
definition SNAPSHOT_PERSIST_INTERVAL :: nat where "SNAPSHOT_PERSIST_INTERVAL = 10000"
definition INITIAL_RECONNECT_DELAY :: nat where "INITIAL_RECONNECT_DELAY = 1000"
definition MAX_RECONNECT_DELAY :: nat where "MAX_RECONNECT_DELAY = 30000"
definition MAX_RECORD_DIRECT_ADDRESSES :: nat where "MAX_RECORD_DIRECT_ADDRESSES = 8"

type_synonym snapshots = "(string, RemoteMachineSnapshot) btree"

record 'f monitor_state =
  mo_record :: RemoteMachineRecord
  mo_registry :: "'f machine_registry"
  mo_snapshots :: snapshots
  mo_last_persisted :: "nat option"
  mo_writes :: "nat list"

definition merged_direct_addresses :: "SocketAddr list \<Rightarrow> SocketAddr list \<Rightarrow> SocketAddr list" where
  "merged_direct_addresses observed known =
     take MAX_RECORD_DIRECT_ADDRESSES (push_new [] (observed @ known))"

definition refresh_direct_addresses ::
  "(machines, 'f) file_codec \<Rightarrow> (nat \<Rightarrow> bool) \<Rightarrow> client \<Rightarrow> 'f monitor_state \<Rightarrow> 'f monitor_state" where
  "refresh_direct_addresses c io cl st =
     (let observed = observed_direct_addresses (cl_paths cl);
          known = rr_direct_addresses (mo_record st);
          merged = merged_direct_addresses observed known
      in if observed = [] then st
         else if merged = known then st
         else case update_addresses c io (rr_endpoint_id (mo_record st), merged) (mo_registry st) of
                (Inr _, reg) \<Rightarrow>
                  st\<lparr>mo_registry := reg, mo_record := (mo_record st)\<lparr>rr_direct_addresses := merged\<rparr>\<rparr>
              | (Inl _, reg) \<Rightarrow> st\<lparr>mo_registry := reg\<rparr>)"

text \<open>\<open>entries.entry(id).or_insert_with(offline)\<close>, then a change of the entry.\<close>

definition entry_of :: "'f monitor_state \<Rightarrow> RemoteMachineSnapshot" where
  "entry_of st =
     (case bt_get (mo_snapshots st) (rr_endpoint_id (mo_record st)) of
        None \<Rightarrow> offline (mo_record st)
      | Some snapshot \<Rightarrow> snapshot)"

definition put_entry :: "'f monitor_state \<Rightarrow> RemoteMachineSnapshot \<Rightarrow> 'f monitor_state" where
  "put_entry st snapshot =
     st\<lparr>mo_snapshots := bt_insert (rr_endpoint_id (mo_record st)) snapshot (mo_snapshots st)\<rparr>"

definition apply_connection_path ::
  "ConnectionPath \<Rightarrow> u64 \<Rightarrow> RemoteMachineSnapshot \<Rightarrow> RemoteMachineSnapshot" where
  "apply_connection_path path rtt_ms snapshot = snapshot\<lparr>sn_path := path, sn_rtt_ms := Some rtt_ms\<rparr>"

definition refresh_remote_state ::
  "client \<Rightarrow> nat \<Rightarrow> 'f monitor_state \<Rightarrow> (RemoteFleetError, 'f monitor_state) result" where
  "refresh_remote_state cl n st =
     rbind (get_health cl n) (\<lambda>health.
     rbind (get_connection_path cl (n + 1)) (\<lambda>(path, rtt_ms).
       Inr (put_entry st (apply_connection_path path rtt_ms
         ((entry_of st)\<lparr>sn_state := hs_state health, sn_details := hs_details health\<rparr>)))))"

text \<open>
  The time of the throttle check and the time stamped after it are two readings of the clock.
\<close>

datatype session_event =
  Received "Response option" nat nat i64 "nat \<Rightarrow> bool"
| ReceiveFailed TransportError
| Silence
| RefreshTick nat

definition receive_sample ::
  "(machines, 'f) file_codec \<Rightarrow> MetricSample \<Rightarrow> nat \<Rightarrow> nat \<Rightarrow> i64 \<Rightarrow> (nat \<Rightarrow> bool) \<Rightarrow> 'f monitor_state \<Rightarrow>
   'f monitor_state" where
  "receive_sample c sample checked stamped now io st =
     (let should_persist =
            (case mo_last_persisted st of
               None \<Rightarrow> True
             | Some persisted \<Rightarrow> SNAPSHOT_PERSIST_INTERVAL \<le> checked - persisted);
          snapshot = entry_of st;
          point = (TrendSample_from sample)\<lparr>ts_rtt_ms := sn_rtt_ms snapshot\<rparr>;
          snapshot = snapshot\<lparr>sn_trend := push (sn_trend snapshot) point, sn_latest := Some sample,
                              sn_last_seen_ms := Some now\<rparr>;
          st = put_entry st snapshot
      in if should_persist then
           st\<lparr>mo_last_persisted := Some stamped,
              mo_registry :=
                snd (update_snapshot c io (rr_endpoint_id (mo_record st), snapshot) (mo_registry st)),
              mo_writes := mo_writes st @ [stamped]\<rparr>
         else st)"

definition receive_heartbeat :: "i64 \<Rightarrow> 'f monitor_state \<Rightarrow> 'f monitor_state" where
  "receive_heartbeat now st =
     (case bt_get (mo_snapshots st) (rr_endpoint_id (mo_record st)) of
        None \<Rightarrow> st
      | Some snapshot \<Rightarrow> put_entry st (snapshot\<lparr>sn_last_seen_ms := Some now\<rparr>))"

text \<open>The event loop of a session: it ends with an error only, \<open>None\<close> is a session still running.\<close>

fun session_loop ::
  "(machines, 'f) file_codec \<Rightarrow> client \<Rightarrow> 'f monitor_state \<Rightarrow> session_event list \<Rightarrow>
   RemoteFleetError option \<times> 'f monitor_state" where
  "session_loop c cl st [] = (None, st)"
| "session_loop c cl st (Silence # _) = (Some (FleetTimeout ''metrics heartbeat''), st)"
| "session_loop c cl st (ReceiveFailed e # _) = (Some (FleetTransport e), st)"
| "session_loop c cl st (RefreshTick n # rest) =
     (case refresh_remote_state cl n st of
        Inl e \<Rightarrow> (Some e, st)
      | Inr st' \<Rightarrow> session_loop c cl st' rest)"
| "session_loop c cl st (Received response checked stamped now io # rest) =
     (case response of
        Some (RMetricSample w) \<Rightarrow>
          session_loop c cl (receive_sample c (metric_sample_of_wire w) checked stamped now io st) rest
      | Some (RHeartbeat _) \<Rightarrow> session_loop c cl (receive_heartbeat now st) rest
      | _ \<Rightarrow> (Some (UnexpectedResponse ''metrics event''), st))"

record 'f session_input =
  si_others :: "'f machine_registry \<times> snapshots \<Rightarrow> 'f machine_registry \<times> snapshots"
  si_dial :: dial
  si_io :: "nat \<Rightarrow> bool"
  si_now :: i64
  si_stream :: "(TransportError, unit) result timed"
  si_events :: "session_event list"
  si_elapsed :: nat
  si_error_now :: i64

definition monitor_session ::
  "ids \<Rightarrow> codecs \<Rightarrow> (machines, 'f) file_codec \<Rightarrow> 'f session_input \<Rightarrow> 'f monitor_state \<Rightarrow>
   RemoteFleetError option \<times> 'f monitor_state" where
  "monitor_session ids cs c inp st =
     (case connect_record ids cs (si_dial inp) (mo_record st) of
        Inl e \<Rightarrow> (Some e, st)
      | Inr cl \<Rightarrow>
          let st = refresh_direct_addresses c (si_io inp) cl st in
          (case rbind (get_node_info ids cl 1) (\<lambda>node.
                rbind (get_health cl 2) (\<lambda>health.
                rbind (get_connection_path cl 3) (\<lambda>details. Inr (node, health, details)))) of
             Inl e \<Rightarrow> (Some e, st)
           | Inr (node, health, path, rtt_ms) \<Rightarrow>
               let st = put_entry st ((apply_connection_path path rtt_ms
                     ((entry_of st)\<lparr>sn_node := node, sn_state := hs_state health, sn_details := hs_details health\<rparr>))
                     \<lparr>sn_last_seen_ms := Some (si_now inp)\<rparr>)
               in case timed_result ''watch metrics'' (si_stream inp) of
                    Inl e \<Rightarrow> (Some e, st)
                  | Inr _ \<Rightarrow> session_loop c cl st (si_events inp)))"

section \<open>Failures and reconnection\<close>

definition relay_hint :: string where
  "relay_hint =
     ''no known address answered and the configured relay did not carry the session; '' @
     ''check that the relay is running and reachable, or if this machine restarted on a '' @
     ''new port, give it a fixed one with `rackio listen-port set <PORT>` and restart it''"

definition address_hint :: string where
  "address_hint =
     ''no known address answered; if this machine restarted on a new port, '' @
     ''give it a fixed one with `rackio listen-port set <PORT>` and restart it, '' @
     ''or pair again''"

definition unreachable_hint :: "RemoteFleetError \<Rightarrow> bool \<Rightarrow> string option" where
  "unreachable_hint e relay_configured =
     (if e = FleetTimeout ''connect'' \<or> e = FleetTransport ConnectError
      then Some (if relay_configured then relay_hint else address_hint)
      else None)"

text \<open>\<open>display\<close> is the text of an error, which embeds those of the layers below.\<close>

definition error_state :: "RemoteFleetError \<Rightarrow> RemoteMachineSnapshot \<Rightarrow> i64 \<Rightarrow> NodeState" where
  "error_state e snapshot now =
     (case e of
        FleetTransport (RemoteError code _) \<Rightarrow>
          if code = ''auth_error'' then AuthError
          else if code = ''incompatible'' then Incompatible
          else state_at snapshot now
      | IdentityMismatch \<Rightarrow> AuthError
      | _ \<Rightarrow> state_at snapshot now)"

definition update_error ::
  "(RemoteFleetError \<Rightarrow> string) \<Rightarrow> i64 \<Rightarrow> RemoteFleetError \<Rightarrow> 'f monitor_state \<Rightarrow> 'f monitor_state" where
  "update_error display now e st =
     (let snapshot = entry_of st in
      put_entry st (snapshot
        \<lparr>sn_state := error_state e snapshot now,
         sn_details := display e #
           (case unreachable_hint e (rr_relay_urls (mo_record st) \<noteq> []) of
              None \<Rightarrow> [] | Some hint \<Rightarrow> [hint])\<rparr>))"

text \<open>
  The outer loop, one input per turn. Other tasks may have changed the shared registry and snapshots
  before the turn. The result says whether the monitor stopped, and how long it slept after each turn.
\<close>

fun monitor_machine ::
  "ids \<Rightarrow> codecs \<Rightarrow> (machines, 'f) file_codec \<Rightarrow> (RemoteFleetError \<Rightarrow> string) \<Rightarrow> nat \<Rightarrow> 'f monitor_state \<Rightarrow>
   'f session_input list \<Rightarrow> bool \<times> nat list \<times> 'f monitor_state" where
  "monitor_machine ids cs c display retry_delay st [] = (False, [], st)"
| "monitor_machine ids cs c display retry_delay st (inp # rest) =
     (let (reg, snaps) = si_others inp (mo_registry st, mo_snapshots st);
          st = st\<lparr>mo_registry := reg, mo_snapshots := snaps\<rparr>
      in if machines_contains reg (rr_endpoint_id (mo_record st)) = Inr False then (True, [], st)
         else case monitor_session ids cs c inp st of
                (None, st) \<Rightarrow> (False, [], st)
              | (Some e, st) \<Rightarrow>
                  let st = update_error display (si_error_now inp) e st;
                      delay = (if STREAM_SILENCE_TIMEOUT \<le> si_elapsed inp then INITIAL_RECONNECT_DELAY
                               else retry_delay);
                      (stopped, delays, final) =
                        monitor_machine ids cs c display (min (2 * delay) MAX_RECONNECT_DELAY) st rest
                  in (stopped, delay # delays, final))"

section \<open>Lemmas on the steps\<close>

lemma put_entry_frame [simp]:
  "mo_record (put_entry st s) = mo_record st"
  "mo_registry (put_entry st s) = mo_registry st"
  "mo_last_persisted (put_entry st s) = mo_last_persisted st"
  "mo_writes (put_entry st s) = mo_writes st"
  by (simp_all add: put_entry_def)

lemma entry_of_put [simp]: "entry_of (put_entry st s) = s"
  by (simp add: entry_of_def put_entry_def)

lemma put_entry_keeps:
  "bt_get (mo_snapshots st) eid \<noteq> None \<Longrightarrow> bt_get (mo_snapshots (put_entry st s)) eid \<noteq> None"
  by (simp add: put_entry_def)

lemma put_entry_other:
  "eid \<noteq> rr_endpoint_id (mo_record st) \<Longrightarrow>
     bt_get (mo_snapshots (put_entry st s)) eid = bt_get (mo_snapshots st) eid"
  by (simp add: put_entry_def)

lemma connect_record_pinned:
  assumes "connect_record ids cs dial r = Inr cl"
  shows "endpoint_str ids (cl_remote_id cl) = rr_endpoint_id r"
    and "\<exists>node. get_node_info ids cl 0 = Inr node \<and> ni_node_id node = ni_node_id (rr_node r)"
  using assms by (auto simp: connect_record_def rbind_eq_Inr split: if_splits)

text \<open>
  The contract all steps of a session share: they work on the monitored machine only. What they may do
  to the registry is to update the addresses or the snapshot of that machine, so they never add or
  remove one.
\<close>

definition same_machine :: "'f monitor_state \<Rightarrow> 'f monitor_state \<Rightarrow> bool" where
  "same_machine st st' \<longleftrightarrow>
     rr_endpoint_id (mo_record st') = rr_endpoint_id (mo_record st) \<and>
     rr_node (mo_record st') = rr_node (mo_record st) \<and>
     (\<forall>eid. bt_get (reg_records (mo_registry st')) eid = None \<longleftrightarrow>
        bt_get (reg_records (mo_registry st)) eid = None) \<and>
     (keyed (reg_records (mo_registry st)) \<longrightarrow> keyed (reg_records (mo_registry st'))) \<and>
     reg_poisoned (mo_registry st') = reg_poisoned (mo_registry st) \<and>
     (\<forall>eid. bt_get (mo_snapshots st) eid \<noteq> None \<longrightarrow> bt_get (mo_snapshots st') eid \<noteq> None) \<and>
     (\<forall>eid. eid \<noteq> rr_endpoint_id (mo_record st) \<longrightarrow>
        bt_get (reg_records (mo_registry st')) eid = bt_get (reg_records (mo_registry st)) eid \<and>
        bt_get (mo_snapshots st') eid = bt_get (mo_snapshots st) eid)"

lemma update_keeps_machines:
  "bt_get (reg_records (snd (update_addresses c io a reg))) eid = None \<longleftrightarrow> bt_get (reg_records reg) eid = None"
  "bt_get (reg_records (snd (update_snapshot c io b reg))) eid = None \<longleftrightarrow> bt_get (reg_records reg) eid = None"
  unfolding update_addresses_def update_snapshot_def case_prod_beta
  by (rule modify_keeps_domain; auto split: option.splits if_splits)+

lemma update_keeps_lock:
  "reg_poisoned (snd (update_addresses c io a reg)) = reg_poisoned reg"
  "reg_poisoned (snd (update_snapshot c io b reg)) = reg_poisoned reg"
  unfolding update_addresses_def update_snapshot_def case_prod_beta by simp_all

lemma same_machine_refl [simp]: "same_machine st st"
  by (simp add: same_machine_def)

lemma same_machine_trans: "same_machine a b \<Longrightarrow> same_machine b c \<Longrightarrow> same_machine a c"
  by (simp add: same_machine_def)

lemma same_machine_put [simp]: "same_machine st (put_entry st s)"
  using put_entry_keeps [of st _ s] by (simp add: same_machine_def put_entry_other)

lemma same_machine_refresh: "same_machine st (refresh_direct_addresses c io cl st)"
proof -
  let ?a = "(rr_endpoint_id (mo_record st), merged_direct_addresses (observed_direct_addresses (cl_paths cl))
    (rr_direct_addresses (mo_record st)))"
  have frame: "bt_get (reg_records (snd (update_addresses c io ?a (mo_registry st)))) eid =
      bt_get (reg_records (mo_registry st)) eid" if "eid \<noteq> rr_endpoint_id (mo_record st)" for eid
    using that by (intro move_machine.frame) simp
  show ?thesis
    using frame move_machine.keyed_step [of "mo_registry st" c io ?a]
      update_keeps_machines(1) [of c io ?a "mo_registry st"] update_keeps_lock(1) [of c io ?a "mo_registry st"]
    by (cases "update_addresses c io ?a (mo_registry st)", cases "fst (update_addresses c io ?a (mo_registry st))")
      (simp_all add: refresh_direct_addresses_def same_machine_def Let_def)
qed

lemma same_machine_sample: "same_machine st (receive_sample c s t1 t2 now io st)"
proof -
  have frame: "bt_get (reg_records (snd (update_snapshot c io (k, x) (mo_registry st)))) eid =
      bt_get (reg_records (mo_registry st)) eid" if "eid \<noteq> k" for eid k x
    using that by (intro note_machine.frame) simp
  show ?thesis
    using frame note_machine.keyed_step [of "mo_registry st" c io] put_entry_keeps [of st]
    by (simp add: receive_sample_def same_machine_def put_entry_other Let_def update_keeps_machines
        update_keeps_lock)
qed

lemma same_machine_heartbeat: "same_machine st (receive_heartbeat now st)"
  by (simp add: receive_heartbeat_def split: option.splits)

lemma same_machine_state: "refresh_remote_state cl n st = Inr st' \<Longrightarrow> same_machine st st'"
  by (auto simp: refresh_remote_state_def rbind_eq_Inr)

lemma same_machine_loop: "same_machine st (snd (session_loop c cl st events))"
proof (induction c cl st events rule: session_loop.induct)
  case (4 c cl st n rest)
  then show ?case by (auto split: sum.splits dest: same_machine_state intro: same_machine_trans)
next
  case (5 c cl st response checked stamped now io rest)
  then show ?case
    by (auto split: option.splits Response.splits
        intro: same_machine_trans same_machine_sample same_machine_heartbeat)
qed simp_all

lemma same_machine_session: "same_machine st (snd (monitor_session ids cs c inp st))"
  unfolding monitor_session_def Let_def
  by (auto split: sum.splits prod.splits simp: timed_result_def
      intro: same_machine_refresh same_machine_trans [OF same_machine_refresh same_machine_put]
        same_machine_trans [OF same_machine_trans [OF same_machine_refresh same_machine_put] same_machine_loop])

lemma same_machine_error: "same_machine st (update_error display now e st)"
  by (simp add: update_error_def Let_def)

section \<open>Properties\<close>

definition clock_ok :: "'f session_input \<Rightarrow> bool" where
  "clock_ok inp \<longleftrightarrow>
     list_all (\<lambda>e. case e of Received _ checked stamped _ _ \<Rightarrow> checked \<le> stamped | _ \<Rightarrow> True) (si_events inp)"

definition spaced :: "nat list \<Rightarrow> bool" where
  "spaced ts \<longleftrightarrow> sorted_wrt (\<lambda>a b. a + SNAPSHOT_PERSIST_INTERVAL \<le> b) ts"

definition throttled :: "'f monitor_state \<Rightarrow> bool" where
  "throttled st \<longleftrightarrow> spaced (mo_writes st) \<and>
     mo_last_persisted st = (if mo_writes st = [] then None else Some (last (mo_writes st)))"

lemma spaced_snoc:
  assumes "spaced ts" and "ts \<noteq> [] \<Longrightarrow> last ts + SNAPSHOT_PERSIST_INTERVAL \<le> t"
  shows "spaced (ts @ [t])"
proof (cases ts rule: rev_cases)
  case (snoc ys y)
  with assms show ?thesis by (auto simp: spaced_def sorted_wrt_append)
qed (simp add: spaced_def)

lemma throttled_sample:
  assumes "throttled st" and "checked \<le> stamped"
  shows "throttled (receive_sample c s checked stamped now io st)"
proof -
  have "spaced (mo_writes st @ [stamped])"
    if "\<forall>p. mo_last_persisted st = Some p \<longrightarrow> SNAPSHOT_PERSIST_INTERVAL \<le> checked - p"
  proof (rule spaced_snoc)
    show "spaced (mo_writes st)" using assms(1) by (simp add: throttled_def)
    assume "mo_writes st \<noteq> []"
    then have "SNAPSHOT_PERSIST_INTERVAL \<le> checked - last (mo_writes st)"
      using that assms(1) by (simp add: throttled_def)
    then show "last (mo_writes st) + SNAPSHOT_PERSIST_INTERVAL \<le> stamped"
      using assms(2) by (simp add: SNAPSHOT_PERSIST_INTERVAL_def)
  qed
  then show ?thesis
    using assms(1) by (auto simp: receive_sample_def throttled_def Let_def split: option.splits)
qed

text \<open>Every step other than a sample leaves the throttle alone.\<close>

lemma throttled_frame:
  "mo_writes st' = mo_writes st \<Longrightarrow> mo_last_persisted st' = mo_last_persisted st \<Longrightarrow> throttled st' = throttled st"
  by (simp add: throttled_def)

lemma refresh_direct_addresses_throttle [simp]:
  "throttled (refresh_direct_addresses c io cl st) = throttled st"
  by (rule throttled_frame)
    (auto simp: refresh_direct_addresses_def Let_def split: prod.splits sum.splits)

lemma put_entry_throttle [simp]: "throttled (put_entry st s) = throttled st"
  by (rule throttled_frame) simp_all

lemma throttled_state: "refresh_remote_state cl n st = Inr st' \<Longrightarrow> throttled st' = throttled st"
  by (auto simp: refresh_remote_state_def rbind_eq_Inr)

lemma throttled_loop:
  assumes "throttled st"
    and "list_all (\<lambda>e. case e of Received _ checked stamped _ _ \<Rightarrow> checked \<le> stamped | _ \<Rightarrow> True) events"
  shows "throttled (snd (session_loop c cl st events))"
  using assms
proof (induction c cl st events rule: session_loop.induct)
  case (4 c cl st n rest)
  then show ?case by (auto split: sum.splits simp: throttled_state)
next
  case (5 c cl st response checked stamped now io rest)
  then show ?case
    by (auto split: option.splits Response.splits simp: throttled_sample receive_heartbeat_def)
qed simp_all

lemma throttled_session:
  assumes "throttled st" and "clock_ok inp"
  shows "throttled (snd (monitor_session ids cs c inp st))"
  using assms unfolding monitor_session_def Let_def clock_ok_def
  by (auto split: sum.splits prod.splits intro: throttled_loop)

text \<open>
  C10. A hostile machine cannot choose how often the viewer writes to its disk. Whatever a monitored peer
  sends, however often it drops the connection to force a new session, and whatever other tasks do to the
  registry meanwhile, any two durable snapshot writes of its monitor are at least ten seconds apart on the
  viewer's own clock.
\<close>

theorem snapshot_writes_throttled:
  assumes "\<forall>inp \<in> set inputs. clock_ok inp"
    and "mo_writes st = []" and "mo_last_persisted st = None"
    and "monitor_machine ids cs c display retry_delay st inputs = (stopped, delays, final)"
  shows "sorted_wrt (\<lambda>a b. a + 10000 \<le> b) (mo_writes final)"
proof -
  have "throttled (snd (snd (monitor_machine ids cs c display retry_delay st inputs)))"
    if "throttled st" "\<forall>inp \<in> set inputs. clock_ok inp" for retry_delay st inputs
    using that
  proof (induction ids cs c display retry_delay st inputs rule: monitor_machine.induct)
    case (2 ids cs c display retry_delay st inp rest)
    obtain reg snaps where others: "si_others inp (mo_registry st, mo_snapshots st) = (reg, snaps)" by fastforce
    let ?st = "st\<lparr>mo_registry := reg, mo_snapshots := snaps\<rparr>"
    obtain e st' where session: "monitor_session ids cs c inp ?st = (e, st')" by fastforce
    have "throttled ?st" using "2.prems"(1) by (simp add: throttled_def)
    then have st': "throttled st'" using throttled_session [of ?st inp ids cs c] "2.prems"(2) session by simp
    then have "throttled (update_error display (si_error_now inp) e' st')" for e'
      by (simp add: update_error_def Let_def)
    then show ?case
      using "2.IH" [OF others [symmetric] refl] "2.prems"(2) session st' others \<open>throttled ?st\<close>
      by (auto simp: Let_def split: option.splits prod.splits)
  qed simp
  then have "throttled final" using assms by (metis snd_conv throttled_def sorted_wrt.simps(1) spaced_def)
  then show ?thesis by (simp add: throttled_def spaced_def SNAPSHOT_PERSIST_INTERVAL_def)
qed

definition witness_input :: "(TransportError, client) result timed \<Rightarrow> session_event list \<Rightarrow> machines session_input" where
  "witness_input answer events =
     \<lparr>si_others = (\<lambda>x. x), si_dial = (\<lambda>_. answer), si_io = (\<lambda>_. False), si_now = 5000,
      si_stream = InTime (Inr ()), si_events = events, si_elapsed = 100, si_error_now = 6000\<rparr>"

definition witness_codecs :: codecs where
  "witness_codecs = plain_codecs\<lparr>endpoint_parse := (\<lambda>_. Some 4)\<rparr>"

definition witness_machine :: RemoteMachineRecord where
  "witness_machine = witness_record\<lparr>rr_endpoint_id := endpoint_str bit_ids 4\<rparr>"

definition witness_client :: client where
  "witness_client =
     \<lparr>cl_remote_id = 4, cl_local_id = 9, cl_paths = [],
      cl_answer = (\<lambda>_ body. InTime (Inr (Some (case body of
        GetNodeInfo _ \<Rightarrow> RNodeInfo (node_info_to_wire bit_ids (rr_node witness_record) 4)
      | GetHealth _ \<Rightarrow> RHealth (health_to_wire \<lparr>hs_state = Healthy, hs_collector_degraded = False,
          hs_storage_degraded = False, hs_remote_listener_degraded = False, hs_details = []\<rparr>)
      | _ \<Rightarrow> RConnectionPath (connection_details UnknownPath 3)))))\<rparr>"

definition witness_monitor :: "machines monitor_state" where
  "witness_monitor =
     \<lparr>mo_record = witness_machine,
      mo_registry = \<lparr>reg_records = [(endpoint_str bit_ids 4, witness_machine)], reg_file = None, reg_poisoned = False\<rparr>,
      mo_snapshots = [], mo_last_persisted = None, mo_writes = []\<rparr>"

definition sample_event :: "nat \<Rightarrow> session_event" where
  "sample_event t = Received (Some (RMetricSample (metric_sample_to_wire (plain_sample 1 None [])))) t t 7 (\<lambda>_. False)"

lemma witness_answers:
  "get_node_info bit_ids witness_client n = Inr (rr_node witness_record)"
  "get_health witness_client n = Inr \<lparr>hs_state = Healthy, hs_collector_degraded = False,
     hs_storage_degraded = False, hs_remote_listener_degraded = False, hs_details = []\<rparr>"
  "get_connection_path witness_client n = Inr (UnknownPath, 3)"
proof -
  have "node_info_of_wire bit_ids (node_info_to_wire bit_ids (rr_node witness_record) 4) =
      Inr (rr_node witness_record)"
    using bit_ids_faithful
    by (simp add: node_info_of_wire_def node_info_to_wire_def ids_faithful_def comp_def witness_record_def
        V1_def)
  then show "get_node_info bit_ids witness_client n = Inr (rr_node witness_record)"
    by (simp add: get_node_info_def client_request_def timed_result_def witness_client_def)
  show "get_health witness_client n = Inr \<lparr>hs_state = Healthy, hs_collector_degraded = False,
     hs_storage_degraded = False, hs_remote_listener_degraded = False, hs_details = []\<rparr>"
    by (simp add: get_health_def client_request_def timed_result_def witness_client_def health_of_wire_def
        health_to_wire_def node_state_of_def)
  show "get_connection_path witness_client n = Inr (UnknownPath, 3)"
    by (simp add: get_connection_path_def client_request_def timed_result_def witness_client_def
        connection_details_def connection_path_of_def)
qed

lemma witness_connects:
  "connect_record bit_ids witness_codecs (\<lambda>_. InTime (Inr witness_client)) witness_machine = Inr witness_client"
  by (simp add: connect_record_def record_endpoint_addr_def bundle_endpoint_addr_def witness_codecs_def
      plain_codecs_def timed_result_def witness_answers witness_machine_def witness_record_def)
    (simp add: witness_client_def)

theorem snapshot_writes_throttled_witness:
  "mo_writes (snd (snd (monitor_machine bit_ids witness_codecs plain_machines (\<lambda>_. '''') 1000 witness_monitor
     [witness_input (InTime (Inr witness_client)) [sample_event 10, sample_event 20, sample_event 10010]]))) =
   [10, 10010] \<and> sorted_wrt (\<lambda>a b. a + 10000 \<le> b) [10, 10010 :: nat]"
proof -
  let ?inputs = "[witness_input (InTime (Inr witness_client)) [sample_event 10, sample_event 20, sample_event 10010]]"
  let ?run = "monitor_machine bit_ids witness_codecs plain_machines (\<lambda>_. '''') 1000 witness_monitor ?inputs"
  have quiet: "refresh_direct_addresses plain_machines io witness_client st = st" for io and st :: "machines monitor_state"
    by (simp add: refresh_direct_addresses_def observed_direct_addresses_def witness_client_def List.map_filter_simps)
  have known: "bt_get [(endpoint_str bit_ids 4, witness_machine)] (rr_endpoint_id witness_machine) = Some witness_machine"
    by (simp add: witness_machine_def bt_get_def)
  have writes: "mo_writes (snd (snd ?run)) = [10, 10010]"
    by (simp add: witness_input_def witness_monitor_def machines_contains_def monitor_session_def
        witness_connects witness_answers quiet known sample_event_def receive_sample_def
        SNAPSHOT_PERSIST_INTERVAL_def timed_result_def Let_def)
  obtain a b d where run: "?run = (a, b, d)" by (metis prod_cases3)
  have "\<forall>inp \<in> set ?inputs. clock_ok inp"
    by (simp add: clock_ok_def witness_input_def sample_event_def)
  from snapshot_writes_throttled [OF this _ _ run]
  have "sorted_wrt (\<lambda>a b. a + 10000 \<le> b) (mo_writes d)" by (simp add: witness_monitor_def)
  then show ?thesis using writes run by simp
qed

text \<open>One turn of a monitor that goes on waits for \<open>delay\<close> and continues with the doubled pause.\<close>

lemma monitor_machine_Cons:
  assumes "monitor_machine ids cs c display retry st (inp # rest) = (stopped, delays, final)"
    and "delay = (if 12000 \<le> si_elapsed inp then 1000 else retry)"
  obtains "delays = []"
  | st' ds where "delays = delay # ds"
      "monitor_machine ids cs c display (min (2 * delay) 30000) st' rest = (stopped, ds, final)"
proof -
  obtain reg snaps where others: "si_others inp (mo_registry st, mo_snapshots st) = (reg, snaps)" by fastforce
  let ?st = "st\<lparr>mo_registry := reg, mo_snapshots := snaps\<rparr>"
  obtain e st' where session: "monitor_session ids cs c inp ?st = (e, st')" by fastforce
  have delay_eq: "(if STREAM_SILENCE_TIMEOUT \<le> si_elapsed inp then INITIAL_RECONNECT_DELAY else retry) = delay"
    using assms(2) by (simp add: STREAM_SILENCE_TIMEOUT_def INITIAL_RECONNECT_DELAY_def)
  show thesis
  proof (cases "machines_contains reg (rr_endpoint_id (mo_record ?st)) = Inr False \<or> e = None")
    case True
    then show thesis using assms(1) others session that(1) by (auto simp: Let_def split: if_splits)
  next
    case False
    then obtain err where e: "e = Some err" by auto
    define next_st where "next_st = update_error display (si_error_now inp) err st'"
    obtain s ds f where rec: "monitor_machine ids cs c display (min (2 * delay) 30000) next_st rest = (s, ds, f)"
      by (metis prod_cases3)
    have "delays = delay # ds" "s = stopped" "f = final"
      using assms(1) others session e False rec
      by (auto simp: Let_def delay_eq MAX_RECONNECT_DELAY_def next_st_def [symmetric] split: if_splits)
    then show thesis using that(2) rec by blast
  qed
qed

lemma monitor_delays:
  assumes "1000 \<le> retry" and "retry \<le> 30000"
    and "monitor_machine ids cs c display retry st inputs = (stopped, delays, final)"
  shows "length delays \<le> length inputs \<and> (\<forall>d \<in> set delays. 1000 \<le> d \<and> d \<le> 30000) \<and>
    (\<forall>i < length delays. delays ! i =
       (if 12000 \<le> si_elapsed (inputs ! i) then 1000
        else if i = 0 then retry else min 30000 (2 * delays ! (i - 1))))"
  using assms
proof (induction inputs arbitrary: retry st delays)
  case (Cons inp rest)
  define delay where "delay = (if 12000 \<le> si_elapsed inp then 1000 else retry)"
  show ?case
  proof (rule monitor_machine_Cons [OF Cons.prems(3) delay_def])
    fix st' ds
    assume delays: "delays = delay # ds"
      and rec: "monitor_machine ids cs c display (min (2 * delay) 30000) st' rest = (stopped, ds, final)"
    have bounds: "1000 \<le> delay" "delay \<le> 30000" using Cons.prems(1,2) by (simp_all add: delay_def)
    have IH: "length ds \<le> length rest" "\<forall>d \<in> set ds. 1000 \<le> d \<and> d \<le> 30000"
      "k < length ds \<Longrightarrow> ds ! k = (if 12000 \<le> si_elapsed (rest ! k) then 1000
        else if k = 0 then min (2 * delay) 30000 else min 30000 (2 * ds ! (k - 1)))" for k
      using Cons.IH [OF _ _ rec] bounds by simp_all
    have "delays ! i = (if 12000 \<le> si_elapsed ((inp # rest) ! i) then 1000
        else if i = 0 then retry else min 30000 (2 * delays ! (i - 1)))" if i: "i < length delays" for i
    proof (cases i)
      case (Suc j)
      then have j: "j < length ds" using i by (simp add: delays)
      show ?thesis unfolding Suc delays nth_Cons_Suc IH(3) [OF j] by (cases j) (auto simp: min_def)
    qed (simp add: delays delay_def)
    then show ?thesis unfolding delays using IH(1,2) bounds by simp
  qed simp
qed simp

text \<open>
  Reconnection backs off and recovers: every pause of the monitor is between one and thirty seconds; a
  session that outlived the silence timeout is followed by the base delay, and after any other the pause
  doubles up to the ceiling.
\<close>

theorem reconnect_backoff:
  assumes "monitor_machine ids cs c display INITIAL_RECONNECT_DELAY st inputs = (stopped, delays, final)"
  shows "length delays \<le> length inputs \<and> (\<forall>d \<in> set delays. 1000 \<le> d \<and> d \<le> 30000) \<and>
    (\<forall>i < length delays. delays ! i =
       (if 12000 \<le> si_elapsed (inputs ! i) then 1000
        else if i = 0 then 1000 else min 30000 (2 * delays ! (i - 1))))"
  by (rule monitor_delays [OF _ _ assms [unfolded INITIAL_RECONNECT_DELAY_def]]) simp_all

theorem reconnect_backoff_witness:
  "fst (snd (monitor_machine bit_ids witness_codecs plain_machines (\<lambda>_. '''') INITIAL_RECONNECT_DELAY witness_monitor
     [witness_input TimedOut [], witness_input TimedOut []])) = [1000, 2000]"
proof -
  let ?inputs = "[witness_input TimedOut [], witness_input TimedOut []]"
  let ?run = "monitor_machine bit_ids witness_codecs plain_machines (\<lambda>_. '''') INITIAL_RECONNECT_DELAY witness_monitor ?inputs"
  have known: "bt_get [(endpoint_str bit_ids 4, witness_machine)] (rr_endpoint_id witness_machine) = Some witness_machine"
    by (simp add: witness_machine_def bt_get_def)
  have fails: "connect_record bit_ids witness_codecs (\<lambda>_. TimedOut) witness_machine = Inl (FleetTimeout ''connect'')"
    by (simp add: connect_record_def record_endpoint_addr_def bundle_endpoint_addr_def witness_codecs_def
        plain_codecs_def timed_result_def witness_machine_def witness_record_def)
  have two: "length (fst (snd ?run)) = 2"
    by (simp add: witness_input_def witness_monitor_def machines_contains_def known monitor_session_def fails
        update_error_def Let_def split: prod.splits)
  obtain a ds f where run: "?run = (a, ds, f)" by (metis prod_cases3)
  from reconnect_backoff [OF this] two run
  have "\<forall>i < 2. ds ! i = (if i = 0 then 1000 else min 30000 (2 * ds ! (i - 1)))" "length ds = 2"
    by (auto simp: witness_input_def less_Suc_eq numeral_2_eq_2)
  then have "ds = [1000, 2000]"
    by (intro nth_equalityI) (auto simp: less_Suc_eq numeral_2_eq_2)
  then show ?thesis using run by simp
qed

text \<open>
  A pinned identity is never replaced. If whoever answers at a machine's addresses does not hold its
  endpoint key, or reports another node identity, or nobody answers at all, then the turn of the monitor ends
  with an error that leaves the registry as it was and the snapshots of all machines as they were, except that
  the machine itself is marked: no sample, trend point, path or time of contact is taken from the impostor, and
  a proven impostor shows as an authorization error.
\<close>

theorem impostor_changes_only_the_mark:
  assumes "\<forall>address cl. si_dial inp address = InTime (Inr cl) \<longrightarrow>
      endpoint_str ids (cl_remote_id cl) \<noteq> rr_endpoint_id (mo_record st) \<or>
      (\<forall>node. get_node_info ids cl 0 = Inr node \<longrightarrow> ni_node_id node \<noteq> ni_node_id (rr_node (mo_record st)))"
    and "monitor_session ids cs c inp st = (outcome, st')"
  shows "\<exists>e. outcome = Some e \<and> st' = st \<and>
    (let marked = update_error display now e st' in
       mo_registry marked = mo_registry st \<and>
       (\<forall>eid. eid \<noteq> rr_endpoint_id (mo_record st) \<longrightarrow> bt_get (mo_snapshots marked) eid = bt_get (mo_snapshots st) eid) \<and>
       entry_of marked = (entry_of st)\<lparr>sn_state := sn_state (entry_of marked), sn_details := sn_details (entry_of marked)\<rparr> \<and>
       (e = IdentityMismatch \<longrightarrow> sn_state (entry_of marked) = AuthError))"
proof -
  obtain e where e: "connect_record ids cs (si_dial inp) (mo_record st) = Inl e"
  proof (cases "connect_record ids cs (si_dial inp) (mo_record st)")
    case (Inr cl)
    then obtain address where "si_dial inp address = InTime (Inr cl)"
      by (auto simp: connect_record_def rbind_eq_Inr split: if_splits)
    with assms(1) connect_record_pinned [OF Inr] show ?thesis by blast
  qed
  then have "outcome = Some e" "st' = st" using assms(2) by (simp_all add: monitor_session_def)
  then show ?thesis
    by (simp add: update_error_def Let_def put_entry_other error_state_def)
qed

theorem impostor_changes_only_the_mark_witness:
  "sn_state (entry_of (update_error (\<lambda>_. '''') 0 IdentityMismatch witness_monitor)) = AuthError \<and>
   monitor_session bit_ids witness_codecs plain_machines
     (witness_input (InTime (Inr (witness_client\<lparr>cl_remote_id := 8\<rparr>))) []) witness_monitor =
     (Some IdentityMismatch, witness_monitor)"
proof -
  let ?inp = "witness_input (InTime (Inr (witness_client\<lparr>cl_remote_id := 8\<rparr>))) []"
  have other: "endpoint_str bit_ids 8 \<noteq> endpoint_str bit_ids 4"
    using bit_ids_faithful by (auto simp: ids_faithful_def dest!: injD)
  have run: "monitor_session bit_ids witness_codecs plain_machines ?inp witness_monitor =
      (Some IdentityMismatch, witness_monitor)"
    using other
    by (simp add: monitor_session_def connect_record_def record_endpoint_addr_def bundle_endpoint_addr_def
        witness_codecs_def plain_codecs_def timed_result_def witness_machine_def witness_record_def
        witness_input_def witness_monitor_def)
  have "\<forall>address cl. si_dial ?inp address = InTime (Inr cl) \<longrightarrow>
      endpoint_str bit_ids (cl_remote_id cl) \<noteq> rr_endpoint_id (mo_record witness_monitor) \<or>
      (\<forall>node. get_node_info bit_ids cl 0 = Inr node \<longrightarrow>
         ni_node_id node \<noteq> ni_node_id (rr_node (mo_record witness_monitor)))"
    using other by (auto simp: witness_input_def witness_monitor_def witness_machine_def)
  from impostor_changes_only_the_mark [OF this run, of "\<lambda>_. ''''" 0] run show ?thesis
    by (auto simp: Let_def)
qed

text \<open>
  A monitor works on its own machine only. Over any number of sessions with any peer, as long as nobody
  else changes the shared state, it never adds a machine to the registry, leaves the records and snapshots of
  all other machines alone and keeps the pinned identity of its own; and it stops only because its pairing
  record is gone.
\<close>

theorem monitor_stays_on_its_machine:
  assumes "\<forall>inp \<in> set inputs. \<forall>x. si_others inp x = x"
    and "monitor_machine ids cs c display retry_delay st inputs = (stopped, delays, final)"
  shows "(\<forall>eid. bt_get (reg_records (mo_registry final)) eid \<noteq> None \<longrightarrow>
      bt_get (reg_records (mo_registry st)) eid \<noteq> None) \<and>
    (\<forall>eid. eid \<noteq> rr_endpoint_id (mo_record st) \<longrightarrow>
      bt_get (reg_records (mo_registry final)) eid = bt_get (reg_records (mo_registry st)) eid \<and>
      bt_get (mo_snapshots final) eid = bt_get (mo_snapshots st) eid) \<and>
    rr_endpoint_id (mo_record final) = rr_endpoint_id (mo_record st) \<and>
    rr_node (mo_record final) = rr_node (mo_record st) \<and>
    (stopped \<longrightarrow> machines_contains (mo_registry final) (rr_endpoint_id (mo_record st)) = Inr False)"
proof -
  have "same_machine st final \<and>
      (stopped \<longrightarrow> machines_contains (mo_registry final) (rr_endpoint_id (mo_record st)) = Inr False)"
    using assms
  proof (induction inputs arbitrary: retry_delay st delays)
    case (Cons inp rest)
    have others: "si_others inp (mo_registry st, mo_snapshots st) = (mo_registry st, mo_snapshots st)"
      using Cons.prems(1) by simp
    obtain e st' where session: "monitor_session ids cs c inp st = (e, st')" by fastforce
    have st': "same_machine st st'" using same_machine_session [of st ids cs c inp] session by simp
    show ?case
    proof (cases "machines_contains (mo_registry st) (rr_endpoint_id (mo_record st)) = Inr False \<or> e = None")
      case True
      then show ?thesis
        using Cons.prems(2) others session st' by (auto simp: Let_def split: if_splits)
    next
      case False
      then obtain err where e: "e = Some err" by auto
      define marked where "marked = update_error display (si_error_now inp) err st'"
      obtain retry ds where rec: "monitor_machine ids cs c display retry marked rest = (stopped, ds, final)"
        using Cons.prems(2) others session e False
        by (auto simp: Let_def marked_def split: if_splits prod.splits)
      have "same_machine st marked"
        unfolding marked_def using st' same_machine_error same_machine_trans by blast
      moreover have "\<forall>inp \<in> set rest. \<forall>x. si_others inp x = x" using Cons.prems(1) by simp
      ultimately show ?thesis
        using Cons.IH [OF _ rec] by (metis same_machine_def same_machine_trans)
    qed
  qed auto
  then show ?thesis by (auto simp: same_machine_def)
qed

theorem monitor_stays_on_its_machine_witness:
  "rr_node (mo_record (snd (snd (monitor_machine bit_ids witness_codecs plain_machines (\<lambda>_. '''') 1000 witness_monitor
     [witness_input (InTime (Inr witness_client)) [sample_event 10], witness_input TimedOut []])))) =
   rr_node witness_machine"
proof -
  let ?inputs = "[witness_input (InTime (Inr witness_client)) [sample_event 10], witness_input TimedOut []]"
  obtain a ds f where run: "monitor_machine bit_ids witness_codecs plain_machines (\<lambda>_. '''') 1000 witness_monitor
      ?inputs = (a, ds, f)" by (metis prod_cases3)
  have "\<forall>inp \<in> set ?inputs. \<forall>x. si_others inp x = x" by (simp add: witness_input_def)
  from monitor_stays_on_its_machine [OF this run] run show ?thesis
    by (simp add: witness_monitor_def)
qed

lemma push_new_take:
  "distinct xs \<Longrightarrow> \<exists>rest. push_new [] (xs @ ys) = xs @ rest"
  using push_new_prefix [of "push_new [] xs" ys] push_new_distinct [of "[]" xs] by (simp add: push_new_append)

lemma update_addresses_Inr:
  assumes "update_addresses c io (eid, addrs) reg = (Inr u, reg')" and "bt_get (reg_records reg) eid = Some r"
  shows "reg_records reg' = bt_insert eid (r\<lparr>rr_direct_addresses := addrs\<rparr>) (reg_records reg)"
  using modify_eq_Inr [OF assms(1) [unfolded update_addresses_def prod.case]] assms(2) by auto

text \<open>
  A viewer follows a machine that moved: the addresses it will dial next are the ones it just observed on
  the authenticated session, in order and first, then older ones, without repetition and never more than
  eight; a session that observed none (a relayed one) changes nothing; and what the monitor will dial is what
  the registry holds for the machine, also when the write fails.
\<close>

theorem addresses_follow_the_peer:
  assumes "bt_get (reg_records (mo_registry st)) (rr_endpoint_id (mo_record st)) = Some r"
    and "rr_direct_addresses r = rr_direct_addresses (mo_record st)"
    and "st' = refresh_direct_addresses c io cl st"
  defines "observed \<equiv> observed_direct_addresses (cl_paths cl)"
    and "known \<equiv> rr_direct_addresses (mo_record st)"
    and "addrs \<equiv> rr_direct_addresses (mo_record st')"
  shows "(\<exists>r'. bt_get (reg_records (mo_registry st')) (rr_endpoint_id (mo_record st)) = Some r' \<and>
      rr_direct_addresses r' = addrs) \<and>
    (observed = [] \<longrightarrow> st' = st) \<and>
    (addrs = known \<or>
     distinct addrs \<and> length addrs \<le> 8 \<and> take 8 observed = take (length observed) addrs \<and>
     set addrs \<subseteq> set observed \<union> set known)"
proof -
  have "distinct observed"
    unfolding observed_def by (simp add: observed_facts)
  then obtain rest where push: "push_new [] (observed @ known) = observed @ rest"
    using push_new_take by blast
  let ?merged = "merged_direct_addresses observed known"
  have merged: "?merged = take 8 (observed @ rest)"
    by (simp add: merged_direct_addresses_def MAX_RECORD_DIRECT_ADDRESSES_def push)
  have facts: "distinct ?merged" "length ?merged \<le> 8" "take 8 observed = take (length observed) ?merged"
    "set ?merged \<subseteq> set observed \<union> set known"
    using distinct_push_new [of "[]" "observed @ known"] set_push_new [of "[]" "observed @ known"]
    unfolding merged push [symmetric]
    by (auto simp: min_def push dest: in_set_takeD)
  show ?thesis
  proof (cases "observed = [] \<or> ?merged = known")
    case True
    then have "st' = st"
      using assms(3) by (auto simp: refresh_direct_addresses_def observed_def known_def Let_def)
    then show ?thesis using assms(1,2) by (simp add: addrs_def known_def)
  next
    case False
    let ?up = "update_addresses c io (rr_endpoint_id (mo_record st), ?merged) (mo_registry st)"
    show ?thesis
    proof (cases "fst ?up")
      case (Inl e)
      then have "snd ?up = mo_registry st" by (metis move_machine.refused prod.collapse)
      then have "addrs = known" "mo_registry st' = mo_registry st"
        using Inl False assms(3)
        by (auto simp: refresh_direct_addresses_def observed_def known_def addrs_def Let_def
            split: prod.splits)
      then show ?thesis using False assms(1,2) by (simp add: known_def)
    next
      case (Inr u)
      then obtain reg' where up: "?up = (Inr u, reg')" by (metis prod.collapse)
      then have "reg_records reg' = bt_insert (rr_endpoint_id (mo_record st))
          (r\<lparr>rr_direct_addresses := ?merged\<rparr>) (reg_records (mo_registry st))"
        using assms(1) by (rule update_addresses_Inr)
      moreover have "mo_registry st' = reg'" "addrs = ?merged"
        using up False assms(3)
        by (auto simp: refresh_direct_addresses_def observed_def known_def addrs_def Let_def
            split: prod.splits)
      ultimately show ?thesis using False facts by simp
    qed
  qed
qed

theorem addresses_follow_the_peer_witness:
  "rr_direct_addresses (mo_record (refresh_direct_addresses plain_machines (\<lambda>_. False)
     (witness_client\<lparr>cl_paths := [witness_path 9]\<rparr>) witness_monitor)) = [SocketV4 9 80, SocketV4 1 80]"
proof -
  let ?cl = "witness_client\<lparr>cl_paths := [witness_path 9]\<rparr>"
  let ?st = "refresh_direct_addresses plain_machines (\<lambda>_. False) ?cl witness_monitor"
  have in_reg: "bt_get (reg_records (mo_registry witness_monitor)) (rr_endpoint_id (mo_record witness_monitor)) =
      Some witness_machine"
    by (simp add: witness_monitor_def witness_machine_def bt_get_def)
  have "rr_direct_addresses witness_machine = rr_direct_addresses (mo_record witness_monitor)"
    by (simp add: witness_monitor_def)
  note use = addresses_follow_the_peer [OF in_reg this refl, of plain_machines "\<lambda>_. False" ?cl]
  have "observed_direct_addresses (cl_paths ?cl) = [SocketV4 9 80]"
    by (simp add: observed_direct_addresses_def witness_path_def List.map_filter_simps)
  then have "rr_direct_addresses (mo_record ?st) = [SocketV4 9 80, SocketV4 1 80]"
    using in_reg
    by (simp add: refresh_direct_addresses_def merged_direct_addresses_def MAX_RECORD_DIRECT_ADDRESSES_def
        update_addresses_def modify_def publish_def persist_records_def plain_machines_def Let_def
        witness_monitor_def witness_machine_def witness_record_def)
  then show ?thesis using use by simp
qed

end
