(* ===== verification/Fleet.thy ===== *)
theory Fleet
  imports Monitor Storage
begin

text \<open>
  The fleet of paired machines (\<open>apps/agent/src/remote.rs\<close>): loading and starting it, pairing with a new
  machine, reading a machine's history, and removing a machine. A monitor task is a number; the tasks that
  run are a list of numbers with the machine each one monitors. The operations interleave with the steps of
  the monitors in the step relation \<open>fleet_step\<close>, where a monitor may do what \<open>same_machine\<close> of the
  monitor theory says its sessions do.
\<close>

section \<open>History of a remote machine\<close>

definition MAX_REMOTE_HISTORY_SAMPLES :: nat where "MAX_REMOTE_HISTORY_SAMPLES = MAX_QUERY_ROWS"
definition MAX_HISTORY_RANGE_MS :: i64 where "MAX_HISTORY_RANGE_MS = 7 * 24 * 60 * 60 * 1000"

text \<open>
  One turn of the response loop: whether the deadline of the exchange has passed, and what reading the next
  frame gives. A list that ends is an exchange that is still going on.
\<close>

type_synonym history_turn = "bool \<times> (TransportError, Response option) result timed"

fun collect_history ::
  "MetricSample list \<Rightarrow> history_turn list \<Rightarrow> (RemoteFleetError, MetricSample list) result option" where
  "collect_history samples [] = None"
| "collect_history samples ((expired, frame) # rest) =
     (if expired then Some (Inl (FleetTimeout ''history response''))
      else case timed_result ''history response'' frame of
        Inl e \<Rightarrow> Some (Inl e)
      | Inr (Some (RMetricSample w)) \<Rightarrow>
          if MAX_REMOTE_HISTORY_SAMPLES \<le> length samples then Some (Inl HistoryResponseTooLarge)
          else collect_history (samples @ [metric_sample_of_wire w]) rest
      | Inr (Some RStreamComplete) \<Rightarrow> Some (Inr samples)
      | Inr (Some (RError e)) \<Rightarrow> Some (Inl (FleetTransport (RemoteError (wer_code e) (wer_message e))))
      | Inr _ \<Rightarrow> Some (Inl (UnexpectedResponse ''history event'')))"

definition history_request :: "i64 \<Rightarrow> i64 \<Rightarrow> HistoryResolution \<Rightarrow> RequestBody" where
  "history_request from_ms to_ms resolution =
     QueryHistory \<lparr>whq_from_ms = from_ms, whq_to_ms = to_ms,
       whq_resolution = (case resolution of Raw \<Rightarrow> 1 | Minute \<Rightarrow> 2),
       whq_protocol = Some current_version\<rparr>"

definition query_history ::
  "ids \<Rightarrow> codecs \<Rightarrow> dial \<Rightarrow> (client \<Rightarrow> RequestBody \<Rightarrow> (TransportError, history_turn list) result timed) \<Rightarrow>
   'f machine_registry \<Rightarrow> string \<Rightarrow> i64 \<Rightarrow> i64 \<Rightarrow> HistoryResolution \<Rightarrow>
   (RemoteFleetError, MetricSample list) result option" where
  "query_history ids cs dial open_stream reg eid from_ms to_ms resolution =
     (if to_ms < from_ms \<or> MAX_HISTORY_RANGE_MS < i64_saturating_sub to_ms from_ms
      then Some (Inl InvalidHistoryRange)
      else case rbind (machines_get reg eid) (\<lambda>r.
                rbind (connect_record ids cs dial r) (\<lambda>cl.
                timed_result ''history request'' (open_stream cl (history_request from_ms to_ms resolution)))) of
             Inl e \<Rightarrow> Some (Inl e)
           | Inr turns \<Rightarrow> collect_history [] turns)"

section \<open>The fleet\<close>

record 'f fleet =
  fl_registry :: "'f machine_registry"
  fl_snapshots :: snapshots
  fl_monitors :: "(string, nat) btree"
  fl_monitors_poisoned :: bool
  fl_tasks :: "(nat \<times> string) list"
  fl_next_task :: nat

definition fleet_load ::
  "(machines, 'f) file_codec \<Rightarrow> 'f option \<Rightarrow> 'f read_outcome \<Rightarrow> (RemoteFleetError, 'f fleet) result" where
  "fleet_load c file outcome =
     rbind (machines_load c outcome) (\<lambda>records.
       let reg = \<lparr>reg_records = records, reg_file = file, reg_poisoned = False\<rparr>
       in rbind (machines_list reg) (\<lambda>rs.
            Inr \<lparr>fl_registry = reg,
                 fl_snapshots = foldl (\<lambda>m r. bt_insert (rr_endpoint_id r) (offline r) m) [] rs,
                 fl_monitors = [], fl_monitors_poisoned = False, fl_tasks = [], fl_next_task = 0\<rparr>))"

definition abort :: "nat \<Rightarrow> 'f fleet \<Rightarrow> 'f fleet" where
  "abort task fl = fl\<lparr>fl_tasks := filter (\<lambda>(t, _). t \<noteq> task) (fl_tasks fl)\<rparr>"

definition spawn_monitor :: "RemoteMachineRecord \<Rightarrow> 'f fleet \<Rightarrow> 'f fleet" where
  "spawn_monitor r fl =
     (let eid = rr_endpoint_id r;
          handle = fl_next_task fl;
          fl = fl\<lparr>fl_tasks := (handle, eid) # fl_tasks fl, fl_next_task := handle + 1\<rparr>
      in if fl_monitors_poisoned fl then fl
         else
           let previous = bt_get (fl_monitors fl) eid;
               fl = fl\<lparr>fl_monitors := bt_insert eid handle (fl_monitors fl)\<rparr>;
               fl = (case previous of None \<Rightarrow> fl | Some task \<Rightarrow> abort task fl)
           in if machines_contains (fl_registry fl) eid = Inr False
              then (case bt_get (fl_monitors fl) eid of
                      None \<Rightarrow> fl
                    | Some task \<Rightarrow> abort task (fl\<lparr>fl_monitors := bt_remove eid (fl_monitors fl)\<rparr>))
              else fl)"

definition fleet_start :: "'f fleet \<Rightarrow> (RemoteFleetError, unit) result \<times> 'f fleet" where
  "fleet_start fl =
     (case machines_list (fl_registry fl) of
        Inl e \<Rightarrow> (Inl e, fl)
      | Inr rs \<Rightarrow> (Inr (), foldl (\<lambda>fl r. spawn_monitor r fl) fl rs))"

definition fleet_snapshots :: "i64 \<Rightarrow> 'f fleet \<Rightarrow> RemoteMachineSnapshot list" where
  "fleet_snapshots now fl =
     map (\<lambda>s. s\<lparr>sn_state := state_at s now\<rparr>) (bt_values (fl_snapshots fl))"

definition validate_bundle :: "codecs \<Rightarrow> PairingBundle \<Rightarrow> i64 \<Rightarrow> (PairingError, unit) result" where
  "validate_bundle cs bundle now =
     (if pb_expires_at_ms bundle < now then Inl Expired
      else if pb_direct_addresses bundle = [] \<and> pb_relay_urls bundle = [] then Inl InvalidBundle
      else rbind (bundle_endpoint_addr cs bundle) (\<lambda>_. Inr ()))"

text \<open>The dialogue with the machine, up to the point where it is known to be the one of the bundle.\<close>

definition pair_confirm ::
  "ids \<Rightarrow> PairingBundle \<Rightarrow> client \<Rightarrow> Response option \<Rightarrow> (RemoteFleetError, NodeInfo) result" where
  "pair_confirm ids bundle cl response =
     (case response of
        Some (RPair paired) \<Rightarrow>
          if \<not> wps_accepted paired then Inl PairingRejected
          else if wps_node_id paired \<noteq> uuid_str ids (pb_node_id bundle) \<or>
                  wps_endpoint_id paired \<noteq> pb_endpoint_id bundle then Inl IdentityMismatch
          else rbind (get_node_info ids cl 1) (\<lambda>node.
            if ni_node_id node \<noteq> pb_node_id bundle then Inl IdentityMismatch else Inr node)
      | _ \<Rightarrow> Inl (UnexpectedResponse ''pairing response''))"

definition pair_request :: "ids \<Rightarrow> PairingBundle \<Rightarrow> client \<Rightarrow> RequestBody" where
  "pair_request ids bundle cl =
     Pair \<lparr>wpr_one_time_secret = pb_one_time_secret bundle,
           wpr_viewer_endpoint_id = endpoint_str ids (cl_local_id cl)\<rparr>"

definition pair_with ::
  "ids \<Rightarrow> codecs \<Rightarrow> dial \<Rightarrow> PairingBundle \<Rightarrow> (RemoteFleetError, client \<times> NodeInfo) result" where
  "pair_with ids cs dial bundle =
     rbind (map_err FleetPairing (bundle_endpoint_addr cs bundle)) (\<lambda>address.
     rbind (timed_result ''connect'' (dial address)) (\<lambda>cl.
       if endpoint_str ids (cl_remote_id cl) \<noteq> pb_endpoint_id bundle then Inl IdentityMismatch
       else
         rbind (client_request cl 0 (pair_request ids bundle cl) ''pairing'') (\<lambda>response.
         rbind (pair_confirm ids bundle cl response) (\<lambda>node. Inr (cl, node)))))"

definition first_snapshot :: "PairingBundle \<Rightarrow> client \<Rightarrow> NodeInfo \<Rightarrow> i64 \<Rightarrow> RemoteMachineSnapshot" where
  "first_snapshot bundle cl node now =
     (let snapshot =
            \<lparr>sn_node = node, sn_endpoint_id = pb_endpoint_id bundle, sn_latest = None, sn_state = Degraded,
             sn_path = UnknownPath, sn_rtt_ms = None, sn_last_seen_ms = Some now,
             sn_trend = TrendWindow_default, sn_details = [''health_unknown'']\<rparr>;
          snapshot = (case get_health cl 2 of
            Inr health \<Rightarrow> snapshot\<lparr>sn_state := hs_state health, sn_details := hs_details health\<rparr>
          | Inl _ \<Rightarrow> snapshot)
      in case get_connection_path cl 3 of
           Inr (path, rtt_ms) \<Rightarrow> snapshot\<lparr>sn_path := path, sn_rtt_ms := Some rtt_ms\<rparr>
         | Inl _ \<Rightarrow> snapshot)"

definition paired_record :: "PairingBundle \<Rightarrow> client \<Rightarrow> NodeInfo \<Rightarrow> i64 \<Rightarrow> RemoteMachineRecord" where
  "paired_record bundle cl node now =
     \<lparr>rr_node = node, rr_endpoint_id = pb_endpoint_id bundle,
      rr_direct_addresses =
        merged_direct_addresses (observed_direct_addresses (cl_paths cl)) (pb_direct_addresses bundle),
      rr_relay_urls = pb_relay_urls bundle, rr_paired_at_ms = now, rr_last_snapshot = None\<rparr>"

definition import_pairing ::
  "ids \<Rightarrow> codecs \<Rightarrow> (machines, 'f) file_codec \<Rightarrow> (nat \<Rightarrow> bool) \<Rightarrow> dial \<Rightarrow> (nat \<Rightarrow> i64) \<Rightarrow> string \<Rightarrow> 'f fleet \<Rightarrow>
   (RemoteFleetError, RemoteMachineSnapshot) result \<times> 'f fleet" where
  "import_pairing ids cs c io dial now encoded fl =
     (case rbind (map_err FleetPairing (bundle_decode cs (trim_text encoded))) (\<lambda>bundle.
           rbind (map_err FleetPairing (validate_bundle cs bundle (now 0))) (\<lambda>_.
           rbind (machines_contains (fl_registry fl) (pb_endpoint_id bundle)) (\<lambda>known.
           if known then Inl AlreadyPaired
           else rbind (pair_with ids cs dial bundle) (\<lambda>(cl, node). Inr (bundle, cl, node))))) of
        Inl e \<Rightarrow> (Inl e, fl)
      | Inr (bundle, cl, node) \<Rightarrow>
          let snapshot = first_snapshot bundle cl node (now 1);
              r = paired_record bundle cl node (now 2)
          in case machines_insert c io r (fl_registry fl) of
               (Inl e, reg) \<Rightarrow> (Inl e, fl\<lparr>fl_registry := reg\<rparr>)
             | (Inr _, reg) \<Rightarrow>
                 (Inr snapshot,
                  spawn_monitor r (fl\<lparr>fl_registry := reg,
                    fl_snapshots := bt_insert (rr_endpoint_id r) snapshot (fl_snapshots fl)\<rparr>)))"

definition remove_machine ::
  "(machines, 'f) file_codec \<Rightarrow> (nat \<Rightarrow> bool) \<Rightarrow> string \<Rightarrow> 'f fleet \<Rightarrow>
   (RemoteFleetError, bool) result \<times> 'f fleet" where
  "remove_machine c io eid fl =
     (case machines_remove c io eid (fl_registry fl) of
        (Inl e, reg) \<Rightarrow> (Inl e, fl\<lparr>fl_registry := reg\<rparr>)
      | (Inr False, reg) \<Rightarrow> (Inr False, fl\<lparr>fl_registry := reg\<rparr>)
      | (Inr True, reg) \<Rightarrow>
          let fl = fl\<lparr>fl_registry := reg\<rparr>;
              handle = (if fl_monitors_poisoned fl then None else bt_get (fl_monitors fl) eid);
              fl = (if fl_monitors_poisoned fl then fl
                    else fl\<lparr>fl_monitors := bt_remove eid (fl_monitors fl)\<rparr>);
              fl = (case handle of None \<Rightarrow> fl | Some task \<Rightarrow> abort task fl)
          in (Inr True, fl\<lparr>fl_snapshots := bt_remove eid (fl_snapshots fl)\<rparr>))"

section \<open>Steps of the fleet\<close>

text \<open>
  The operations of the fleet, the sessions of the running monitors, and the end of a monitor whose record
  is gone.
\<close>

inductive monitor_step :: "(machines, 'f) file_codec \<Rightarrow> 'f fleet \<Rightarrow> 'f fleet \<Rightarrow> bool" for c where
  session: "(task, eid) \<in> set (fl_tasks fl) \<Longrightarrow> rr_endpoint_id (mo_record st) = eid \<Longrightarrow>
    mo_registry st = fl_registry fl \<Longrightarrow> mo_snapshots st = fl_snapshots fl \<Longrightarrow>
    monitor_session ids cs c inp st = (outcome, st') \<Longrightarrow>
    monitor_step c fl (fl\<lparr>fl_registry := mo_registry st', fl_snapshots := mo_snapshots st'\<rparr>)"
| failure: "(task, eid) \<in> set (fl_tasks fl) \<Longrightarrow> rr_endpoint_id (mo_record st) = eid \<Longrightarrow>
    mo_registry st = fl_registry fl \<Longrightarrow> mo_snapshots st = fl_snapshots fl \<Longrightarrow>
    update_error display now e st = st' \<Longrightarrow>
    monitor_step c fl (fl\<lparr>fl_registry := mo_registry st', fl_snapshots := mo_snapshots st'\<rparr>)"
| stop: "(task, eid) \<in> set (fl_tasks fl) \<Longrightarrow> machines_contains (fl_registry fl) eid = Inr False \<Longrightarrow>
    monitor_step c fl (abort task fl)"

inductive fleet_step :: "(machines, 'f) file_codec \<Rightarrow> 'f fleet \<Rightarrow> 'f fleet \<Rightarrow> bool" for c where
  import: "import_pairing ids cs c io dial now encoded fl = (res, fl') \<Longrightarrow> fleet_step c fl fl'"
| remove: "remove_machine c io eid fl = (res, fl') \<Longrightarrow> fleet_step c fl fl'"
| monitor: "monitor_step c fl fl' \<Longrightarrow> fleet_step c fl fl'"

inductive fleet_reach :: "(machines, 'f) file_codec \<Rightarrow> 'f fleet \<Rightarrow> bool" for c where
  start: "fleet_load c file outcome = Inr fl \<Longrightarrow> keyed (reg_records (fl_registry fl)) \<Longrightarrow>
    fleet_start fl = (Inr (), fl') \<Longrightarrow> fleet_reach c fl'"
| step: "fleet_reach c fl \<Longrightarrow> fleet_step c fl fl' \<Longrightarrow> fleet_reach c fl'"

section \<open>The invariant\<close>

definition paired :: "'f fleet \<Rightarrow> string \<Rightarrow> bool" where
  "paired fl eid \<longleftrightarrow> bt_get (reg_records (fl_registry fl)) eid \<noteq> None"

definition monitored :: "'f fleet \<Rightarrow> string \<Rightarrow> bool" where
  "monitored fl eid \<longleftrightarrow> (\<exists>task. (task, eid) \<in> set (fl_tasks fl))"

definition shown :: "'f fleet \<Rightarrow> string \<Rightarrow> bool" where
  "shown fl eid \<longleftrightarrow> bt_get (fl_snapshots fl) eid \<noteq> None"

definition fleet_safe :: "'f fleet \<Rightarrow> bool" where
  "fleet_safe fl \<longleftrightarrow>
     keyed (reg_records (fl_registry fl)) \<and> \<not> reg_poisoned (fl_registry fl) \<and> \<not> fl_monitors_poisoned fl \<and>
     (\<forall>task eid. (task, eid) \<in> set (fl_tasks fl) \<longrightarrow>
        bt_get (fl_monitors fl) eid = Some task \<and> paired fl eid) \<and>
     (\<forall>eid task. bt_get (fl_monitors fl) eid = Some task \<longrightarrow> task < fl_next_task fl) \<and>
     (\<forall>eid eid' task. bt_get (fl_monitors fl) eid = Some task \<and> bt_get (fl_monitors fl) eid' = Some task \<longrightarrow>
        eid = eid')"

definition fleet_ok :: "'f fleet \<Rightarrow> bool" where
  "fleet_ok fl \<longleftrightarrow> fleet_safe fl \<and> (\<forall>eid. paired fl eid \<longleftrightarrow> monitored fl eid) \<and>
     (\<forall>eid. paired fl eid \<longleftrightarrow> shown fl eid)"

lemma spawn_effect:
  assumes "fleet_safe fl" and "paired fl (rr_endpoint_id r)"
  shows "fleet_safe (spawn_monitor r fl)"
    and "monitored (spawn_monitor r fl) eid \<longleftrightarrow> eid = rr_endpoint_id r \<or> monitored fl eid"
    and "fl_registry (spawn_monitor r fl) = fl_registry fl"
    and "fl_snapshots (spawn_monitor r fl) = fl_snapshots fl"
proof -
  let ?eid = "rr_endpoint_id r"
  let ?kept = "case bt_get (fl_monitors fl) ?eid of None \<Rightarrow> (fl_next_task fl, ?eid) # fl_tasks fl
    | Some task \<Rightarrow> filter (\<lambda>(t, _). t \<noteq> task) ((fl_next_task fl, ?eid) # fl_tasks fl)"
  have spawn: "spawn_monitor r fl = fl\<lparr>fl_tasks := ?kept, fl_next_task := fl_next_task fl + 1,
      fl_monitors := bt_insert ?eid (fl_next_task fl) (fl_monitors fl)\<rparr>"
    using assms
    by (auto simp: spawn_monitor_def fleet_safe_def paired_def abort_def machines_contains_def Let_def
        split: option.splits)
  have handle: "bt_get (fl_monitors fl) ?eid = Some task \<Longrightarrow> task < fl_next_task fl" for task
    using assms(1) by (auto simp: fleet_safe_def)
  have kept: "(task, e) \<in> set ?kept \<longleftrightarrow>
      (task, e) = (fl_next_task fl, ?eid) \<or> e \<noteq> ?eid \<and> (task, e) \<in> set (fl_tasks fl)" for task e
  proof (cases "bt_get (fl_monitors fl) ?eid")
    case None
    then show ?thesis using assms(1) by (auto simp: fleet_safe_def)
  next
    case (Some old)
    then show ?thesis
      using assms(1) handle [OF Some] unfolding fleet_safe_def by (auto simp del: not_None_eq)
  qed
  show "fl_registry (spawn_monitor r fl) = fl_registry fl" "fl_snapshots (spawn_monitor r fl) = fl_snapshots fl"
    by (simp_all add: spawn)
  show "monitored (spawn_monitor r fl) eid \<longleftrightarrow> eid = ?eid \<or> monitored fl eid"
    unfolding monitored_def spawn using kept by auto
  show "fleet_safe (spawn_monitor r fl)"
    using assms unfolding fleet_safe_def paired_def spawn
    by (auto simp: kept split: if_splits dest: less_imp_neq intro: less_SucI)
qed

lemma spawn_all_effect:
  assumes "fleet_safe fl" and "\<forall>r \<in> set rs. paired fl (rr_endpoint_id r)"
  shows "fleet_safe (foldl (\<lambda>fl r. spawn_monitor r fl) fl rs) \<and>
    (\<forall>eid. monitored (foldl (\<lambda>fl r. spawn_monitor r fl) fl rs) eid \<longleftrightarrow>
       monitored fl eid \<or> (\<exists>r \<in> set rs. rr_endpoint_id r = eid)) \<and>
    fl_registry (foldl (\<lambda>fl r. spawn_monitor r fl) fl rs) = fl_registry fl \<and>
    fl_snapshots (foldl (\<lambda>fl r. spawn_monitor r fl) fl rs) = fl_snapshots fl"
  using assms
proof (induction rs arbitrary: fl)
  case (Cons r rs)
  have one: "paired fl (rr_endpoint_id r)" using Cons.prems(2) by simp
  note effect = spawn_effect [OF Cons.prems(1) one]
  have "\<forall>r' \<in> set rs. paired (spawn_monitor r fl) (rr_endpoint_id r')"
    using Cons.prems(2) effect(3) by (simp add: paired_def)
  from Cons.IH [OF effect(1) this] effect(2-4) show ?case by auto
qed simp

lemma snapshots_of_records:
  "bt_get (foldl (\<lambda>m r. bt_insert (rr_endpoint_id r) (offline r) m) m rs) eid \<noteq> None \<longleftrightarrow>
     bt_get m eid \<noteq> None \<or> (\<exists>r \<in> set rs. rr_endpoint_id r = eid)"
proof (induction rs arbitrary: m)
  case (Cons r rs)
  show ?case unfolding foldl.simps Cons.IH by auto
qed simp

lemma keyed_values: "keyed m \<Longrightarrow> (\<exists>r \<in> set (bt_values m). rr_endpoint_id r = eid) \<longleftrightarrow> bt_get m eid \<noteq> None"
  by (auto simp: keyed_def set_bt_values Bex_def)

lemma fleet_start_ok:
  assumes "fleet_load c file outcome = Inr fl" and "keyed (reg_records (fl_registry fl))"
    and "fleet_start fl = (Inr (), fl')"
  shows "fleet_ok fl'"
proof -
  let ?rs = "bt_values (reg_records (fl_registry fl))"
  have fl: "fl_monitors fl = []" "fl_tasks fl = []" "\<not> fl_monitors_poisoned fl"
    "\<not> reg_poisoned (fl_registry fl)"
    "fl_snapshots fl = foldl (\<lambda>m r. bt_insert (rr_endpoint_id r) (offline r) m) [] ?rs"
    using assms(1) by (auto simp: fleet_load_def machines_list_def rbind_eq_Inr Let_def)
  then have "fleet_safe fl" using assms(2) by (simp add: fleet_safe_def)
  moreover have "\<forall>r \<in> set ?rs. paired fl (rr_endpoint_id r)"
    using keyed_values [OF assms(2)] by (auto simp: paired_def)
  ultimately have all: "fleet_safe (foldl (\<lambda>fl r. spawn_monitor r fl) fl ?rs) \<and>
      (\<forall>eid. monitored (foldl (\<lambda>fl r. spawn_monitor r fl) fl ?rs) eid \<longleftrightarrow>
         monitored fl eid \<or> (\<exists>r \<in> set ?rs. rr_endpoint_id r = eid)) \<and>
      fl_registry (foldl (\<lambda>fl r. spawn_monitor r fl) fl ?rs) = fl_registry fl \<and>
      fl_snapshots (foldl (\<lambda>fl r. spawn_monitor r fl) fl ?rs) = fl_snapshots fl"
    by (rule spawn_all_effect)
  have fl': "fl' = foldl (\<lambda>fl r. spawn_monitor r fl) fl ?rs"
    using assms(3) fl(4) by (simp add: fleet_start_def machines_list_def)
  have "monitored fl eid = False" for eid using fl(2) by (simp add: monitored_def)
  moreover have "shown fl eid \<longleftrightarrow> (\<exists>r \<in> set ?rs. rr_endpoint_id r = eid)" for eid
    unfolding shown_def fl(5) using snapshots_of_records [of "[]" ?rs eid] by simp
  ultimately show ?thesis
    using all keyed_values [OF assms(2)] unfolding fleet_ok_def fl'
    by (simp add: paired_def shown_def)
qed

lemma same_machine_fleet_ok:
  assumes "fleet_ok fl" and "(task, rr_endpoint_id (mo_record st)) \<in> set (fl_tasks fl)"
    and "mo_registry st = fl_registry fl" and "mo_snapshots st = fl_snapshots fl" and "same_machine st st'"
  shows "fleet_ok (fl\<lparr>fl_registry := mo_registry st', fl_snapshots := mo_snapshots st'\<rparr>)"
proof -
  let ?fl = "fl\<lparr>fl_registry := mo_registry st', fl_snapshots := mo_snapshots st'\<rparr>"
  have paired: "paired ?fl eid \<longleftrightarrow> paired fl eid" for eid
    using assms(3,5) by (simp add: paired_def same_machine_def)
  have "paired fl (rr_endpoint_id (mo_record st))"
    using assms(1,2) by (auto simp: fleet_ok_def fleet_safe_def)
  then have own: "shown fl (rr_endpoint_id (mo_record st))" using assms(1) unfolding fleet_ok_def by blast
  have shown: "shown ?fl eid \<longleftrightarrow> shown fl eid" for eid
    using assms(4,5) own
    by (cases "eid = rr_endpoint_id (mo_record st)") (auto simp: shown_def same_machine_def)
  have safe: "fleet_safe fl" using assms(1) by (simp add: fleet_ok_def)
  have "fleet_safe ?fl"
    using safe assms(3,5) paired unfolding fleet_safe_def by (simp add: same_machine_def)
  moreover have "monitored ?fl eid \<longleftrightarrow> monitored fl eid" for eid by (simp add: monitored_def)
  ultimately show ?thesis using assms(1) paired shown unfolding fleet_ok_def by blast
qed

lemma machines_remove_Inr:
  assumes "machines_remove c io eid reg = (Inr removed, reg')"
  shows "removed \<longleftrightarrow> bt_get (reg_records reg) eid \<noteq> None"
    and "reg_records reg' = (if removed then bt_remove eid (reg_records reg) else reg_records reg)"
  using modify_eq_Inr [OF assms [unfolded machines_remove_def]] by (auto split: if_splits)

lemma machines_remove_lock: "reg_poisoned (snd (machines_remove c io eid reg)) = reg_poisoned reg"
  unfolding machines_remove_def by (rule modify_poisoned)

lemma machines_insert_lock: "reg_poisoned (snd (machines_insert c io r reg)) = reg_poisoned reg"
  unfolding machines_insert_def by (rule modify_poisoned)

lemma fleet_ok_registry:
  "fleet_ok fl \<Longrightarrow> reg_records reg = reg_records (fl_registry fl) \<Longrightarrow> reg_poisoned reg = reg_poisoned (fl_registry fl) \<Longrightarrow>
     fleet_ok (fl\<lparr>fl_registry := reg\<rparr>)"
  by (auto simp: fleet_ok_def fleet_safe_def paired_def monitored_def shown_def)

lemma remove_machine_kept:
  assumes "fleet_ok fl" and rem: "machines_remove c io eid (fl_registry fl) = (r, reg)" and kept: "r \<noteq> Inr True"
    and removed: "remove_machine c io eid fl = (res, fl')"
  shows "fl' = fl\<lparr>fl_registry := reg\<rparr> \<and> res \<noteq> Inr True \<and> reg_records reg = reg_records (fl_registry fl) \<and> fleet_ok fl'"
proof -
  have lock: "reg_poisoned reg = reg_poisoned (fl_registry fl)"
    using machines_remove_lock [of c io eid "fl_registry fl"] rem by simp
  have same: "reg_records reg = reg_records (fl_registry fl)"
  proof (cases r)
    case (Inl e)
    then show ?thesis using drop_machine.refused [of c io eid "fl_registry fl" e reg] rem by simp
  next
    case (Inr b)
    then show ?thesis using machines_remove_Inr [of c io eid "fl_registry fl" b reg] rem kept by simp
  qed
  have "fl' = fl\<lparr>fl_registry := reg\<rparr>" "res \<noteq> Inr True"
    using removed rem kept by (auto simp: remove_machine_def split: sum.splits bool.splits)
  then show ?thesis using fleet_ok_registry [OF assms(1) same lock] same by simp
qed

lemma remove_machine_done:
  assumes "fleet_ok fl" and rem: "machines_remove c io eid (fl_registry fl) = (Inr True, reg)"
    and removed: "remove_machine c io eid fl = (res, fl')"
  shows "fl_registry fl' = reg" and "fl_next_task fl' = fl_next_task fl" and "fl_monitors_poisoned fl' = fl_monitors_poisoned fl"
    and "bt_get (fl_monitors fl') e = (if e = eid then None else bt_get (fl_monitors fl) e)"
    and "bt_get (fl_snapshots fl') e = (if e = eid then None else bt_get (fl_snapshots fl) e)"
    and "(t, e) \<in> set (fl_tasks fl') \<longleftrightarrow> e \<noteq> eid \<and> (t, e) \<in> set (fl_tasks fl)"
    and "paired fl' e \<longleftrightarrow> e \<noteq> eid \<and> paired fl e"
proof -
  have safe: "fleet_safe fl" using assms(1) by (simp add: fleet_ok_def)
  note effect = machines_remove_Inr [OF rem]
  have "paired fl eid" using effect(1) by (simp add: paired_def)
  then obtain task where task: "(task, eid) \<in> set (fl_tasks fl)"
    using assms(1) by (auto simp: fleet_ok_def monitored_def)
  have unique: "bt_get (fl_monitors fl) e = Some t" if "(t, e) \<in> set (fl_tasks fl)" for t e
    using safe that by (simp add: fleet_safe_def)
  have fl': "fl' = fl\<lparr>fl_registry := reg, fl_monitors := bt_remove eid (fl_monitors fl),
      fl_tasks := filter (\<lambda>(t, _). t \<noteq> task) (fl_tasks fl), fl_snapshots := bt_remove eid (fl_snapshots fl)\<rparr>"
    using removed rem safe unique [OF task] by (simp add: remove_machine_def fleet_safe_def abort_def Let_def)
  have same: "t = task \<longleftrightarrow> e = eid" if "(t, e) \<in> set (fl_tasks fl)" for t e
    using unique [OF that] unique [OF task] safe unfolding fleet_safe_def by (metis option.inject)
  show "(t, e) \<in> set (fl_tasks fl') \<longleftrightarrow> e \<noteq> eid \<and> (t, e) \<in> set (fl_tasks fl)"
    using same [of t e] unfolding fl' by auto
  show "paired fl' e \<longleftrightarrow> e \<noteq> eid \<and> paired fl e" unfolding fl' paired_def using effect(2) by simp
  show "fl_registry fl' = reg" "fl_next_task fl' = fl_next_task fl" "fl_monitors_poisoned fl' = fl_monitors_poisoned fl"
    "bt_get (fl_monitors fl') e = (if e = eid then None else bt_get (fl_monitors fl) e)"
    "bt_get (fl_snapshots fl') e = (if e = eid then None else bt_get (fl_snapshots fl) e)"
    by (simp_all add: fl')
qed

lemma remove_effect:
  assumes "fleet_ok fl" and "remove_machine c io eid fl = (res, fl')"
  shows "fleet_ok fl' \<and> (res = Inr True \<longrightarrow> \<not> paired fl' eid \<and> \<not> monitored fl' eid \<and> \<not> shown fl' eid) \<and>
    (\<forall>other. other \<noteq> eid \<longrightarrow>
      (paired fl' other \<longleftrightarrow> paired fl other) \<and> bt_get (fl_snapshots fl') other = bt_get (fl_snapshots fl) other \<and>
      (\<forall>task. (task, other) \<in> set (fl_tasks fl') \<longleftrightarrow> (task, other) \<in> set (fl_tasks fl)))"
proof -
  obtain r reg where rem: "machines_remove c io eid (fl_registry fl) = (r, reg)" by fastforce
  show ?thesis
  proof (cases "r = Inr True")
    case False
    then show ?thesis using remove_machine_kept [OF assms(1) rem False assms(2)] by (auto simp: paired_def)
  next
    case True
    note after = remove_machine_done [OF assms(1) rem [unfolded True] assms(2)]
    have safe: "fleet_safe fl" using assms(1) by (simp add: fleet_ok_def)
    have "keyed (reg_records (fl_registry fl'))" "\<not> reg_poisoned (fl_registry fl')"
      using safe machines_remove_lock [of c io eid "fl_registry fl"] keyed_remove [of "reg_records (fl_registry fl)" eid]
        machines_remove_Inr(2) [OF rem [unfolded True]] rem by (simp_all add: after(1) fleet_safe_def)
    then have "fleet_safe fl'"
      using safe unfolding fleet_safe_def after(2-4,6,7) by (intro conjI) (auto split: if_splits)
    moreover have mon: "monitored fl' e \<longleftrightarrow> e \<noteq> eid \<and> monitored fl e" for e
      unfolding monitored_def after(6) by blast
    moreover have sh: "shown fl' e \<longleftrightarrow> e \<noteq> eid \<and> shown fl e" for e
      by (simp add: shown_def after(5))
    ultimately show ?thesis
      using assms(1) after(5,6) unfolding fleet_ok_def after(7) mon sh by auto
  qed
qed

lemma import_pairing_Inr:
  assumes "import_pairing ids cs c io dial now encoded fl = (Inr snapshot, fl')"
  obtains bd cl node reg where "bundle_decode cs (trim_text encoded) = Inr bd" "now 0 \<le> pb_expires_at_ms bd"
    "\<not> paired fl (pb_endpoint_id bd)" "pair_with ids cs dial bd = Inr (cl, node)"
    "reg_records reg = bt_insert (pb_endpoint_id bd) (paired_record bd cl node (now 2)) (reg_records (fl_registry fl))"
    "reg_poisoned reg = reg_poisoned (fl_registry fl)"
    "fl' = spawn_monitor (paired_record bd cl node (now 2)) (fl\<lparr>fl_registry := reg,
       fl_snapshots := bt_insert (pb_endpoint_id bd) snapshot (fl_snapshots fl)\<rparr>)"
proof -
  obtain bd cl node reg where b: "bundle_decode cs (trim_text encoded) = Inr bd"
    and v: "validate_bundle cs bd (now 0) = Inr ()"
    and new: "machines_contains (fl_registry fl) (pb_endpoint_id bd) = Inr False"
    and p: "pair_with ids cs dial bd = Inr (cl, node)"
    and ins: "machines_insert c io (paired_record bd cl node (now 2)) (fl_registry fl) = (Inr (), reg)"
    and fl': "fl' = spawn_monitor (paired_record bd cl node (now 2)) (fl\<lparr>fl_registry := reg,
      fl_snapshots := bt_insert (rr_endpoint_id (paired_record bd cl node (now 2))) snapshot (fl_snapshots fl)\<rparr>)"
    using assms
    by (auto simp: import_pairing_def rbind_eq_Inr Let_def split: sum.splits prod.splits if_splits)
  have key: "rr_endpoint_id (paired_record bd cl node (now 2)) = pb_endpoint_id bd" by (simp add: paired_record_def)
  show thesis
  proof (rule that [OF b _ _ p])
    show "now 0 \<le> pb_expires_at_ms bd" using v by (simp add: validate_bundle_def split: if_splits)
    show "\<not> paired fl (pb_endpoint_id bd)" using new by (simp add: machines_contains_def paired_def split: if_splits)
    show "reg_records reg = bt_insert (pb_endpoint_id bd) (paired_record bd cl node (now 2)) (reg_records (fl_registry fl))"
      using modify_eq_Inr [OF ins [unfolded machines_insert_def]] key by auto
    show "reg_poisoned reg = reg_poisoned (fl_registry fl)"
      using machines_insert_lock [of c io "paired_record bd cl node (now 2)" "fl_registry fl"] ins by simp
  qed (use fl' key in simp)
qed

lemma import_effect:
  assumes "fleet_ok fl" and "import_pairing ids cs c io dial now encoded fl = (res, fl')"
  shows "fleet_ok fl' \<and>
    (case res of
       Inl e \<Rightarrow> fl' = fl
     | Inr snapshot \<Rightarrow>
         \<exists>bd cl node. bundle_decode cs (trim_text encoded) = Inr bd \<and> now 0 \<le> pb_expires_at_ms bd \<and>
           \<not> paired fl (pb_endpoint_id bd) \<and> pair_with ids cs dial bd = Inr (cl, node) \<and>
           bt_get (reg_records (fl_registry fl')) (pb_endpoint_id bd) =
             Some (paired_record bd cl node (now 2)) \<and>
           bt_get (fl_snapshots fl') (pb_endpoint_id bd) = Some snapshot \<and>
           (\<forall>eid. eid \<noteq> pb_endpoint_id bd \<longrightarrow>
              bt_get (reg_records (fl_registry fl')) eid = bt_get (reg_records (fl_registry fl)) eid \<and>
              bt_get (fl_snapshots fl') eid = bt_get (fl_snapshots fl) eid))"
proof (cases res)
  case (Inl e)
  have "fl' = fl"
    using assms(2) Inl insert_machine.refused
    by (fastforce simp: import_pairing_def Let_def split: sum.splits prod.splits)
  then show ?thesis using assms(1) Inl by simp
next
  case (Inr snapshot)
  have safe: "fleet_safe fl" using assms(1) by (simp add: fleet_ok_def)
  obtain bd cl node reg where facts: "bundle_decode cs (trim_text encoded) = Inr bd" "now 0 \<le> pb_expires_at_ms bd"
    "\<not> paired fl (pb_endpoint_id bd)" "pair_with ids cs dial bd = Inr (cl, node)"
    and recs: "reg_records reg = bt_insert (pb_endpoint_id bd) (paired_record bd cl node (now 2)) (reg_records (fl_registry fl))"
    and lock: "reg_poisoned reg = reg_poisoned (fl_registry fl)"
    and fl': "fl' = spawn_monitor (paired_record bd cl node (now 2)) (fl\<lparr>fl_registry := reg,
      fl_snapshots := bt_insert (pb_endpoint_id bd) snapshot (fl_snapshots fl)\<rparr>)"
    using import_pairing_Inr assms(2) Inr by blast
  let ?r = "paired_record bd cl node (now 2)" and ?eid = "pb_endpoint_id bd"
  let ?mid = "fl\<lparr>fl_registry := reg, fl_snapshots := bt_insert ?eid snapshot (fl_snapshots fl)\<rparr>"
  have key: "rr_endpoint_id ?r = ?eid" by (simp add: paired_record_def)
  have keyed: "keyed (reg_records reg)"
    unfolding recs using safe key by (intro keyed_insert) (simp_all add: fleet_safe_def)
  have paired: "paired ?mid e \<longleftrightarrow> e = ?eid \<or> paired fl e" for e by (simp add: paired_def recs)
  have "fleet_safe ?mid"
    using safe lock keyed paired unfolding fleet_safe_def by simp
  note spawned = spawn_effect [OF this, of ?r, unfolded key, OF paired [THEN iffD2, OF disjI1 [OF refl]]]
  have mon: "monitored fl' e \<longleftrightarrow> e = ?eid \<or> monitored fl e" for e
    unfolding fl' spawned(2) by (simp add: monitored_def)
  have sh: "shown fl' e \<longleftrightarrow> e = ?eid \<or> shown fl e" for e
    unfolding fl' shown_def spawned(4) by simp
  have pa: "paired fl' e \<longleftrightarrow> e = ?eid \<or> paired fl e" for e
    using paired [of e] unfolding fl' by (simp add: paired_def spawned(3))
  have "fleet_ok fl'"
    using assms(1) spawned(1) unfolding fleet_ok_def mon sh pa fl' [symmetric] by blast
  then show ?thesis
    unfolding Inr sum.case using facts recs spawned(3,4)
    by (intro conjI exI [of _ bd] exI [of _ cl] exI [of _ node]) (simp_all add: fl')
qed

lemma monitor_step_ok:
  "monitor_step c fl fl' \<Longrightarrow> fleet_ok fl \<Longrightarrow> fleet_ok fl' \<and> (\<forall>eid. paired fl' eid \<longleftrightarrow> paired fl eid)"
proof (induction rule: monitor_step.induct)
  case (session task eid fl st ids cs inp outcome st')
  then have same: "same_machine st st'" using same_machine_session [of st ids cs c inp] by simp
  then show ?case
    using session same_machine_fleet_ok [OF session.prems _ session.hyps(3,4) same]
    by (simp add: paired_def same_machine_def)
next
  case (failure task eid fl st display now e st')
  then have same: "same_machine st st'" using same_machine_error by blast
  then show ?case
    using failure same_machine_fleet_ok [OF failure.prems _ failure.hyps(3,4) same]
    by (simp add: paired_def same_machine_def)
next
  case (stop task eid fl)
  then have "paired fl eid" "\<not> paired fl eid"
    by (auto simp: fleet_ok_def fleet_safe_def paired_def machines_contains_def split: if_splits)
  then show ?case by blast
qed

lemma fleet_step_ok: "fleet_step c fl fl' \<Longrightarrow> fleet_ok fl \<Longrightarrow> fleet_ok fl'"
proof (induction rule: fleet_step.induct)
  case (import ids cs io dial now encoded fl res fl')
  then show ?case using import_effect [of fl ids cs c io dial now encoded res fl'] by blast
next
  case (remove io eid fl res fl')
  then show ?case using remove_effect [of fl c io eid res fl'] by blast
next
  case (monitor fl fl')
  then show ?case using monitor_step_ok by blast
qed

lemma fleet_reach_ok: "fleet_reach c fl \<Longrightarrow> fleet_ok fl"
  by (induction rule: fleet_reach.induct) (auto intro: fleet_start_ok fleet_step_ok)

section \<open>Properties\<close>


definition witness_fleet :: "machines fleet" where
  "witness_fleet =
     \<lparr>fl_registry = \<lparr>reg_records = [(''e'', witness_record)], reg_file = None, reg_poisoned = False\<rparr>,
      fl_snapshots = [(''e'', offline witness_record)], fl_monitors = [], fl_monitors_poisoned = False,
      fl_tasks = [], fl_next_task = 0\<rparr>"

lemma witness_fleet_reach: "fleet_reach plain_machines (snd (fleet_start witness_fleet))"
proof (rule fleet_reach.start)
  show "fleet_load plain_machines None (FileContent [(''e'', witness_record)]) = Inr witness_fleet"
    by (simp add: fleet_load_def machines_load_def load_records_def plain_machines_def machines_list_def
        bt_values_def witness_record_def witness_fleet_def Let_def)
  show "keyed (reg_records (fl_registry witness_fleet))"
    by (auto simp: keyed_def bt_ok_def bt_get_def witness_record_def witness_fleet_def split: if_splits)
  have "fst (fleet_start witness_fleet) = Inr ()"
    by (simp add: fleet_start_def machines_list_def witness_fleet_def)
  then show "fleet_start witness_fleet = (Inr (), snd (fleet_start witness_fleet))" by (metis prod.collapse)
qed


lemma pair_confirm_Inr:
  "pair_confirm ids bd cl response = Inr node \<longleftrightarrow>
     (\<exists>reply. response = Some (RPair reply) \<and> wps_accepted reply \<and>
        wps_node_id reply = uuid_str ids (pb_node_id bd) \<and> wps_endpoint_id reply = pb_endpoint_id bd) \<and>
     get_node_info ids cl 1 = Inr node \<and> ni_node_id node = pb_node_id bd"
  by (auto simp: pair_confirm_def rbind_eq_Inr split: option.splits Response.splits if_splits)

lemma client_request_Inr: "client_request cl n body op = Inr response \<Longrightarrow> cl_answer cl n body = InTime (Inr response)"
proof -
  assume "client_request cl n body op = Inr response"
  then obtain x where x: "cl_answer cl n body = InTime (Inr x)"
    and same: "(case x of Some (RError e) \<Rightarrow> Inl (FleetTransport (RemoteError (wer_code e) (wer_message e)))
      | _ \<Rightarrow> Inr x) = Inr response"
    by (auto simp: client_request_def rbind_eq_Inr)
  from same have "x = response"
    by (cases x; cases "the x") simp_all
  with x show ?thesis by simp
qed

text \<open>What a completed pairing dialogue has established.\<close>

definition pairing_proof ::
  "ids \<Rightarrow> dial \<Rightarrow> PairingBundle \<Rightarrow> client \<Rightarrow> NodeInfo \<Rightarrow> bool" where
  "pairing_proof ids dial bd cl node \<longleftrightarrow>
     (\<exists>address. dial address = InTime (Inr cl)) \<and> endpoint_str ids (cl_remote_id cl) = pb_endpoint_id bd \<and>
     (\<exists>reply. cl_answer cl 0 (pair_request ids bd cl) = InTime (Inr (Some (RPair reply))) \<and>
        wps_accepted reply \<and> wps_node_id reply = uuid_str ids (pb_node_id bd)) \<and>
     get_node_info ids cl 1 = Inr node \<and> ni_node_id node = pb_node_id bd"

lemma pair_with_Inr:
  assumes "pair_with ids cs dial bd = Inr (cl, node)"
  shows "pairing_proof ids dial bd cl node"
proof -
  obtain address response where "dial address = InTime (Inr cl)"
    "endpoint_str ids (cl_remote_id cl) = pb_endpoint_id bd"
    "client_request cl 0 (pair_request ids bd cl) ''pairing'' = Inr response"
    "pair_confirm ids bd cl response = Inr node"
    using assms by (auto simp: pair_with_def rbind_eq_Inr split: if_splits)
  then show ?thesis
    by (cases address) (auto simp: pairing_proof_def pair_confirm_Inr dest: client_request_Inr)
qed

text \<open>
  C34. Pairing is all or nothing and pinned to the bundle. If \<open>import_pairing\<close> reports an error, nothing has
  changed. If it succeeds, the bundle had not expired, the machine was not paired before, the connection was
  with the endpoint named in the bundle, which accepted the secret and reported the node identity of the bundle
  both when it accepted and when it was asked; and what changed is exactly that the record and the first
  snapshot of this machine were added.
\<close>

theorem import_pairing_pinned:
  assumes "fleet_reach c fl" and "import_pairing ids cs c io dial now encoded fl = (res, fl')"
  shows "case res of
      Inl e \<Rightarrow> fl' = fl
    | Inr snapshot \<Rightarrow>
        \<exists>bd cl node. bundle_decode cs (trim_text encoded) = Inr bd \<and> now 0 \<le> pb_expires_at_ms bd \<and>
          bt_get (reg_records (fl_registry fl)) (pb_endpoint_id bd) = None \<and>
          pairing_proof ids dial bd cl node \<and>
          bt_get (reg_records (fl_registry fl')) (pb_endpoint_id bd) = Some (paired_record bd cl node (now 2)) \<and>
          bt_get (fl_snapshots fl') (pb_endpoint_id bd) = Some snapshot \<and>
          (\<forall>eid. eid \<noteq> pb_endpoint_id bd \<longrightarrow>
             bt_get (reg_records (fl_registry fl')) eid = bt_get (reg_records (fl_registry fl)) eid \<and>
             bt_get (fl_snapshots fl') eid = bt_get (fl_snapshots fl) eid)"
proof -
  note effect = conjunct2 [OF import_effect [OF fleet_reach_ok [OF assms(1)] assms(2)]]
  show ?thesis
  proof (cases res)
    case (Inl e)
    then show ?thesis using effect by simp
  next
    case (Inr snapshot)
    then show ?thesis
      using effect pair_with_Inr unfolding Inr sum.case paired_def by (metis (no_types, lifting))
  qed
qed

definition witness_offer :: PairingBundle where
  "witness_offer =
     \<lparr>pb_format_version = 1, pb_node_id = 5, pb_endpoint_id = endpoint_str bit_ids 4,
      pb_direct_addresses = [SocketV4 1 80], pb_relay_urls = [], pb_one_time_secret = ''s'', pb_expires_at_ms = 7\<rparr>"

definition offer_codecs :: codecs where
  "offer_codecs = plain_codecs\<lparr>bundle_of_json := (\<lambda>_. Some witness_offer), endpoint_parse := (\<lambda>_. Some 4)\<rparr>"

definition pairing_client :: client where
  "pairing_client = witness_client\<lparr>cl_answer := (\<lambda>n body. case body of
     Pair _ \<Rightarrow> InTime (Inr (Some (RPair \<lparr>wps_accepted = True, wps_node_id = uuid_str bit_ids 5,
       wps_endpoint_id = endpoint_str bit_ids 4\<rparr>)))
   | _ \<Rightarrow> cl_answer witness_client n body)\<rparr>"

lemma pairing_client_answers: "get_node_info bit_ids pairing_client n = Inr (rr_node witness_record)"
  using witness_answers(1) [of n] by (simp add: get_node_info_def client_request_def pairing_client_def)

lemma pairing_client_pairs:
  "pair_with bit_ids offer_codecs (\<lambda>_. InTime (Inr pairing_client)) witness_offer =
     Inr (pairing_client, rr_node witness_record)"
proof -
  have "client_request pairing_client 0 (pair_request bit_ids witness_offer pairing_client) ''pairing'' =
      Inr (Some (RPair \<lparr>wps_accepted = True, wps_node_id = uuid_str bit_ids 5,
        wps_endpoint_id = endpoint_str bit_ids 4\<rparr>))"
    by (simp add: client_request_def pair_request_def pairing_client_def timed_result_def)
  moreover have "cl_remote_id pairing_client = 4" by (simp add: pairing_client_def witness_client_def)
  moreover have "bundle_endpoint_addr offer_codecs witness_offer = Inr (4, [Ip (SocketV4 1 80)])"
    by (simp add: bundle_endpoint_addr_def offer_codecs_def witness_offer_def)
  moreover have "ni_node_id (rr_node witness_record) = 5" by (simp add: witness_record_def)
  ultimately show ?thesis
    by (simp add: pair_with_def timed_result_def pair_confirm_def pairing_client_answers witness_offer_def)
qed

theorem import_pairing_pinned_witness:
  "\<exists>snapshot fl'. import_pairing bit_ids offer_codecs plain_machines (\<lambda>_. False) (\<lambda>_. InTime (Inr pairing_client))
      (\<lambda>_. 3) ''rackio-pair:x'' (snd (fleet_start witness_fleet)) = (Inr snapshot, fl') \<and>
    bt_get (fl_snapshots fl') (endpoint_str bit_ids 4) = Some snapshot"
proof -
  let ?fl = "snd (fleet_start witness_fleet)"
  let ?run = "import_pairing bit_ids offer_codecs plain_machines (\<lambda>_. False) (\<lambda>_. InTime (Inr pairing_client))
      (\<lambda>_. 3) ''rackio-pair:x'' ?fl"
  have dec: "bundle_decode offer_codecs (trim_text ''rackio-pair:x'') = Inr witness_offer"
  proof -
    have "trim_text ''rackio-pair:x'' = bundle_prefix @ ''x''" by code_simp
    then show ?thesis
      by (simp add: bundle_decode_def) (simp add: offer_codecs_def plain_codecs_def witness_offer_def)
  qed
  have val: "validate_bundle offer_codecs witness_offer 3 = Inr ()"
    by (simp add: validate_bundle_def bundle_endpoint_addr_def offer_codecs_def witness_offer_def)
  have reg: "fl_registry ?fl = \<lparr>reg_records = [(''e'', witness_record)], reg_file = None, reg_poisoned = False\<rparr>"
    by code_simp
  have "length (endpoint_str bit_ids 4) = 256" by (simp add: bit_ids_def)
  then have new: "machines_contains (fl_registry ?fl) (pb_endpoint_id witness_offer) = Inr False"
    by (auto simp: reg machines_contains_def bt_get_def witness_offer_def)
  have ins: "fst (machines_insert plain_machines (\<lambda>_. False) r (fl_registry ?fl)) = Inr ()" for r
    by (simp add: reg machines_insert_def modify_def publish_def persist_records_def plain_machines_def)
  have "\<exists>snapshot. fst ?run = Inr snapshot"
    using ins [of "paired_record witness_offer pairing_client (rr_node witness_record) 3"]
    by (simp add: import_pairing_def dec val new pairing_client_pairs Let_def split: prod.splits sum.splits)
      (metis fst_conv Inl_Inr_False)
  then obtain snapshot fl' where run: "?run = (Inr snapshot, fl')" by (metis prod.collapse)
  from import_pairing_pinned [OF witness_fleet_reach run] dec
  have "bt_get (fl_snapshots fl') (pb_endpoint_id witness_offer) = Some snapshot" by auto
  then show ?thesis using run by (auto simp: witness_offer_def)
qed

text \<open>
  Removing a machine is final: when \<open>remove_machine\<close> reports success, the machine has no record, no
  snapshot and no running monitor, and no later step of any monitor, of any session and in any order, brings
  one of them back; machines other than the removed one keep their record, snapshot and monitor.
\<close>

theorem remove_machine_final:
  assumes "fleet_reach c fl" and "remove_machine c io eid fl = (Inr True, fl')"
    and "(monitor_step c)\<^sup>*\<^sup>* fl' later"
  shows "bt_get (reg_records (fl_registry later)) eid = None \<and> bt_get (fl_snapshots later) eid = None \<and>
    (\<forall>task. (task, eid) \<notin> set (fl_tasks later)) \<and>
    (\<forall>other. other \<noteq> eid \<longrightarrow>
       (bt_get (reg_records (fl_registry fl')) other = None \<longleftrightarrow> bt_get (reg_records (fl_registry fl)) other = None) \<and>
       bt_get (fl_snapshots fl') other = bt_get (fl_snapshots fl) other \<and>
       (\<forall>task. (task, other) \<in> set (fl_tasks fl') \<longleftrightarrow> (task, other) \<in> set (fl_tasks fl)))"
proof -
  note effect = remove_effect [OF fleet_reach_ok [OF assms(1)] assms(2)]
  have "fleet_ok later \<and> \<not> paired later eid"
    using assms(3)
  proof (induction rule: rtranclp_induct)
    case base
    then show ?case using effect by blast
  next
    case (step a b)
    then show ?case using monitor_step_ok by blast
  qed
  then have "\<not> paired later eid" "\<not> monitored later eid" "\<not> shown later eid" by (auto simp: fleet_ok_def)
  then show ?thesis using effect unfolding paired_def monitored_def shown_def by (simp del: not_None_eq)
qed

theorem remove_machine_final_witness:
  "\<exists>fl'. remove_machine plain_machines (\<lambda>_. False) ''e'' (snd (fleet_start witness_fleet)) = (Inr True, fl') \<and>
     (\<forall>task. (task, ''e'') \<notin> set (fl_tasks fl'))"
proof -
  have "fst (remove_machine plain_machines (\<lambda>_. False) ''e'' (snd (fleet_start witness_fleet))) = Inr True"
    by code_simp
  then obtain fl' where run:
    "remove_machine plain_machines (\<lambda>_. False) ''e'' (snd (fleet_start witness_fleet)) = (Inr True, fl')"
    by (metis prod.collapse)
  from remove_machine_final [OF witness_fleet_reach run rtranclp.rtrancl_refl] run show ?thesis by blast
qed

lemma collect_history_waits:
  "collect_history acc turns = None \<Longrightarrow> length acc \<le> MAX_REMOTE_HISTORY_SAMPLES \<Longrightarrow>
     length acc + length turns \<le> MAX_REMOTE_HISTORY_SAMPLES"
proof (induction acc turns rule: collect_history.induct)
  case (2 acc expired frame rest)
  then obtain w where "\<not> expired" "timed_result ''history response'' frame = Inr (Some (RMetricSample w))"
    "length acc < MAX_REMOTE_HISTORY_SAMPLES"
    "collect_history (acc @ [metric_sample_of_wire w]) rest = None"
    by (auto split: if_splits sum.splits option.splits Response.splits)
  with "2.IH" show ?case by fastforce
qed simp

lemma collect_history_result:
  "collect_history acc turns = Some (Inr samples) \<Longrightarrow> length acc \<le> MAX_REMOTE_HISTORY_SAMPLES \<Longrightarrow>
     length samples \<le> MAX_REMOTE_HISTORY_SAMPLES \<and>
     (\<exists>ws. samples = acc @ map metric_sample_of_wire ws)"
proof (induction acc turns rule: collect_history.induct)
  case (2 acc expired frame rest)
  then have ok: "\<not> expired" by (auto split: if_splits)
  from "2.prems"(1) ok consider
    w where "timed_result ''history response'' frame = Inr (Some (RMetricSample w))"
      "length acc < MAX_REMOTE_HISTORY_SAMPLES"
      "collect_history (acc @ [metric_sample_of_wire w]) rest = Some (Inr samples)"
    | "samples = acc"
    by (auto split: if_splits sum.splits option.splits Response.splits)
  then show ?case
  proof cases
    case 1
    with "2.IH" [OF ok 1(1)] show ?thesis
      by (auto simp: append_eq_conv_conj) (metis append_Cons append_Nil list.simps(9) append_assoc)
  next
    case 2
    then show ?thesis using "2.prems"(2) by (intro conjI exI [of _ "[]"]) simp_all
  qed
qed simp

text \<open>
  C35. Asking a remote machine for its history is bounded whatever it answers: the request is refused before any
  connection unless the range is at most seven days (for any two 64-bit times, without overflow); after more
  frames than its retention can hold the exchange has ended; and an answer that is returned comes from the
  pinned machine and has no more samples than that, all of them with finite readings.
\<close>

theorem remote_history_bounded:
  assumes "in_i64 from_ms" and "in_i64 to_ms"
    and "query_history ids cs dial open_stream reg eid from_ms to_ms resolution = answer"
    and "\<forall>cl turns. open_stream cl (history_request from_ms to_ms resolution) = InTime (Inr turns) \<longrightarrow>
      43200 < length turns"
  shows "answer \<noteq> None \<and>
    (\<forall>samples. answer = Some (Inr samples) \<longrightarrow>
       0 \<le> to_ms - from_ms \<and> to_ms - from_ms \<le> 7 * 24 * 60 * 60 * 1000 \<and>
       length samples \<le> 43200 \<and> (\<forall>s \<in> set samples. finite_sample s) \<and>
       (\<exists>r cl. machines_get reg eid = Inr r \<and> connect_record ids cs dial r = Inr cl \<and>
          endpoint_str ids (cl_remote_id cl) = rr_endpoint_id r))"
proof -
  have max: "MAX_REMOTE_HISTORY_SAMPLES = 43200"
    by (simp add: MAX_REMOTE_HISTORY_SAMPLES_def MAX_QUERY_ROWS_def)
  let ?bad = "to_ms < from_ms \<or> MAX_HISTORY_RANGE_MS < i64_saturating_sub to_ms from_ms"
  let ?open = "rbind (machines_get reg eid) (\<lambda>r. rbind (connect_record ids cs dial r) (\<lambda>cl.
    timed_result ''history request'' (open_stream cl (history_request from_ms to_ms resolution))))"
  show ?thesis
  proof (cases "?bad \<or> (\<exists>e. ?open = Inl e)")
    case True
    then have "\<exists>e. answer = Some (Inl e)" using assms(3) by (auto simp: query_history_def)
    then show ?thesis by auto
  next
    case False
    then obtain turns where turns: "?open = Inr turns" by (cases ?open) auto
    then obtain r cl where pinned: "machines_get reg eid = Inr r" "connect_record ids cs dial r = Inr cl"
      and stream: "open_stream cl (history_request from_ms to_ms resolution) = InTime (Inr turns)"
      by (auto simp: rbind_eq_Inr)
    have answer: "answer = collect_history [] turns"
      using assms(3) False turns by (simp add: query_history_def)
    have "43200 < length turns" using assms(4) stream by blast
    then have "answer \<noteq> None" using collect_history_waits [of "[]" turns] max answer by auto
    moreover have "0 \<le> to_ms - from_ms \<and> to_ms - from_ms \<le> 7 * 24 * 60 * 60 * 1000"
    proof -
      have "\<not> ?bad" using False by blast
      then show ?thesis
        using assms(1,2)
        by (auto simp: MAX_HISTORY_RANGE_MS_def i64_saturating_sub_def i64_saturate_def in_i64_def i64_limits)
    qed
    moreover have "length samples \<le> 43200 \<and> (\<forall>s \<in> set samples. finite_sample s)"
      if "answer = Some (Inr samples)" for samples
      using collect_history_result [of "[]" turns samples] that answer max finite_sample_of_wire by auto
    ultimately show ?thesis using pinned connect_record_pinned(1) by blast
  qed
qed

theorem remote_history_bounded_witness:
  "query_history bit_ids witness_codecs (\<lambda>_. InTime (Inr witness_client))
     (\<lambda>_ _. InTime (Inr (replicate 43201 (True, TimedOut))))
     \<lparr>reg_records = [(''e'', witness_machine)], reg_file = None :: machines option, reg_poisoned = False\<rparr>
     ''e'' 0 1000 Raw \<noteq> None"
  using remote_history_bounded [of 0 1000 bit_ids witness_codecs "\<lambda>_. InTime (Inr witness_client)"
      "\<lambda>_ _. InTime (Inr (replicate 43201 (True, TimedOut)))"
      "\<lparr>reg_records = [(''e'', witness_machine)], reg_file = None :: machines option, reg_poisoned = False\<rparr>"
      "''e''" Raw, OF _ _ refl]
  by (simp add: in_i64_def i64_limits)

end
