(* ===== verification/Local_Ipc.thy ===== *)
theory Local_Ipc
  imports Config Server Fleet
begin

text \<open>
  The local commands of an operator (\<open>apps/agent/src/runtime/local_ipc.rs\<close>): the socket and its accept loop, the
  bounded reading of one request, and the dispatch of a command to the configuration, the pairing window, the
  fleet, the store and the running alert rules. The daemon's state is the record \<open>LocalContext\<close>: the
  configuration file, the runtime shared with the server, the fleet, and the watch channel of the alert rules
  (its value, and whether the sampler still listens). JSON values are the payload type \<open>LocalData\<close>.
\<close>

section \<open>Commands and responses\<close>

definition ACCEPT_FAILURE_GRACE :: nat where "ACCEPT_FAILURE_GRACE = 30000"
definition MAX_LOCAL_REQUEST_BYTES :: nat where "MAX_LOCAL_REQUEST_BYTES = 64 * 1024"

datatype AlertCommand =
  AlertList
| AlertSet string "string option" "Comparison option" "fl option" "u32 option" "NodeState option"
| AlertRuleEnabled string bool
| AlertReset "string option"
| AlertEnabled bool

datatype LocalCommand =
  Status | FleetSnapshot | PairingCreate
| PairingImport string
| MachineRemove string
| LocalQueryHistory string i64 i64 HistoryResolution
| PeerList
| PeerRevoke string
| RelaySet "string option" "string option"
| BindPortSet "u16 option"
| Alerts AlertCommand
| AdvertiseAddressAdd string
| AdvertiseAddressRemove string
| AdvertiseAddressList
| Doctor

record AlertRuleView =
  av_id :: string
  av_metric :: string
  av_comparison :: Comparison
  av_threshold :: fl
  av_consecutive_samples :: u32
  av_severity :: NodeState
  av_enabled :: bool
  av_source :: AlertRuleSource

definition AlertRuleView_from :: "ResolvedAlertRule \<Rightarrow> AlertRuleView" where
  "AlertRuleView_from resolved =
     \<lparr>av_id = ar_id (rr_rule resolved), av_metric = ar_metric (rr_rule resolved),
      av_comparison = ar_comparison (rr_rule resolved), av_threshold = ar_threshold (rr_rule resolved),
      av_consecutive_samples = ar_consecutive_samples (rr_rule resolved),
      av_severity = ar_severity (rr_rule resolved), av_enabled = rr_enabled resolved,
      av_source = rr_source resolved\<rparr>"

record StatusPayload =
  sp_node :: NodeInfo
  sp_endpoint_id :: string
  sp_direct_addresses :: "SocketAddr list"
  sp_relay_url :: "string option"
  sp_bind_port :: "u16 option"
  sp_latest :: "MetricSample option"
  sp_health :: HealthSnapshot
  sp_trend :: TrendWindow

datatype LocalData =
  DStatus StatusPayload
| DFleet StatusPayload "RemoteMachineSnapshot list"
| DBundle string
| DMachine RemoteMachineSnapshot
| DRemoved bool
| DSamples "MetricSample list"
| DPeers "PeerRecord list"
| DRevoked bool
| DPortSaved
| DRelaySaved "string option" "string option"
| DAddressesSaved "SocketAddr list"
| DAddresses "SocketAddr list"
| DAlerts bool "AlertRuleView list"

datatype LocalError =
  LocalConfig ConfigError | UnusableConfiguration ConfigError | LocalFleet RemoteFleetError
| LocalServer ServerError | LocalPairing PairingError | LocalStore StoreError | LocalMdns PairingMdnsError
| PairingLockUnavailable | HistoryRangeInvalid | SamplerNotRunning | NotSerializable
| RequestTimedOut | RequestUnreadable | EmptyRequest | RequestTooLong | RequestMalformed

record LocalResponse =
  lr_ok :: bool
  lr_data :: "LocalData option"
  lr_error :: "LocalError option"
  lr_warnings :: "LocalError list"

definition failure :: "LocalError \<Rightarrow> LocalResponse" where
  "failure e = \<lparr>lr_ok = False, lr_data = None, lr_error = Some e, lr_warnings = []\<rparr>"

text \<open>\<open>to_value\<close> says whether a payload can be turned into JSON.\<close>

definition success_with :: "(LocalData \<Rightarrow> bool) \<Rightarrow> LocalError list \<Rightarrow> LocalData \<Rightarrow> LocalResponse" where
  "success_with to_value warnings payload =
     (if to_value payload
      then \<lparr>lr_ok = True, lr_data = Some payload, lr_error = None, lr_warnings = warnings\<rparr>
      else failure NotSerializable)"

section \<open>The context\<close>

record ('g, 'f, 'j, 'c, 'h) LocalContext =
  lx_config :: "'g option"
  lx_runtime :: "('f, 'j, 'c) NodeRuntime"
  lx_fleet :: "'h fleet"
  lx_alert_rules :: "AlertRule list"
  lx_sampler :: bool
  lx_timers :: "u64 list"
  lx_closed :: "'c list"

text \<open>What a command meets outside the daemon while it is handled.\<close>

record ('cert, 'url, 'g, 'f, 'j, 'h) local_env =
  le_host :: "('cert, 'url) host_env"
  le_config_codec :: "'g config_codec"
  le_config_io :: "nat \<Rightarrow> bool"
  le_read_fails :: bool
  le_server :: "('f, 'j) server_env"
  le_machine_codec :: "(machines, 'h) file_codec"
  le_machine_io :: "nat \<Rightarrow> bool"
  le_dial :: dial
  le_clock :: "nat \<Rightarrow> i64"
  le_open_stream :: "client \<Rightarrow> RequestBody \<Rightarrow> (TransportError, history_turn list) result timed"
  le_endpoint_id :: endpoint_id
  le_observed :: "SocketAddr list"
  le_label :: string
  le_mdns_spawn :: "string option"
  le_secret :: bytes
  le_to_value :: "LocalData \<Rightarrow> bool"

definition success :: "('cert, 'url, 'g, 'f, 'j, 'h) local_env \<Rightarrow> LocalData \<Rightarrow> LocalResponse" where
  "success env payload = success_with (le_to_value env) [] payload"

definition read_config ::
  "('cert, 'url, 'g, 'f, 'j, 'h) local_env \<Rightarrow> ('g, 'f, 'j, 'c, 'h) LocalContext \<Rightarrow> (ConfigError, AgentConfig) result" where
  "read_config env ctx =
     load_config (le_config_codec env)
       (if le_read_fails env then FileUnreadable else outcome_of (lx_config ctx))"

definition write_config ::
  "('cert, 'url, 'g, 'f, 'j, 'h) local_env \<Rightarrow> AgentConfig \<Rightarrow> ('g, 'f, 'j, 'c, 'h) LocalContext \<Rightarrow>
   (ConfigError, unit) result \<times> ('g, 'f, 'j, 'c, 'h) LocalContext" where
  "write_config env config ctx =
     (case save_config (le_config_codec env) (le_config_io env) config (lx_config ctx) of
        (res, stored) \<Rightarrow> (res, ctx\<lparr>lx_config := stored\<rparr>))"

section \<open>Settings\<close>

text \<open>
  The settings commands share their shape: load the file, change one part of it, save it, report.
\<close>

definition change_config ::
  "('cert, 'url, 'g, 'f, 'j, 'h) local_env \<Rightarrow> (AgentConfig \<Rightarrow> (ConfigError, AgentConfig) result) \<Rightarrow>
   (AgentConfig \<Rightarrow> LocalData) \<Rightarrow> ('g, 'f, 'j, 'c, 'h) LocalContext \<Rightarrow>
   LocalResponse \<times> ('g, 'f, 'j, 'c, 'h) LocalContext" where
  "change_config env change report ctx =
     (case rbind (read_config env ctx) change of
        Inl e \<Rightarrow> (failure (LocalConfig e), ctx)
      | Inr config \<Rightarrow>
          (case write_config env config ctx of
             (Inl e, ctx') \<Rightarrow> (failure (LocalConfig e), ctx')
           | (Inr _, ctx') \<Rightarrow> (success env (report config), ctx')))"

definition set_bind_port ::
  "('cert, 'url, 'g, 'f, 'j, 'h) local_env \<Rightarrow> u16 option \<Rightarrow> ('g, 'f, 'j, 'c, 'h) LocalContext \<Rightarrow>
   LocalResponse \<times> ('g, 'f, 'j, 'c, 'h) LocalContext" where
  "set_bind_port env bind_port ctx =
     (case validate_bind_port bind_port of
        Inl e \<Rightarrow> (failure (LocalConfig e), ctx)
      | Inr _ \<Rightarrow> change_config env (\<lambda>config. Inr (config\<lparr>ag_bind_port := bind_port\<rparr>)) (\<lambda>_. DPortSaved) ctx)"

definition set_relay ::
  "('cert, 'url, 'g, 'f, 'j, 'h) local_env \<Rightarrow> string option \<Rightarrow> string option \<Rightarrow>
   ('g, 'f, 'j, 'c, 'h) LocalContext \<Rightarrow> LocalResponse \<times> ('g, 'f, 'j, 'c, 'h) LocalContext" where
  "set_relay env relay_url ca_certificate ctx =
     (case rbind (validate_relay_url (le_host env) relay_url) (\<lambda>_.
             validate_relay_ca (le_host env) relay_url ca_certificate) of
        Inl e \<Rightarrow> (failure (LocalConfig e), ctx)
      | Inr _ \<Rightarrow>
          change_config env
            (\<lambda>config. Inr (config\<lparr>ag_relay_url := relay_url, ag_relay_ca_certificate := ca_certificate\<rparr>))
            (\<lambda>config. DRelaySaved (ag_relay_url config) (ag_relay_ca_certificate config)) ctx)"

definition update_advertise_addresses ::
  "('cert, 'url, 'g, 'f, 'j, 'h) local_env \<Rightarrow> string \<Rightarrow>
   (SocketAddr list \<Rightarrow> SocketAddr \<Rightarrow> (ConfigError, SocketAddr list) result) \<Rightarrow>
   ('g, 'f, 'j, 'c, 'h) LocalContext \<Rightarrow> LocalResponse \<times> ('g, 'f, 'j, 'c, 'h) LocalContext" where
  "update_advertise_addresses env entered update ctx =
     (case parse_advertise_address entered of
        Inl e \<Rightarrow> (failure (LocalConfig e), ctx)
      | Inr address \<Rightarrow>
          change_config env
            (\<lambda>config. rbind (update (ag_advertise_addresses config) address) (\<lambda>addresses.
               Inr (config\<lparr>ag_advertise_addresses := addresses\<rparr>)))
            (\<lambda>config. DAddressesSaved (ag_advertise_addresses config)) ctx)"

section \<open>Alert thresholds\<close>

definition alert_entry ::
  "string \<Rightarrow> (AlertRuleConfig \<Rightarrow> AlertRuleConfig) \<Rightarrow> AgentConfig \<Rightarrow> AgentConfig" where
  "alert_entry rid edit config =
     config\<lparr>ag_alerts :=
       (case update_first (\<lambda>entry. rc_id entry = rid) edit (ag_alerts config) of
          Some alerts \<Rightarrow> alerts
        | None \<Rightarrow> ag_alerts config @ [edit (AlertRuleConfig_new rid)])\<rparr>"

definition keep_or :: "'a option \<Rightarrow> 'a option \<Rightarrow> 'a option" where
  "keep_or given old = (if given \<noteq> None then given else old)"

fun alert_change :: "AlertCommand \<Rightarrow> AgentConfig \<Rightarrow> AgentConfig" where
  "alert_change AlertList config = config"
| "alert_change (AlertSet rid metric comparison threshold consecutive_samples severity) config =
     alert_entry rid (\<lambda>entry. entry
       \<lparr>rc_metric := keep_or metric (rc_metric entry),
        rc_comparison := keep_or comparison (rc_comparison entry),
        rc_threshold := keep_or threshold (rc_threshold entry),
        rc_consecutive_samples := keep_or consecutive_samples (rc_consecutive_samples entry),
        rc_severity := keep_or severity (rc_severity entry)\<rparr>) config"
| "alert_change (AlertRuleEnabled rid enabled) config =
     alert_entry rid (\<lambda>entry. entry\<lparr>rc_enabled := Some enabled\<rparr>) config"
| "alert_change (AlertReset rid) config =
     config\<lparr>ag_alerts :=
       (case rid of None \<Rightarrow> [] | Some r \<Rightarrow> filter (\<lambda>entry. rc_id entry \<noteq> r) (ag_alerts config))\<rparr>"
| "alert_change (AlertEnabled enabled) config = config\<lparr>ag_alerts_enabled := enabled\<rparr>"

definition alert_listing ::
  "('cert, 'url, 'g, 'f, 'j, 'h) local_env \<Rightarrow> AgentConfig \<Rightarrow> LocalResponse" where
  "alert_listing env config =
     (case resolved_alert_rules config of
        Inl e \<Rightarrow> failure (LocalConfig e)
      | Inr rules \<Rightarrow> success env (DAlerts (ag_alerts_enabled config) (map AlertRuleView_from rules)))"

definition update_alerts ::
  "('cert, 'url, 'g, 'f, 'j, 'h) local_env \<Rightarrow> (AgentConfig \<Rightarrow> AgentConfig) \<Rightarrow>
   ('g, 'f, 'j, 'c, 'h) LocalContext \<Rightarrow> LocalResponse \<times> ('g, 'f, 'j, 'c, 'h) LocalContext" where
  "update_alerts env change ctx =
     (case read_config env ctx of
        Inl e \<Rightarrow> (failure (LocalConfig e), ctx)
      | Inr config \<Rightarrow>
          let config = change config in
          case alert_rules config of
            Inl e \<Rightarrow> (failure (LocalConfig e), ctx)
          | Inr effective \<Rightarrow>
              (case write_config env config ctx of
                 (Inl e, ctx') \<Rightarrow> (failure (LocalConfig e), ctx')
               | (Inr _, ctx') \<Rightarrow>
                   if \<not> lx_sampler ctx' then (failure SamplerNotRunning, ctx')
                   else (alert_listing env config, ctx'\<lparr>lx_alert_rules := effective\<rparr>)))"

definition handle_alerts ::
  "('cert, 'url, 'g, 'f, 'j, 'h) local_env \<Rightarrow> AlertCommand \<Rightarrow> ('g, 'f, 'j, 'c, 'h) LocalContext \<Rightarrow>
   LocalResponse \<times> ('g, 'f, 'j, 'c, 'h) LocalContext" where
  "handle_alerts env command ctx =
     (if command = AlertList then
        (case read_config env ctx of
           Inl e \<Rightarrow> (failure (LocalConfig e), ctx)
         | Inr config \<Rightarrow> (alert_listing env config, ctx))
      else update_alerts env (alert_change command) ctx)"

section \<open>Pairing, status and history\<close>

definition bundle_direct_addresses :: "SocketAddr list \<Rightarrow> SocketAddr list \<Rightarrow> SocketAddr list" where
  "bundle_direct_addresses observed advertised = push_new [] (observed @ advertised)"

definition local_status ::
  "('cert, 'url, 'g, 'f, 'j, 'h) local_env \<Rightarrow> ('g, 'f, 'j, 'c, 'h) LocalContext \<Rightarrow>
   (ConfigError, StatusPayload) result" where
  "local_status env ctx =
     rbind (read_config env ctx) (\<lambda>config.
       Inr \<lparr>sp_node = rt_info (lx_runtime ctx),
            sp_endpoint_id = endpoint_str (se_ids (le_server env)) (le_endpoint_id env),
            sp_direct_addresses = le_observed env, sp_relay_url = ag_relay_url config,
            sp_bind_port = ag_bind_port config, sp_latest = rt_latest (lx_runtime ctx),
            sp_health = rt_health (lx_runtime ctx), sp_trend = rt_trend (lx_runtime ctx)\<rparr>)"

text \<open>
  \<open>create_pairing_bundle\<close>: the window is open as soon as \<open>open\<close> ran, also when encoding the bundle fails. A
  started advertisement leaves a timer that will close its generation.
\<close>

definition create_pairing_bundle ::
  "('cert, 'url, 'g, 'f, 'j, 'h) local_env \<Rightarrow> ('g, 'f, 'j, 'c, 'h) LocalContext \<Rightarrow>
   LocalResponse \<times> ('g, 'f, 'j, 'c, 'h) LocalContext" where
  "create_pairing_bundle env ctx =
     (case read_config env ctx of
        Inl e \<Rightarrow> (failure (LocalConfig e), ctx)
      | Inr config \<Rightarrow>
          (case validate_config (le_host env) config of
             Inl e \<Rightarrow> (failure (UnusableConfiguration e), ctx)
           | Inr _ \<Rightarrow>
               let rt = lx_runtime ctx in
               if rt_pairing_poisoned rt then (failure PairingLockUnavailable, ctx)
               else
                 let (pairing, bd) =
                       open_window (se_ids (le_server env)) (se_codecs (le_server env)) (le_secret env)
                         (se_now_ms (le_server env)) (rt_pairing rt) (ni_node_id (rt_info rt)) (le_endpoint_id env)
                         (bundle_direct_addresses (le_observed env) (ag_advertise_addresses config))
                         (case ag_relay_url config of None \<Rightarrow> [] | Some url \<Rightarrow> [url]);
                     rt = rt\<lparr>rt_pairing := pairing\<rparr>;
                     ctx = ctx\<lparr>lx_runtime := rt\<rparr>
                 in case bundle_encode (se_codecs (le_server env)) bd of
                      Inl e \<Rightarrow> (failure (LocalPairing e), ctx)
                    | Inr encoded \<Rightarrow>
                        (case mdns_open (rt_mdns rt) (le_observed env) (le_label env) (le_mdns_spawn env) of
                           (Inr generation, mdns) \<Rightarrow>
                             (success env (DBundle encoded),
                              ctx\<lparr>lx_runtime := rt\<lparr>rt_mdns := mdns\<rparr>, lx_timers := lx_timers ctx @ [generation]\<rparr>)
                         | (Inl e, mdns) \<Rightarrow>
                             (success_with (le_to_value env) [LocalMdns e] (DBundle encoded),
                              ctx\<lparr>lx_runtime := rt\<lparr>rt_mdns := mdns\<rparr>\<rparr>))))"

text \<open>The timer of an advertisement fires.\<close>

definition advertisement_expires ::
  "u64 \<Rightarrow> ('g, 'f, 'j, 'c, 'h) LocalContext \<Rightarrow> ('g, 'f, 'j, 'c, 'h) LocalContext" where
  "advertisement_expires generation ctx =
     (let rt = lx_runtime ctx
      in ctx\<lparr>lx_runtime := rt\<lparr>rt_mdns := snd (close_if_generation (rt_mdns rt) generation)\<rparr>,
             lx_timers := remove1 generation (lx_timers ctx)\<rparr>)"

definition handle_remote_history ::
  "('cert, 'url, 'g, 'f, 'j, 'h) local_env \<Rightarrow> 'h fleet \<Rightarrow> string \<Rightarrow> i64 \<Rightarrow> i64 \<Rightarrow> HistoryResolution \<Rightarrow>
   LocalResponse option" where
  "handle_remote_history env fl eid from_ms to_ms resolution =
     map_option (\<lambda>res. case res of Inl e \<Rightarrow> failure (LocalFleet e) | Inr samples \<Rightarrow> success env (DSamples samples))
       (query_history (se_ids (le_server env)) (se_codecs (le_server env)) (le_dial env) (le_open_stream env)
          (fl_registry fl) eid from_ms to_ms resolution)"

definition handle_local_history ::
  "('cert, 'url, 'g, 'f, 'j, 'h) local_env \<Rightarrow> ('f, 'j, 'c) NodeRuntime \<Rightarrow> i64 \<Rightarrow> i64 \<Rightarrow> HistoryResolution \<Rightarrow>
   LocalResponse" where
  "handle_local_history env rt from_ms to_ms resolution =
     (if to_ms < from_ms \<or> MAX_HISTORY_RANGE_MS < i64_saturating_sub to_ms from_ms then failure HistoryRangeInvalid
      else case query (se_sqlite (le_server env) 0) (se_json (le_server env)) (rt_store rt) from_ms to_ms resolution of
             Inl e \<Rightarrow> failure (LocalStore e)
           | Inr samples \<Rightarrow> success env (DSamples samples))"

section \<open>Dispatch\<close>

definition local_result ::
  "('cert, 'url, 'g, 'f, 'j, 'h) local_env \<Rightarrow> ('e \<Rightarrow> LocalError) \<Rightarrow> ('a \<Rightarrow> LocalData) \<Rightarrow> ('e, 'a) result \<Rightarrow>
   LocalResponse" where
  "local_result env err payload res = (case res of Inl e \<Rightarrow> failure (err e) | Inr x \<Rightarrow> success env (payload x))"

fun handle_local ::
  "('cert, 'url, 'g, 'f, 'j, 'h) local_env \<Rightarrow> LocalCommand \<Rightarrow> ('g, 'f, 'j, 'c, 'h) LocalContext \<Rightarrow>
   LocalResponse option \<times> ('g, 'f, 'j, 'c, 'h) LocalContext" where
  "handle_local env Status ctx = (Some (local_result env LocalConfig DStatus (local_status env ctx)), ctx)"
| "handle_local env Doctor ctx = (Some (local_result env LocalConfig DStatus (local_status env ctx)), ctx)"
| "handle_local env FleetSnapshot ctx =
     (Some (local_result env LocalConfig
        (\<lambda>status. DFleet status (fleet_snapshots (le_clock env 0) (lx_fleet ctx))) (local_status env ctx)), ctx)"
| "handle_local env PairingCreate ctx = map_prod Some id (create_pairing_bundle env ctx)"
| "handle_local env (PairingImport encoded) ctx =
     (case import_pairing (se_ids (le_server env)) (se_codecs (le_server env)) (le_machine_codec env)
             (le_machine_io env) (le_dial env) (le_clock env) encoded (lx_fleet ctx) of
        (res, fl) \<Rightarrow> (Some (local_result env LocalFleet DMachine res), ctx\<lparr>lx_fleet := fl\<rparr>))"
| "handle_local env (MachineRemove eid) ctx =
     (case remove_machine (le_machine_codec env) (le_machine_io env) eid (lx_fleet ctx) of
        (res, fl) \<Rightarrow> (Some (local_result env LocalFleet DRemoved res), ctx\<lparr>lx_fleet := fl\<rparr>))"
| "handle_local env (LocalQueryHistory eid from_ms to_ms resolution) ctx =
     ((if eid = endpoint_str (se_ids (le_server env)) (le_endpoint_id env)
       then Some (handle_local_history env (lx_runtime ctx) from_ms to_ms resolution)
       else handle_remote_history env (lx_fleet ctx) eid from_ms to_ms resolution), ctx)"
| "handle_local env PeerList ctx =
     (Some (local_result env LocalPairing DPeers (list_peers (rt_peers (lx_runtime ctx)))), ctx)"
| "handle_local env (PeerRevoke eid) ctx =
     (case revoke_peer (le_server env) (lx_runtime ctx) eid of
        (res, cs, rt) \<Rightarrow>
          (Some (local_result env LocalServer DRevoked res),
           ctx\<lparr>lx_runtime := rt, lx_closed := lx_closed ctx @ cs\<rparr>))"
| "handle_local env (Alerts command) ctx = map_prod Some id (handle_alerts env command ctx)"
| "handle_local env (BindPortSet bind_port) ctx = map_prod Some id (set_bind_port env bind_port ctx)"
| "handle_local env (AdvertiseAddressAdd entered) ctx =
     map_prod Some id (update_advertise_addresses env entered add_advertise_address ctx)"
| "handle_local env (AdvertiseAddressRemove entered) ctx =
     map_prod Some id (update_advertise_addresses env entered remove_advertise_address ctx)"
| "handle_local env AdvertiseAddressList ctx =
     (Some (local_result env LocalConfig (\<lambda>config. DAddresses (ag_advertise_addresses config)) (read_config env ctx)), ctx)"
| "handle_local env (RelaySet relay_url ca_certificate) ctx =
     map_prod Some id (set_relay env relay_url ca_certificate ctx)"

section \<open>The socket\<close>

text \<open>What arrives on a connection: nothing in time, a read error or invalid UTF-8, or bytes until the peer stops.\<close>

datatype arrival = Silent | Broken | Sent string

definition read_line :: "string \<Rightarrow> string" where
  "read_line s =
     (case dropWhile (\<lambda>ch. ch \<noteq> CHR 0x0A) s of [] \<Rightarrow> s | _ # _ \<Rightarrow> takeWhile (\<lambda>ch. ch \<noteq> CHR 0x0A) s @ [CHR 0x0A])"

definition read_local_request ::
  "(string \<Rightarrow> LocalCommand option) \<Rightarrow> arrival \<Rightarrow> (LocalResponse, LocalCommand) result" where
  "read_local_request parse arrived =
     (case arrived of
        Silent \<Rightarrow> Inl (failure RequestTimedOut)
      | Broken \<Rightarrow> Inl (failure RequestUnreadable)
      | Sent s \<Rightarrow>
          let line = read_line (take MAX_LOCAL_REQUEST_BYTES s)
          in if line = [] then Inl (failure EmptyRequest)
             else if \<not> ends_with line [CHR 0x0A] then Inl (failure RequestTooLong)
             else ok_or (failure RequestMalformed) (parse (trim_end line)))"

definition serve_local_stream_prefixed ::
  "('cert, 'url, 'g, 'f, 'j, 'h) local_env \<Rightarrow> (string \<Rightarrow> LocalCommand option) \<Rightarrow> string \<Rightarrow> arrival \<Rightarrow>
   ('g, 'f, 'j, 'c, 'h) LocalContext \<Rightarrow> LocalResponse option \<times> ('g, 'f, 'j, 'c, 'h) LocalContext" where
  "serve_local_stream_prefixed env parse prefix arrived ctx =
     (case read_local_request parse (case arrived of Sent s \<Rightarrow> Sent (prefix @ s) | other \<Rightarrow> other) of
        Inr command \<Rightarrow> handle_local env command ctx
      | Inl response \<Rightarrow> (Some response, ctx))"

datatype socket_file = NoSocketFile | SocketFile | OtherFile | StatFails

definition claim_socket :: "socket_file \<Rightarrow> bool \<Rightarrow> (string, socket_file) result" where
  "claim_socket existing remove_fails =
     (case existing of
        SocketFile \<Rightarrow> if remove_fails then Inl ''remove'' else Inr NoSocketFile
      | OtherFile \<Rightarrow> Inl ''refusing to replace non-socket path''
      | NoSocketFile \<Rightarrow> Inr NoSocketFile
      | StatFails \<Rightarrow> Inl ''stat'')"

definition socket_mode :: "bool \<Rightarrow> nat" where
  "socket_mode shared = (if shared then 432 else 384)"

text \<open>
  The accept loop over its events: an accepted connection with or without readable credentials, or a failed
  accept with the clock readings for \<open>failing_since\<close> and for \<open>elapsed\<close>. The loop ends only with an error;
  the number of served connections is counted.
\<close>

datatype accept_event = Accepted bool | AcceptFailed nat nat

fun accept_loop :: "nat option \<Rightarrow> nat \<Rightarrow> accept_event list \<Rightarrow> nat option \<times> nat \<times> bool" where
  "accept_loop failing_since served [] = (failing_since, served, False)"
| "accept_loop failing_since served (Accepted credentials # rest) =
     accept_loop None (if credentials then served + 1 else served) rest"
| "accept_loop failing_since served (AcceptFailed t t' # rest) =
     (let since = (case failing_since of None \<Rightarrow> t | Some s \<Rightarrow> s)
      in if ACCEPT_FAILURE_GRACE \<le> t' - since then (Some since, served, True)
         else accept_loop (Some since) served rest)"

text \<open>Where a client looks for the daemon on Linux, and the first place that answers.\<close>

definition local_socket_candidates_with_runtime_socket ::
  "AppPaths \<Rightarrow> bool \<Rightarrow> string option \<Rightarrow> string list" where
  "local_socket_candidates_with_runtime_socket paths explicit user_runtime_socket =
     (if explicit then [ap_local_socket paths]
      else
        let candidates = [''/run/rackio/agent.sock''];
            candidates =
              (case user_runtime_socket of
                 Some socket \<Rightarrow>
                   if socket \<noteq> [] \<and> hd socket = CHR ''/'' \<and> socket \<notin> set candidates then candidates @ [socket]
                   else candidates
               | None \<Rightarrow> candidates)
        in if ap_local_socket paths \<in> set candidates then candidates else candidates @ [ap_local_socket paths])"

definition local_socket_candidates :: "AppPaths \<Rightarrow> bool \<Rightarrow> (string \<Rightarrow> string option) \<Rightarrow> string list" where
  "local_socket_candidates paths explicit var =
     local_socket_candidates_with_runtime_socket paths explicit
       (map_option (\<lambda>dir. path_join dir ''rackio/agent.sock'') (var ''XDG_RUNTIME_DIR''))"

definition connected_socket :: "(string \<Rightarrow> bool) \<Rightarrow> string list \<Rightarrow> string option" where
  "connected_socket answers candidates = find answers candidates"

section \<open>Effect on the settings\<close>

lemma success_simps [simp]: "lr_ok (failure e) = False" "lr_data (failure e) = None" "lr_error (failure e) = Some e"
  by (simp_all add: failure_def)

text \<open>What of the context a settings command may touch.\<close>

definition same_settings :: "('g, 'f, 'j, 'c, 'h) LocalContext \<Rightarrow> ('g, 'f, 'j, 'c, 'h) LocalContext \<Rightarrow> bool" where
  "same_settings ctx ctx' \<longleftrightarrow> lx_config ctx' = lx_config ctx \<and> lx_alert_rules ctx' = lx_alert_rules ctx \<and>
     lx_sampler ctx' = lx_sampler ctx"

lemma same_settings_refl [simp]: "same_settings ctx ctx"
  by (simp add: same_settings_def)

lemma write_config_cases:
  obtains (saved) f where "write_config env config ctx = (Inr (), ctx\<lparr>lx_config := Some f\<rparr>)"
      "to_file (le_config_codec env) config = Some f"
  | (refused) e where "write_config env config ctx = (Inl e, ctx)"
  by (rule save_config_cases [of "le_config_codec env" "le_config_io env" config "lx_config ctx"])
    (auto simp: write_config_def intro: that)

lemma change_config_cases:
  obtains (refused) e where "change_config env change report ctx = (failure (LocalConfig e), ctx)"
  | (saved) config config' f where "read_config env ctx = Inr config" "change config = Inr config'"
      "to_file (le_config_codec env) config' = Some f"
      "change_config env change report ctx = (success env (report config'), ctx\<lparr>lx_config := Some f\<rparr>)"
proof (cases "rbind (read_config env ctx) change")
  case (Inl e)
  then show thesis by (intro refused) (simp add: change_config_def)
next
  case (Inr config')
  then obtain config where "read_config env ctx = Inr config" "change config = Inr config'"
    by (auto simp: rbind_eq_Inr)
  then show thesis
    using Inr refused saved
    by (rule_tac write_config_cases [where env = env and config = config' and ctx = ctx]) (auto simp: change_config_def)
qed

lemma update_alerts_cases:
  obtains (refused) e where "update_alerts env change ctx = (failure e, ctx)"
  | (saved) config f rules where "read_config env ctx = Inr config" "alert_rules (change config) = Inr rules"
      "to_file (le_config_codec env) (change config) = Some f"
      "update_alerts env change ctx =
         (if lx_sampler ctx
          then (alert_listing env (change config), ctx\<lparr>lx_config := Some f, lx_alert_rules := rules\<rparr>)
          else (failure SamplerNotRunning, ctx\<lparr>lx_config := Some f\<rparr>))"
proof (cases "rbind (read_config env ctx) (\<lambda>config. alert_rules (change config))")
  case (Inl e)
  then show thesis by (intro refused) (auto simp: update_alerts_def rbind_eq_Inl)
next
  case (Inr rules)
  then obtain config where "read_config env ctx = Inr config" "alert_rules (change config) = Inr rules"
    by (auto simp: rbind_eq_Inr)
  then show thesis
    using refused saved
    by (rule_tac write_config_cases [where env = env and config = "change config" and ctx = ctx])
      (auto simp: update_alerts_def)
qed

text \<open>The fields that a change of the alerts leaves alone.\<close>

definition same_network_settings :: "AgentConfig \<Rightarrow> AgentConfig \<Rightarrow> bool" where
  "same_network_settings config config' \<longleftrightarrow>
     ag_relay_url config' = ag_relay_url config \<and>
     ag_relay_ca_certificate config' = ag_relay_ca_certificate config \<and>
     ag_bind_port config' = ag_bind_port config \<and>
     ag_advertise_addresses config' = ag_advertise_addresses config"

definition same_alert_settings :: "AgentConfig \<Rightarrow> AgentConfig \<Rightarrow> bool" where
  "same_alert_settings config config' \<longleftrightarrow>
     ag_alerts config' = ag_alerts config \<and> ag_alerts_enabled config' = ag_alerts_enabled config"

lemma alert_change_network: "same_network_settings config (alert_change command config)"
  by (cases command) (simp_all add: same_network_settings_def alert_entry_def)

lemma same_network_valid: "same_network_settings config config' \<Longrightarrow> validate_config h config' = validate_config h config"
  by (simp add: same_network_settings_def validate_config_def)

lemma same_alert_rules: "same_alert_settings config config' \<Longrightarrow> alert_rules config' = alert_rules config"
  by (simp add: same_alert_settings_def alert_rules_def resolved_alert_rules_def)

section \<open>The invariant of the settings\<close>

text \<open>
  The file can be loaded and passes its checks, its thresholds can be resolved, and the running sampler
  evaluates exactly those.
\<close>

definition settings_ok ::
  "('cert, 'url) host_env \<Rightarrow> 'g config_codec \<Rightarrow> ('g, 'f, 'j, 'c, 'h) LocalContext \<Rightarrow> bool" where
  "settings_ok h c ctx \<longleftrightarrow>
     (\<exists>config rules. load_config c (outcome_of (lx_config ctx)) = Inr config \<and>
        validate_config h config = Inr () \<and> alert_rules config = Inr rules \<and>
        (lx_sampler ctx \<longrightarrow> lx_alert_rules ctx = rules))"

lemma same_settings_ok: "same_settings ctx ctx' \<Longrightarrow> settings_ok h c ctx \<Longrightarrow> settings_ok h c ctx'"
  by (simp add: settings_ok_def same_settings_def)

lemma read_config_loads:
  assumes "read_config env ctx = Inr config" and "le_config_codec env = c"
  shows "load_config c (outcome_of (lx_config ctx)) = Inr config"
  using assms by (auto simp: read_config_def load_config_def load_records_def split: if_splits)

lemma change_config_ok:
  assumes "codec_faithful c" and "le_config_codec env = c" and "settings_ok h c ctx"
    and "\<And>config config'. change config = Inr config' \<Longrightarrow> validate_config h config = Inr () \<Longrightarrow>
      validate_config h config' = Inr () \<and> same_alert_settings config config'"
  shows "settings_ok h c (snd (change_config env change report ctx))"
proof (cases env change report ctx rule: change_config_cases)
  case (refused e)
  then show ?thesis using assms(3) by simp
next
  case (saved config config' f)
  have loaded: "load_config c (outcome_of (lx_config ctx)) = Inr config"
    by (rule read_config_loads [OF saved(1) assms(2)])
  obtain rules where old: "validate_config h config = Inr ()" "alert_rules config = Inr rules"
    "lx_sampler ctx \<longrightarrow> lx_alert_rules ctx = rules"
    using assms(3) loaded by (auto simp: settings_ok_def)
  have new: "validate_config h config' = Inr ()" "same_alert_settings config config'"
    using assms(4) [OF saved(2) old(1)] by auto
  have "load_config c (outcome_of (Some f)) = Inr config'"
    using load_saved [OF assms(1)] saved(3) assms(2) by simp
  then show ?thesis
    using new same_alert_rules [OF new(2)] old by (simp add: settings_ok_def saved(4))
qed

lemma update_alerts_ok:
  assumes "codec_faithful c" and "le_config_codec env = c" and "settings_ok h c ctx"
    and "\<And>config. same_network_settings config (change config)"
  shows "settings_ok h c (snd (update_alerts env change ctx))"
proof (cases env change ctx rule: update_alerts_cases)
  case (refused e)
  then show ?thesis using assms(3) by simp
next
  case (saved config f rules)
  have "load_config c (outcome_of (lx_config ctx)) = Inr config"
    by (rule read_config_loads [OF saved(1) assms(2)])
  then have "validate_config h (change config) = Inr ()"
    using assms(3) by (auto simp: settings_ok_def same_network_valid [OF assms(4)])
  moreover have "load_config c (outcome_of (Some f)) = Inr (change config)"
    using load_saved [OF assms(1)] saved(3) assms(2) by simp
  ultimately show ?thesis
    using saved(2,4) by (auto simp: settings_ok_def)
qed

lemma validate_config_update:
  assumes "validate_config h config = Inr ()"
  shows "p \<noteq> Some 0 \<Longrightarrow> validate_config h (config\<lparr>ag_bind_port := p\<rparr>) = Inr ()"
    and "addresses_usable addresses \<Longrightarrow> validate_config h (config\<lparr>ag_advertise_addresses := addresses\<rparr>) = Inr ()"
    and "validate_relay_url h url = Inr () \<Longrightarrow> validate_relay_ca h url ca = Inr () \<Longrightarrow>
      validate_config h (config\<lparr>ag_relay_url := url, ag_relay_ca_certificate := ca\<rparr>) = Inr ()"
  using assms validate_relay_iff [of h url ca] by (auto simp: validate_config_iff relay_usable_def)

text \<open>Both changes of the advertised addresses satisfy the contract that keeps the list usable.\<close>

context address_change
begin

lemma update_keeps_settings:
  assumes "codec_faithful c" and "le_config_codec env = c" and "settings_ok h c ctx"
  shows "settings_ok h c (snd (update_advertise_addresses env entered change ctx))"
proof (cases "parse_advertise_address entered")
  case (Inl e)
  then show ?thesis using assms(3) by (simp add: update_advertise_addresses_def)
next
  case (Inr a)
  have "settings_ok h c (snd (change_config env
      (\<lambda>config. rbind (change (ag_advertise_addresses config) a) (\<lambda>addresses.
         Inr (config\<lparr>ag_advertise_addresses := addresses\<rparr>)))
      (\<lambda>config. DAddressesSaved (ag_advertise_addresses config)) ctx))"
    using parse_advertise_address_port [OF Inr] keeps_usable
    by (intro change_config_ok [OF assms])
      (auto simp: rbind_eq_Inr validate_config_iff relay_usable_def same_alert_settings_def)
  then show ?thesis using Inr by (simp add: update_advertise_addresses_def)
qed

end

lemma set_bind_port_ok:
  assumes "codec_faithful c" and "le_config_codec env = c" and "settings_ok h c ctx"
  shows "settings_ok h c (snd (set_bind_port env p ctx))"
proof (cases "p = Some 0")
  case True
  then show ?thesis using assms(3) by (simp add: set_bind_port_def validate_bind_port_def)
next
  case False
  then have "set_bind_port env p ctx =
      change_config env (\<lambda>config. Inr (config\<lparr>ag_bind_port := p\<rparr>)) (\<lambda>_. DPortSaved) ctx"
    by (simp add: set_bind_port_def validate_bind_port_def)
  moreover have "settings_ok h c (snd (change_config env
      (\<lambda>config. Inr (config\<lparr>ag_bind_port := p\<rparr>)) (\<lambda>_. DPortSaved) ctx))"
    using False
    by (intro change_config_ok [OF assms]) (auto simp: same_alert_settings_def intro: validate_config_update)
  ultimately show ?thesis by simp
qed

lemma set_relay_ok:
  assumes "codec_faithful c" and "le_config_codec env = c" and "settings_ok h c ctx" and "le_host env = h"
  shows "settings_ok h c (snd (set_relay env url ca ctx))"
proof (cases "validate_relay_url h url = Inr () \<and> validate_relay_ca h url ca = Inr ()")
  case False
  then obtain e where "rbind (validate_relay_url h url) (\<lambda>_. validate_relay_ca h url ca) = Inl e"
    by (cases "rbind (validate_relay_url h url) (\<lambda>_. validate_relay_ca h url ca)") (auto simp: rbind_eq_Inr)
  then show ?thesis using assms(3,4) by (simp add: set_relay_def)
next
  case True
  let ?change = "\<lambda>config. Inr (config\<lparr>ag_relay_url := url, ag_relay_ca_certificate := ca\<rparr>)"
  have "settings_ok h c (snd (change_config env ?change
      (\<lambda>config. DRelaySaved (ag_relay_url config) (ag_relay_ca_certificate config)) ctx))"
    using True
    by (intro change_config_ok [OF assms(1-3)]) (auto simp: same_alert_settings_def intro: validate_config_update)
  then show ?thesis using True assms(4) by (simp add: set_relay_def)
qed

lemma handle_alerts_ok:
  assumes "codec_faithful c" and "le_config_codec env = c" and "settings_ok h c ctx"
  shows "settings_ok h c (snd (handle_alerts env command ctx))"
  using assms update_alerts_ok [OF assms alert_change_network]
  by (simp add: handle_alerts_def split: sum.split)

lemma create_pairing_bundle_settings: "same_settings ctx (snd (create_pairing_bundle env ctx))"
  by (simp add: create_pairing_bundle_def open_window_def same_settings_def Let_def split: sum.splits prod.splits)

lemma handle_local_ok:
  assumes "codec_faithful c" and "le_config_codec env = c" and "settings_ok h c ctx" and "le_host env = h"
  shows "settings_ok h c (snd (handle_local env command ctx))"
proof (cases command)
  case (RelaySet url ca)
  then show ?thesis using set_relay_ok [OF assms, of url ca] by simp
next
  case (BindPortSet p)
  then show ?thesis using set_bind_port_ok [OF assms(1-3), of p] by simp
next
  case (Alerts alert)
  then show ?thesis using handle_alerts_ok [OF assms(1-3), of alert] by simp
next
  case (AdvertiseAddressAdd entered)
  then show ?thesis using adding.update_keeps_settings [OF assms(1-3), of entered] by simp
next
  case (AdvertiseAddressRemove entered)
  then show ?thesis using removing.update_keeps_settings [OF assms(1-3), of entered] by simp
next
  case PairingCreate
  then show ?thesis using same_settings_ok [OF create_pairing_bundle_settings assms(3), of env] by simp
qed (use assms(3) in \<open>auto simp: settings_ok_def split: prod.splits\<close>)

text \<open>A day of commands, each meeting its own failures.\<close>

definition run_commands ::
  "('g, 'f, 'j, 'c, 'h) LocalContext \<Rightarrow> (('cert, 'url, 'g, 'f, 'j, 'h) local_env \<times> LocalCommand) list \<Rightarrow>
   ('g, 'f, 'j, 'c, 'h) LocalContext" where
  "run_commands ctx calls = foldl (\<lambda>ctx (env, command). snd (handle_local env command ctx)) ctx calls"

lemma run_commands_ok:
  assumes "codec_faithful c" and "\<forall>(env, _) \<in> set calls. le_config_codec env = c \<and> le_host env = h"
    and "settings_ok h c ctx"
  shows "settings_ok h c (run_commands ctx calls)"
  using assms(2,3)
proof (induction calls arbitrary: ctx)
  case (Cons call calls)
  obtain env command where call: "call = (env, command)" by fastforce
  then have "settings_ok h c (snd (handle_local env command ctx))"
    using Cons.prems by (intro handle_local_ok [OF assms(1)]) auto
  then have "settings_ok h c (run_commands (snd (handle_local env command ctx)) calls)"
    using Cons.prems by (intro Cons.IH) auto
  then show ?case by (simp add: run_commands_def call)
qed (simp add: run_commands_def)

text \<open>
  C3. No sequence of commands strands the daemon. From a started daemon, whatever commands the operator gives and
  whichever of their file operations fail, the configuration file can be loaded at the next start, passes its
  checks and resolves its thresholds, the endpoint is refused only when the operating system gives no socket,
  and as long as the sampler runs it evaluates exactly the thresholds of the file.
\<close>

theorem commands_never_strand_the_daemon:
  assumes "codec_faithful c" and "\<forall>(env, _) \<in> set calls. le_config_codec env = c \<and> le_host env = h"
    and "load_validated_config h c (outcome_of (lx_config ctx)) = Inr started"
    and "load_alert_rules started = Inr (lx_alert_rules ctx)"
  shows "\<exists>config rules. load_validated_config h c (outcome_of (lx_config (run_commands ctx calls))) = Inr config \<and>
    load_alert_rules config = Inr rules \<and>
    (lx_sampler (run_commands ctx calls) \<longrightarrow> lx_alert_rules (run_commands ctx calls) = rules) \<and>
    is_ok (bind_endpoint h (endpoint_config config)) = bind_ok h (ag_bind_port config)"
proof -
  have "settings_ok h c ctx"
    using assms(3,4) by (auto simp: settings_ok_def load_validated_config_Inr load_alert_rules_def)
  then obtain config rules where
    "load_config c (outcome_of (lx_config (run_commands ctx calls))) = Inr config"
    and valid: "validate_config h config = Inr ()" and "alert_rules config = Inr rules"
    "lx_sampler (run_commands ctx calls) \<longrightarrow> lx_alert_rules (run_commands ctx calls) = rules"
    using run_commands_ok [OF assms(1,2), of ctx] unfolding settings_ok_def by blast
  moreover have "is_ok (bind_endpoint h (endpoint_config config)) = bind_ok h (ag_bind_port config)"
    unfolding validated_config_bound [OF valid] by (simp split: option.split)
  ultimately show ?thesis unfolding load_validated_config_Inr load_alert_rules_def by blast
qed

section \<open>Thresholds\<close>

fun touches :: "AlertCommand \<Rightarrow> string \<Rightarrow> bool" where
  "touches AlertList rid = False"
| "touches (AlertSet r _ _ _ _ _) rid = (r = rid)"
| "touches (AlertRuleEnabled r _) rid = (r = rid)"
| "touches (AlertReset None) rid = True"
| "touches (AlertReset (Some r)) rid = (r = rid)"
| "touches (AlertEnabled _) rid = False"

lemma alert_entry_other:
  assumes "rid \<noteq> r" and "\<forall>entry. rc_id (edit entry) = rc_id entry"
  shows "filter (\<lambda>c. rc_id c = rid) (ag_alerts (alert_entry r edit config)) =
    filter (\<lambda>c. rc_id c = rid) (ag_alerts config)"
proof (cases "update_first (\<lambda>entry. rc_id entry = r) edit (ag_alerts config)")
  case None
  then show ?thesis using assms by (simp add: alert_entry_def AlertRuleConfig_new_def)
next
  case (Some alerts)
  from update_first_split [OF Some] obtain us v vs where
    "ag_alerts config = us @ v # vs" "rc_id v = r" "alerts = us @ edit v # vs" by blast
  then show ?thesis using assms Some by (simp add: alert_entry_def)
qed

lemma alert_change_other:
  assumes "\<not> touches command rid"
  shows "filter (\<lambda>c. rc_id c = rid) (ag_alerts (alert_change command config)) =
    filter (\<lambda>c. rc_id c = rid) (ag_alerts config)"
proof (cases command)
  case (AlertReset r)
  then show ?thesis using assms by (cases r) (auto intro: filter_cong)
qed (use assms in \<open>auto intro!: alert_entry_other\<close>)


section \<open>The offer of a pairing\<close>

text \<open>What serde documents of the bundle: what it wrote it reads back.\<close>

definition json_decodes :: "codecs \<Rightarrow> bool" where
  "json_decodes cs \<longleftrightarrow> (\<forall>b j. bundle_to_json cs b = Some j \<longrightarrow> bundle_of_json cs j = Some b)"

lemma create_pairing_bundle_refused:
  assumes "\<forall>config. read_config env ctx = Inr config \<longrightarrow> validate_config (le_host env) config \<noteq> Inr ()"
  shows "\<not> lr_ok (fst (create_pairing_bundle env ctx)) \<and> snd (create_pairing_bundle env ctx) = ctx"
  using assms by (auto simp: create_pairing_bundle_def split: sum.splits)

text \<open>
  C14. A pairing bundle is a sound offer. Without a configuration file that loads and passes its checks nothing is
  opened. When the command succeeds, the text decodes to a bundle of this machine whose addresses are the observed
  ones followed by the advertised ones without repetition, with the configured relay, and until it expires its
  secret opens the window that was just opened, for any viewer.
\<close>

theorem pairing_bundle_is_an_offer:
  assumes "b64_faithful (se_codecs (le_server env))" and "json_decodes (se_codecs (le_server env))"
    and "length (le_secret env) = PAIRING_SECRET_BYTES" and "create_pairing_bundle env ctx = (response, ctx')"
  shows "if lr_ok response
    then \<exists>config encoded bd. read_config env ctx = Inr config \<and> validate_config (le_host env) config = Inr () \<and>
         lr_data response = Some (DBundle encoded) \<and>
         bundle_decode (se_codecs (le_server env)) encoded = Inr bd \<and>
         pb_node_id bd = ni_node_id (rt_info (lx_runtime ctx)) \<and>
         pb_endpoint_id bd = endpoint_str (se_ids (le_server env)) (le_endpoint_id env) \<and>
         pb_direct_addresses bd = push_new [] (le_observed env @ ag_advertise_addresses config) \<and>
         pb_relay_urls bd = (case ag_relay_url config of None \<Rightarrow> [] | Some url \<Rightarrow> [url]) \<and>
         (\<forall>now peer. now \<le> pb_expires_at_ms bd \<longrightarrow>
            fst (verify_and_consume_at (se_codecs (le_server env)) (rt_pairing (lx_runtime ctx')) now peer
              (pb_one_time_secret bd)) = Inr ())
    else (\<forall>config. read_config env ctx = Inr config \<longrightarrow> validate_config (le_host env) config \<noteq> Inr ()) \<longrightarrow> ctx' = ctx"
proof (cases "lr_ok response")
  case False
  then show ?thesis using create_pairing_bundle_refused [of env ctx] assms(4) by auto
next
  case True
  let ?cs = "se_codecs (le_server env)"
  let ?rt = "lx_runtime ctx"
  obtain config where config: "read_config env ctx = Inr config" "validate_config (le_host env) config = Inr ()"
    using True assms(4) by (auto simp: create_pairing_bundle_def split: sum.splits)
  define opened where "opened = open_window (se_ids (le_server env)) ?cs (le_secret env)
      (se_now_ms (le_server env)) (rt_pairing ?rt) (ni_node_id (rt_info ?rt)) (le_endpoint_id env)
      (bundle_direct_addresses (le_observed env) (ag_advertise_addresses config))
      (case ag_relay_url config of None \<Rightarrow> [] | Some url \<Rightarrow> [url])"
  obtain j where j: "bundle_to_json ?cs (snd opened) = Some j"
    using True assms(4)
    by (cases "bundle_to_json ?cs (snd opened)")
      (auto simp: create_pairing_bundle_def config opened_def [symmetric] Let_def case_prod_unfold bundle_encode_def
        split: if_splits)
  then have json: "bundle_of_json ?cs j = Some (snd opened)" using assms(2) by (simp add: json_decodes_def)
  have encoded: "bundle_encode ?cs (snd opened) = Inr (bundle_prefix @ b64_encode ?cs j)"
    by (simp add: bundle_encode_def j)
  have version: "pb_format_version (snd opened) = 1" by (simp add: opened_def open_window_def Let_def)
  then have decoded: "bundle_decode ?cs (bundle_prefix @ b64_encode ?cs j) = Inr (snd opened)"
    using assms(1) by (simp add: bundle_decode_def b64_faithful_def json)
  have response: "lr_data response = Some (DBundle (bundle_prefix @ b64_encode ?cs j))"
    and window: "rt_pairing (lx_runtime ctx') = fst opened"
    using True assms(4) encoded
    by (auto simp: create_pairing_bundle_def config opened_def [symmetric] Let_def case_prod_unfold success_def
        success_with_def split: sum.splits if_splits)
  have "fst (verify_and_consume_at ?cs (fst opened) now peer (pb_one_time_secret (snd opened))) = Inr ()"
    if "now \<le> pb_expires_at_ms (snd opened)" for now peer
    using that assms(1,3)
    by (simp add: opened_def open_window_def Let_def verify_and_consume_at_def is_locked_out_def secret_valid_def
        b64_faithful_def)
  then show ?thesis
    using True config response decoded
    by (auto simp: window opened_def open_window_def Let_def bundle_direct_addresses_def)
qed

section \<open>Requests and the listener\<close>

abbreviation newline :: char where "newline \<equiv> CHR 0x0A"

lemma read_line_split:
  "read_line s = (if newline \<in> set s then takeWhile (\<lambda>ch. ch \<noteq> newline) s @ [newline] else s)"
proof (cases "newline \<in> set s")
  case True
  then have "dropWhile (\<lambda>ch. ch \<noteq> newline) s \<noteq> []" by (auto simp: dropWhile_eq_Nil_conv)
  then show ?thesis using True by (cases "dropWhile (\<lambda>ch. ch \<noteq> newline) s") (simp_all add: read_line_def)
next
  case False
  then have "dropWhile (\<lambda>ch. ch \<noteq> newline) s = []" by (auto simp only: dropWhile_eq_Nil_conv)
  then show ?thesis using False by (simp only: read_line_def list.case if_False)
qed

lemma ends_with_snoc: "ends_with s [ch] \<longleftrightarrow> s \<noteq> [] \<and> last s = ch"
proof (cases s rule: rev_cases)
  case (snoc ys y)
  then show ?thesis by (auto simp: ends_with_def)
qed (simp add: ends_with_def)

lemma trim_end_newline: "trim_end (s @ [newline]) = trim_end s"
  by (simp add: trim_end_def blank_def)

lemma read_local_request_Sent:
  fixes s
  defines "b \<equiv> take MAX_LOCAL_REQUEST_BYTES s"
  shows "read_local_request parse (Sent s) =
    (if newline \<in> set b then ok_or (failure RequestMalformed) (parse (trim_end (takeWhile (\<lambda>ch. ch \<noteq> newline) b)))
     else if b = [] then Inl (failure EmptyRequest) else Inl (failure RequestTooLong))"
proof (cases "newline \<in> set b")
  case True
  then show ?thesis
    by (simp add: read_local_request_def b_def [symmetric] read_line_split ends_with_snoc trim_end_newline)
next
  case False
  then have "\<not> (b \<noteq> [] \<and> last b = newline)" using last_in_set [of b] by metis
  then show ?thesis
    using False by (auto simp: read_local_request_def b_def [symmetric] read_line_split ends_with_snoc)
qed

lemma takeWhile_line:
  assumes "newline \<notin> set line"
  shows "takeWhile (\<lambda>ch. ch \<noteq> newline) (line @ newline # rest) = line"
  using assms by (induction line) auto

lemma take_line:
  assumes "newline \<notin> set line" and "length line < n"
  shows "newline \<in> set (take n (line @ newline # rest)) \<and>
    takeWhile (\<lambda>ch. ch \<noteq> newline) (take n (line @ newline # rest)) = line"
proof -
  obtain k where "n - length line = Suc k" using assms(2) by (metis Suc_diff_Suc)
  then show ?thesis using takeWhile_line [OF assms(1)] by simp
qed

lemma first_line:
  assumes "newline \<in> set (take n s)"
  shows "\<exists>line rest. s = line @ newline # rest \<and> newline \<notin> set line \<and> length line < n"
proof -
  obtain line tail where split: "take n s = line @ newline # tail" "newline \<notin> set line"
    using split_list_first [OF assms] by blast
  have "length (take n s) \<le> n" by simp
  then have "length line < n" unfolding split(1) by simp
  moreover have "s = line @ newline # (tail @ drop n s)"
    using append_take_drop_id [of n s] split(1) by (metis append_Cons append_assoc)
  ultimately show ?thesis using split(2) by blast
qed

text \<open>
  C28. One local request costs a bounded amount. Whatever a client sends, only its first 64 KiB matter; a command is
  taken exactly when a newline ends the first line within them and the text before it parses, and bytes after that
  line have no effect on what is done; in every other case the context is left as it was and the client is told why.
\<close>

theorem local_request_bounded:
  "serve_local_stream_prefixed env parse prefix (Sent s) ctx =
     serve_local_stream_prefixed env parse [] (Sent (take MAX_LOCAL_REQUEST_BYTES (prefix @ s))) ctx \<and>
   (read_local_request parse (Sent s) = Inr command \<longleftrightarrow>
      (\<exists>line rest. s = line @ newline # rest \<and> newline \<notin> set line \<and> length line < MAX_LOCAL_REQUEST_BYTES \<and>
         parse (trim_end line) = Some command)) \<and>
   (\<forall>response. read_local_request parse arrived = Inl response \<longrightarrow>
      \<not> lr_ok response \<and> serve_local_stream_prefixed env parse [] arrived ctx = (Some response, ctx))"
proof -
  have taken: "read_local_request parse (Sent s) = Inr command \<longleftrightarrow>
      (\<exists>line rest. s = line @ newline # rest \<and> newline \<notin> set line \<and> length line < MAX_LOCAL_REQUEST_BYTES \<and>
         parse (trim_end line) = Some command)"
  proof (cases "newline \<in> set (take MAX_LOCAL_REQUEST_BYTES s)")
    case True
    then obtain line rest where l: "s = line @ newline # rest" "newline \<notin> set line"
      "length line < MAX_LOCAL_REQUEST_BYTES"
      using first_line by blast
    have "line' = line" if "s = line' @ newline # rest'" "newline \<notin> set line'" for line' rest'
      using takeWhile_line [OF that(2), of rest'] takeWhile_line [OF l(2), of rest] that(1) l(1) by simp
    then show ?thesis
      using l take_line [OF l(2,3), of rest] True by (auto simp: read_local_request_Sent)
  next
    case False
    moreover have False if "s = line @ newline # rest" "newline \<notin> set line" "length line < MAX_LOCAL_REQUEST_BYTES"
      for line rest using that False take_line by blast
    ultimately show ?thesis by (auto simp: read_local_request_Sent)
  qed
  have "read_local_request parse (Sent (take MAX_LOCAL_REQUEST_BYTES t)) = read_local_request parse (Sent t)" for t
    by (simp add: read_local_request_Sent)
  then have "serve_local_stream_prefixed env parse prefix (Sent s) ctx =
      serve_local_stream_prefixed env parse [] (Sent (take MAX_LOCAL_REQUEST_BYTES (prefix @ s))) ctx"
    by (simp add: serve_local_stream_prefixed_def del: take_append)
  moreover have "\<not> lr_ok response \<and> serve_local_stream_prefixed env parse [] arrived ctx = (Some response, ctx)"
    if "read_local_request parse arrived = Inl response" for response
    using that
    by (cases arrived) (auto simp: serve_local_stream_prefixed_def read_local_request_def Let_def split: if_splits)
  ultimately show ?thesis using taken by blast
qed

text \<open>The accept loop: while it fails, every failure so far lies within the grace of the first one.\<close>

fun failing_from :: "nat option \<Rightarrow> accept_event list \<Rightarrow> nat option" where
  "failing_from since [] = since"
| "failing_from since (Accepted _ # rest) = failing_from None rest"
| "failing_from since (AcceptFailed t _ # rest) = failing_from (Some (case since of None \<Rightarrow> t | Some s \<Rightarrow> s)) rest"

lemma accept_loop_append:
  "accept_loop since served (evs @ evs') =
     (case accept_loop since served evs of
        (since', served', True) \<Rightarrow> (since', served', True)
      | (since', served', False) \<Rightarrow> accept_loop since' served' evs')"
  by (induction since served evs rule: accept_loop.induct) (auto simp: Let_def)

lemma accept_loop_running:
  "\<not> snd (snd (accept_loop since served evs)) \<Longrightarrow> fst (accept_loop since served evs) = failing_from since evs"
  by (induction since served evs rule: accept_loop.induct) (auto simp: Let_def split: if_splits)

text \<open>
  The listener rides out failures and stops only when it is really gone: after any events it kept running
  through, a failed accept ends it exactly when accepting has failed without a single success for thirty
  seconds; an accepted connection always resets that clock, and each one with readable credentials is served.
\<close>

theorem listener_stops_only_after_grace:
  assumes "\<not> snd (snd (accept_loop None 0 evs))"
  shows "(snd (snd (accept_loop None 0 (evs @ [AcceptFailed t t']))) \<longleftrightarrow>
      ACCEPT_FAILURE_GRACE \<le> t' - (case failing_from None evs of None \<Rightarrow> t | Some since \<Rightarrow> since)) \<and>
    accept_loop None 0 (evs @ [Accepted credentials]) =
      (None, fst (snd (accept_loop None 0 evs)) + (if credentials then 1 else 0), False)"
proof -
  obtain since served where run: "accept_loop None 0 evs = (since, served, False)"
    using assms by (cases "accept_loop None 0 evs") auto
  then have "since = failing_from None evs" using accept_loop_running [of None 0 evs] by simp
  then show ?thesis by (simp add: accept_loop_append run Let_def)
qed

section \<open>Instances\<close>

definition local_offer :: PairingBundle where
  "local_offer =
     \<lparr>pb_format_version = 1, pb_node_id = 5, pb_endpoint_id = endpoint_str bit_ids 4,
      pb_direct_addresses = [SocketV4 1 80], pb_relay_urls = [],
      pb_one_time_secret = b64_encode plain_codecs witness_secret, pb_expires_at_ms = 301000\<rparr>"

definition local_codecs :: codecs where
  "local_codecs = plain_codecs
     \<lparr>bundle_to_json := (\<lambda>b. if b = local_offer then Some [1] else None), bundle_of_json := (\<lambda>_. Some local_offer)\<rparr>"

definition witness_local_env ::
  "(nat \<Rightarrow> bool) \<Rightarrow> (nat, string, AgentConfig, peers, MetricSample, machines) local_env" where
  "witness_local_env io =
     \<lparr>le_host = witness_host_env, le_config_codec = plain_config, le_config_io = io, le_read_fails = False,
      le_server = (witness_env (\<lambda>_. MetricStore_new))\<lparr>se_codecs := local_codecs\<rparr>,
      le_machine_codec = plain_machines, le_machine_io = (\<lambda>_. False), le_dial = (\<lambda>_. TimedOut), le_clock = (\<lambda>_. 1000),
      le_open_stream = (\<lambda>_ _. TimedOut), le_endpoint_id = 4, le_observed = [SocketV4 1 80], le_label = ''z'',
      le_mdns_spawn = None, le_secret = witness_secret, le_to_value = (\<lambda>_. True)\<rparr>"

definition witness_ctx :: "(AgentConfig, peers, MetricSample, nat, machines) LocalContext" where
  "witness_ctx =
     \<lparr>lx_config = None, lx_runtime = witness_rt, lx_fleet = witness_fleet, lx_alert_rules = default_alert_rules,
      lx_sampler = True, lx_timers = [], lx_closed = []\<rparr>"

lemma witness_local_env_simps [simp]:
  "le_host (witness_local_env io) = witness_host_env" "le_config_codec (witness_local_env io) = plain_config"
  "le_config_io (witness_local_env io) = io" "le_read_fails (witness_local_env io) = False"
  "le_secret (witness_local_env io) = witness_secret" "le_to_value (witness_local_env io) = (\<lambda>_. True)"
  "le_observed (witness_local_env io) = [SocketV4 1 80]" "le_endpoint_id (witness_local_env io) = 4"
  "se_ids (le_server (witness_local_env io)) = bit_ids" "se_codecs (le_server (witness_local_env io)) = local_codecs"
  "se_now_ms (le_server (witness_local_env io)) = 1000"
  by (simp_all add: witness_local_env_def witness_env_def)

lemma witness_ctx_simps [simp]:
  "lx_config witness_ctx = None" "lx_runtime witness_ctx = witness_rt" "lx_sampler witness_ctx = True"
  "lx_alert_rules witness_ctx = default_alert_rules"
  by (simp_all add: witness_ctx_def)

lemma plain_config_simps [simp]: "to_file plain_config = Some" "of_file plain_config = Some"
  by (simp_all add: plain_config_def)

lemma default_rules_resolve: "alert_rules AgentConfig_default = Inr default_alert_rules"
proof -
  have "validate_all shipped_rules = Inr ()"
    by (simp only: validate_all_iff)
      (simp add: validate_iff shipped_rules_def default_alert_rules_def rule_def ALERT_METRICS_def)
  then show ?thesis
    by (simp add: alert_rules_def resolved_alert_rules_def AgentConfig_default_def resolve_alert_rules_def)
      (simp add: shipped_rules_def comp_def)
qed

lemma witness_reads [simp]: "read_config (witness_local_env io) witness_ctx = Inr AgentConfig_default"
  by (simp add: read_config_def load_config_def load_records_def outcome_of_def)

lemma witness_started:
  "load_validated_config witness_host_env plain_config (outcome_of (lx_config witness_ctx)) = Inr AgentConfig_default"
  "load_alert_rules AgentConfig_default = Inr (lx_alert_rules witness_ctx)"
proof -
  have "validate_config witness_host_env AgentConfig_default = Inr ()"
    by (simp add: validate_config_iff relay_usable_def addresses_usable_def AgentConfig_default_def)
  then show "load_validated_config witness_host_env plain_config (outcome_of (lx_config witness_ctx)) =
      Inr AgentConfig_default"
    by (simp add: load_validated_config_Inr load_config_def load_records_def outcome_of_def)
qed (simp add: load_alert_rules_def default_rules_resolve)

definition witness_calls :: "((nat, string, AgentConfig, peers, MetricSample, machines) local_env \<times> LocalCommand) list" where
  "witness_calls =
     [(witness_local_env (\<lambda>_. False), BindPortSet (Some 0)),
      (witness_local_env (\<lambda>n. n = 4), BindPortSet (Some 80)),
      (witness_local_env (\<lambda>_. False), BindPortSet (Some 41641)),
      (witness_local_env (\<lambda>_. False), RelaySet None (Some ''/ca.pem''))]"

theorem commands_never_strand_the_daemon_witness:
  "\<exists>config rules. load_validated_config witness_host_env plain_config
       (outcome_of (lx_config (run_commands witness_ctx witness_calls))) = Inr config \<and>
     load_alert_rules config = Inr rules"
proof -
  have "\<forall>(env, _) \<in> set witness_calls. le_config_codec env = plain_config \<and> le_host env = witness_host_env"
    by (simp add: witness_calls_def)
  from commands_never_strand_the_daemon [OF plain_config_faithful this witness_started] show ?thesis by blast
qed


theorem pairing_bundle_is_an_offer_witness:
  "fst (verify_and_consume_at local_codecs
     (rt_pairing (lx_runtime (snd (create_pairing_bundle (witness_local_env (\<lambda>_. False)) witness_ctx)))) 2000 9
     (pb_one_time_secret local_offer)) = Inr ()"
proof -
  let ?env = "witness_local_env (\<lambda>_. False)"
  have codecs: "b64_faithful (se_codecs (le_server ?env))" "json_decodes (se_codecs (le_server ?env))"
    using plain_b64_faithful by (simp_all add: b64_faithful_def json_decodes_def local_codecs_def)
  have secret: "length (le_secret ?env) = PAIRING_SECRET_BYTES"
    by (simp add: witness_secret_def PAIRING_SECRET_BYTES_def)
  have valid: "validate_config witness_host_env AgentConfig_default = Inr ()"
    using witness_started(1) by (simp add: load_validated_config_Inr)
  have offer: "snd (open_window bit_ids local_codecs witness_secret 1000 (rt_pairing witness_rt)
      (ni_node_id (rt_info witness_rt)) 4 (bundle_direct_addresses [SocketV4 1 80] []) []) = local_offer"
    by (simp add: open_window_def local_offer_def bundle_direct_addresses_def witness_rt_def witness_info_def
        local_codecs_def PAIRING_WINDOW_MS_def i64_wrap_def)
  have "\<not> rt_pairing_poisoned witness_rt" by (simp add: witness_rt_def)
  then have "lr_data (fst (create_pairing_bundle ?env witness_ctx)) = Some (DBundle (bundle_prefix @ b64_encode local_codecs [1]))
      \<and> lr_ok (fst (create_pairing_bundle ?env witness_ctx))"
    using offer
    by (simp add: create_pairing_bundle_def valid AgentConfig_default_def [THEN arg_cong, of ag_advertise_addresses]
        AgentConfig_default_def [THEN arg_cong, of ag_relay_url] case_prod_unfold bundle_encode_def local_codecs_def
        success_def success_with_def Let_def split: sum.splits prod.splits)
  moreover have "bundle_decode local_codecs (bundle_prefix @ b64_encode local_codecs [1]) = Inr local_offer"
    by (simp add: bundle_decode_def local_codecs_def plain_codecs_def local_offer_def)
  ultimately show ?thesis
    using pairing_bundle_is_an_offer [OF codecs secret surjective_pairing, of witness_ctx]
    by (auto simp: local_offer_def)
qed

theorem local_request_bounded_witness:
  "read_local_request (\<lambda>s. if s = ''st'' then Some Status else None) (Sent (''st'' @ newline # ''ignored'')) = Inr Status"
proof -
  let ?parse = "\<lambda>s. if s = ''st'' then Some Status else None"
  let ?s = "''st'' @ newline # ''ignored''"
  have "?parse (trim_end ''st'') = Some Status" by (simp add: trim_end_def blank_def)
  then have "\<exists>line rest. ?s = line @ newline # rest \<and> newline \<notin> set line \<and>
      length line < MAX_LOCAL_REQUEST_BYTES \<and> ?parse (trim_end line) = Some Status"
    by (intro exI [of _ "''st''"] exI [of _ "''ignored''"]) (simp add: MAX_LOCAL_REQUEST_BYTES_def)
  then show ?thesis
    using local_request_bounded [of "witness_local_env (\<lambda>_. False)" ?parse "[]" ?s witness_ctx Status Silent] by blast
qed

theorem listener_stops_only_after_grace_witness:
  "\<not> snd (snd (accept_loop None 0 [AcceptFailed 5 5, AcceptFailed 20000 20000])) \<and>
   snd (snd (accept_loop None 0 ([AcceptFailed 5 5, AcceptFailed 20000 20000] @ [AcceptFailed 30005 30005])))"
proof -
  have "\<not> snd (snd (accept_loop None 0 [AcceptFailed 5 5, AcceptFailed 20000 20000]))"
    by (simp add: ACCEPT_FAILURE_GRACE_def)
  then show ?thesis
    using listener_stops_only_after_grace [of "[AcceptFailed 5 5, AcceptFailed 20000 20000]" 30005 30005 True]
    by (simp add: ACCEPT_FAILURE_GRACE_def)
qed

end
