(* ===== verification/Collector.thy ===== *)
theory Collector
  imports Model
begin

text \<open>
  The system collector (\<open>crates/rackio-core/src/collector.rs\<close>). What the \<open>sysinfo\<close> crate reads
  from the operating system is an input of each step, the record \<open>Host\<close>; the collector's own state
  is what it caches between samples (the throttled disk and sensor lists), its sequence number and
  the instants of its last refreshes, in nanoseconds of the monotonic clock.
\<close>

section \<open>Inputs and state\<close>

definition DISK_REFRESH_INTERVAL :: nat where "DISK_REFRESH_INTERVAL = 30 * 10 ^ 9"
definition TEMPERATURE_REFRESH_INTERVAL :: nat where "TEMPERATURE_REFRESH_INTERVAL = 10 * 10 ^ 9"

text \<open>A listed disk: mount point, total and available space; a listed sensor: label, temperature,
  critical temperature; an interface: bytes received and sent since the last refresh.\<close>

type_synonym disk_entry = "string \<times> u64 \<times> u64"
type_synonym sensor_entry = "string \<times> fl option \<times> fl option"

record Host =
  h_cpu_count :: nat
  h_global_cpu_usage :: fl
  h_total_memory :: u64
  h_used_memory :: u64
  h_total_swap :: u64
  h_used_swap :: u64
  h_disks :: "disk_entry list"
  h_sensors :: "sensor_entry list"
  h_interfaces :: "(u64 \<times> u64) list"
  h_uptime :: u64
  h_utc_ms :: i64
  h_now :: nat
  h_network_now :: nat
  h_network_after :: nat

record SystemCollector =
  sc_disks :: "disk_entry list"
  sc_components :: "sensor_entry list"
  sc_sequence :: u64
  sc_last_network_refresh :: nat
  sc_last_disk_refresh :: nat
  sc_last_temperature_refresh :: nat

definition SystemCollector_new :: "Host \<Rightarrow> SystemCollector" where
  "SystemCollector_new h =
     \<lparr>sc_disks = h_disks h, sc_components = h_sensors h, sc_sequence = 0,
      sc_last_network_refresh = h_now h, sc_last_disk_refresh = h_now h,
      sc_last_temperature_refresh = h_now h\<rparr>"

section \<open>Readings\<close>

definition refresh_due :: "nat \<Rightarrow> nat \<Rightarrow> nat \<Rightarrow> bool" where
  "refresh_due last_refresh interval now \<longleftrightarrow> interval \<le> now - last_refresh"

definition readable_cpu_percent :: "nat \<Rightarrow> fl \<Rightarrow> fl option" where
  "readable_cpu_percent cpu_count usage =
     (if cpu_count = 0 then None else if is_finite usage then Some usage else None)"

definition readable_totals :: "nat \<Rightarrow> u64 \<Rightarrow> u64 \<Rightarrow> (u64 \<times> u64) option" where
  "readable_totals interfaces received sent = (if 0 < interfaces then Some (received, sent) else None)"

definition readable_memory_total :: "u64 \<Rightarrow> u64 option" where
  "readable_memory_total tot = (if 0 < tot then Some tot else None)"

definition disk_metric :: "string \<Rightarrow> u64 \<Rightarrow> u64 \<Rightarrow> DiskMetric option" where
  "disk_metric mount tot available =
     (if 0 < tot then
        Some \<lparr>dm_mount = mount, dm_total_bytes = tot, dm_used_bytes = u64_saturating_sub tot available\<rparr>
      else None)"

text \<open>\<open>checked_div\<close> by zero gives none, hence zero; the quotient is capped at \<open>u64::MAX\<close>.\<close>

definition rate_per_second :: "u64 \<Rightarrow> nat \<Rightarrow> u64" where
  "rate_per_second bytes elapsed_nanos =
     (let product = u128_saturating_mul (unat bytes) 1000000000;
          rate = (if elapsed_nanos = 0 then 0 else product div elapsed_nanos)
      in if rate \<le> u64_max then of_nat rate else of_nat u64_max)"

definition network_metric :: "(u64 \<times> u64) option \<Rightarrow> nat \<Rightarrow> NetworkMetric option" where
  "network_metric totals elapsed =
     (case totals of
        None \<Rightarrow> None
      | Some (received, sent) \<Rightarrow>
          if elapsed = 0 then None
          else Some \<lparr>nm_received_bytes_per_second = rate_per_second received elapsed,
                     nm_sent_bytes_per_second = rate_per_second sent elapsed\<rparr>)"

definition finite_reading :: "fl option \<Rightarrow> fl option" where
  "finite_reading value = Option.bind value (\<lambda>v. if is_finite v then Some v else None)"

definition readable_sensors :: "sensor_entry list \<Rightarrow> (string \<times> fl \<times> fl option) list" where
  "readable_sensors sensors =
     List.map_filter (\<lambda>(label, celsius, critical).
       map_option (\<lambda>c. (label, c, finite_reading critical)) (finite_reading celsius)) sensors"

definition hottest_temperature :: "sensor_entry list \<Rightarrow> TemperatureMetric option" where
  "hottest_temperature sensors =
     (let readable = readable_sensors sensors;
          sensor_count =
            (if length readable \<le> u32_max then of_nat (length readable) else of_nat u32_max)
      in map_option (\<lambda>(label, celsius, critical).
           \<lparr>tm_label = label, tm_celsius = celsius, tm_critical_celsius = critical,
            tm_sensor_count = sensor_count\<rparr>)
           (max_by (\<lambda>(_, left, _) (_, right, _). total_gt left right) readable))"

definition capability :: "string \<Rightarrow> bool \<Rightarrow> string \<Rightarrow> MetricCapability" where
  "capability name supported detail =
     \<lparr>cap_name = name, cap_state = (if supported then Supported else Unsupported),
      cap_detail = (if \<not> supported \<and> detail \<noteq> [] then Some detail else None)\<rparr>"

definition unavailable :: "string \<Rightarrow> string \<Rightarrow> CollectorError" where
  "unavailable source message =
     \<lparr>ce_source = source, ce_kind = Unsupported, ce_message = message\<rparr>"

section \<open>Capabilities and samples\<close>

definition capabilities_from :: "bool \<Rightarrow> bool \<Rightarrow> nat \<Rightarrow> nat \<Rightarrow> bool \<Rightarrow> MetricCapability list" where
  "capabilities_from cpu memory disks interfaces temperature =
     [capability ''cpu'' cpu ''no CPU is readable'',
      capability ''memory'' memory ''total memory is not readable'',
      capability ''swap'' True '''',
      capability ''disk'' (0 < disks) ''no filesystem is enumerable'',
      capability ''network'' (0 < interfaces) ''no network interface is enumerable'',
      capability ''temperature'' temperature ''no temperature sensor is readable on this host'']"

definition capabilities :: "SystemCollector \<Rightarrow> Host \<Rightarrow> MetricCapability list" where
  "capabilities sc h =
     capabilities_from
       (readable_cpu_percent (h_cpu_count h) (h_global_cpu_usage h) \<noteq> None)
       (readable_memory_total (h_total_memory h) \<noteq> None)
       (length (sc_disks sc)) (length (h_interfaces h))
       (hottest_temperature (sc_components sc) \<noteq> None)"

definition sum_interfaces :: "(u64 \<times> u64) list \<Rightarrow> nat \<times> u64 \<times> u64" where
  "sum_interfaces interfaces =
     foldl (\<lambda>(n, received, sent) (rx, tx).
       (n + 1, u64_saturating_add received rx, u64_saturating_add sent tx)) (0, 0, 0) interfaces"

definition report_if :: "bool \<Rightarrow> CollectorError \<Rightarrow> CollectorError list" where
  "report_if missing err = (if missing then [err] else [])"

definition refresh :: "SystemCollector \<Rightarrow> Host \<Rightarrow> SystemCollector" where
  "refresh sc h =
     (let disk_due = refresh_due (sc_last_disk_refresh sc) DISK_REFRESH_INTERVAL (h_now h);
          temp_due =
            refresh_due (sc_last_temperature_refresh sc) TEMPERATURE_REFRESH_INTERVAL (h_now h)
      in \<lparr>sc_disks = (if disk_due then h_disks h else sc_disks sc),
          sc_components = (if temp_due then h_sensors h else sc_components sc),
          sc_sequence = u64_saturating_add (sc_sequence sc) 1,
          sc_last_network_refresh = h_network_after h,
          sc_last_disk_refresh = (if disk_due then h_now h else sc_last_disk_refresh sc),
          sc_last_temperature_refresh =
            (if temp_due then h_now h else sc_last_temperature_refresh sc)\<rparr>)"

definition sample :: "SystemCollector \<Rightarrow> Host \<Rightarrow> SystemCollector \<times> MetricSample" where
  "sample sc h =
     (let sc' = refresh sc h;
          elapsed = h_network_now h - sc_last_network_refresh sc;
          cpu_percent = readable_cpu_percent (h_cpu_count h) (h_global_cpu_usage h);
          memory_total = readable_memory_total (h_total_memory h);
          memory_used = map_option (\<lambda>_. h_used_memory h) memory_total;
          disks =
            List.map_filter (\<lambda>(mount, tot, available). disk_metric mount tot available) (sc_disks sc');
          (interface_count, received, sent) = sum_interfaces (h_interfaces h);
          errors =
            report_if (cpu_percent = None) (unavailable ''cpu'' ''no CPU usage is readable on this host'') @
            report_if (memory_total = None) (unavailable ''memory'' ''total memory is not readable'') @
            report_if (disks = []) (unavailable ''disk'' ''no filesystem could be enumerated'') @
            report_if (interface_count = 0)
              (unavailable ''network'' ''no network interface could be enumerated'')
      in (sc',
          \<lparr>ms_timestamp_ms = h_utc_ms h,
           ms_sequence = sc_sequence sc',
           ms_cpu_percent = cpu_percent,
           ms_memory_used_bytes = memory_used,
           ms_memory_total_bytes = memory_total,
           ms_swap_used_bytes = Some (h_used_swap h),
           ms_swap_total_bytes = Some (h_total_swap h),
           ms_disks = disks,
           ms_network = network_metric (readable_totals interface_count received sent) elapsed,
           ms_temperature = hottest_temperature (sc_components sc'),
           ms_uptime_seconds = h_uptime h,
           ms_errors = errors\<rparr>))"

section \<open>Lemmas\<close>

interpretation sensor_cmp: cmp_order "\<lambda>_. True"
  "\<lambda>(_ :: string, left, _ :: fl option) (_ :: string, right, _ :: fl option). total_gt left right"
  by unfold_locales (auto simp: total_gt_def)

lemma set_map_filter: "set (List.map_filter f xs) = {y. \<exists>x \<in> set xs. f x = Some y}"
  by (induction xs) (auto simp: List.map_filter_simps split: option.splits)

lemma sum_interfaces_from:
  "foldl (\<lambda>(n, received, sent) (rx, tx).
      (n + 1, u64_saturating_add received rx, u64_saturating_add sent tx)) (n, r, s) xs =
    (n + length xs, of_nat (min u64_max (unat r + sum_list (map (unat \<circ> fst) xs))),
     of_nat (min u64_max (unat s + sum_list (map (unat \<circ> snd) xs))))"
proof (induction xs arbitrary: n r s)
  case Nil
  have "unat r \<le> u64_max" "unat s \<le> u64_max"
    using unat_u64_bound [of r] unat_u64_bound [of s] by (simp_all add: u64_max_def)
  then show ?case by (simp add: min.absorb2)
next
  case (Cons x xs)
  have "min u64_max (min u64_max (a + b) + c) = min u64_max (a + (b + c))" for a b c by simp
  with Cons show ?case by (cases x) simp
qed

text \<open>The traffic totals do not depend on the order in which the interfaces are enumerated.\<close>

lemma sum_interfaces_eq:
  "sum_interfaces xs =
    (length xs, of_nat (min u64_max (sum_list (map (unat \<circ> fst) xs))),
     of_nat (min u64_max (sum_list (map (unat \<circ> snd) xs))))"
  unfolding sum_interfaces_def sum_interfaces_from by simp

lemma rate_per_second_exact:
  assumes "0 < e"
  shows "unat (rate_per_second b e) = min u64_max (unat b * 1000000000 div e)"
  using assms u128_saturating_mul_small [of 1000000000 b]
  by (auto simp: rate_per_second_def Let_def u64_max_def unat_of_nat min_def)

lemma finite_reading_Some: "finite_reading x = Some v \<longleftrightarrow> x = Some v \<and> is_finite v"
  by (auto simp: finite_reading_def Option.bind_eq_Some_conv split: if_splits)

lemma is_finite_not_NaN: "is_finite x \<Longrightarrow> x \<noteq> NaN"
  by auto

lemma hottest_temperature_maximal:
  assumes "hottest_temperature sensors = Some t"
    and "(label, Some c, crit) \<in> set sensors" and "is_finite c"
  shows "fl_le c (tm_celsius t)"
proof -
  let ?gt = "\<lambda>(_ :: string, left, _ :: fl option) (_ :: string, right, _ :: fl option). total_gt left right"
  from assms(1) obtain l v k where m: "max_by ?gt (readable_sensors sensors) = Some (l, v, k)"
    and t: "tm_celsius t = v" by (auto simp: hottest_temperature_def Let_def)
  have "(label, c, finite_reading crit) \<in> set (readable_sensors sensors)"
    using assms(2,3) by (force simp: readable_sensors_def set_map_filter finite_reading_def)
  then have "\<not> total_gt c v"
    using sensor_cmp.max_by_maximal [OF _ m] by (fastforce simp: list_all_iff)
  moreover have "is_finite v"
    using max_by_in_set [OF m] by (auto simp: readable_sensors_def set_map_filter finite_reading_Some)
  ultimately show ?thesis
    using assms(3) t by (auto dest: is_finite_not_NaN intro!: total_gt_le)
qed

section \<open>Properties\<close>

lemma reported_if: "(\<exists>e \<in> set (report_if missing err). ce_source e = src) \<longleftrightarrow> missing \<and> ce_source err = src"
  by (cases missing) (simp_all add: report_if_def)


definition witness_host :: Host where
  "witness_host =
     \<lparr>h_cpu_count = 4, h_global_cpu_usage = Fin 12, h_total_memory = 100, h_used_memory = 40,
      h_total_swap = 0, h_used_swap = 0, h_disks = [(''/'', 10, 4), (''/proc'', 0, 0)],
      h_sensors = [(''a'', Some (Fin 40), None), (''b'', Some NaN, None), (''c'', Some (Fin 55), None)],
      h_interfaces = [(100, 20), (300, 5)], h_uptime = 7, h_utc_ms = 1000,
      h_now = 5, h_network_now = 2000000005, h_network_after = 2000000006\<rparr>"


end
