(* ===== verification/Sampling.thy ===== *)
theory Sampling
  imports Alert Collector Server
begin

text \<open>
  The sampler of an agent (\<open>apps/agent/src/runtime/sampling.rs\<close>): one tick takes a sample, evaluates the alert
  rules, projects the published health, publishes the sample and its trend point, and hands every fifth sample's
  batch to the store; every three hundredth tick prunes the store. The loop runs over the events it selects from:
  ticks with the readings of the host and the rules in force, and changes of the shutdown channel.
\<close>

section \<open>Health\<close>

definition degraded_tokens :: "HealthSnapshot \<Rightarrow> string list" where
  "degraded_tokens health =
     map snd (filter fst
       [(hs_collector_degraded health, ''collector_degraded''),
        (hs_storage_degraded health, ''storage_degraded''),
        (hs_remote_listener_degraded health, ''remote_listener_degraded'')])"

definition project_health :: "HealthSnapshot \<Rightarrow> NodeState option \<Rightarrow> string list \<Rightarrow> HealthSnapshot" where
  "project_health health severity alert_details =
     health\<lparr>hs_details := degraded_tokens health @ alert_details,
            hs_state :=
              (if hs_collector_degraded health \<or> hs_storage_degraded health \<or> hs_remote_listener_degraded health
               then Degraded else override severity Healthy)\<rparr>"

definition apply_health ::
  "('f, 'j, 'c) NodeRuntime \<Rightarrow> CollectorError list \<Rightarrow> NodeState option \<Rightarrow> string list \<Rightarrow> ('f, 'j, 'c) NodeRuntime" where
  "apply_health rt errors severity alert_details =
     rt\<lparr>rt_health :=
       project_health ((rt_health rt)\<lparr>hs_collector_degraded := errors \<noteq> []\<rparr>) severity alert_details\<rparr>"

definition set_storage_degraded ::
  "bool \<Rightarrow> NodeState option \<Rightarrow> string list \<Rightarrow> ('f, 'j, 'c) NodeRuntime \<Rightarrow> ('f, 'j, 'c) NodeRuntime" where
  "set_storage_degraded degraded severity alert_details rt =
     rt\<lparr>rt_health := project_health ((rt_health rt)\<lparr>hs_storage_degraded := degraded\<rparr>) severity alert_details\<rparr>"

section \<open>The loop\<close>

record ('f, 'j, 'c) sampler =
  sa_runtime :: "('f, 'j, 'c) NodeRuntime"
  sa_collector :: SystemCollector
  sa_alerts :: AlertEvaluator
  sa_pending :: "MetricSample list"
  sa_prune_counter :: u16

text \<open>What one tick meets: the host, the rules of the watch channel, the database, the anchored clock.\<close>

record tick =
  ti_host :: Host
  ti_rules :: "AlertRule list"
  ti_insert :: sqlite_env
  ti_prune :: sqlite_env
  ti_now :: i64

text \<open>\<open>BATCH\<close> is the five samples after which the buffer is written, \<open>PRUNE_EVERY\<close> the ticks between prunes.\<close>

definition BATCH :: nat where "BATCH = 5"
definition PRUNE_EVERY :: nat where "PRUNE_EVERY = 300"

definition store_pending ::
  "'j codec \<Rightarrow> sqlite_env \<Rightarrow> NodeState option \<Rightarrow> string list \<Rightarrow> ('f, 'j, 'c) sampler \<Rightarrow> ('f, 'j, 'c) sampler" where
  "store_pending codec env severity alert_details st =
     (if length (sa_pending st) < BATCH then st
      else
        case insert_batch env codec (rt_store (sa_runtime st)) (sa_pending st) of
          (Inr _, store) \<Rightarrow>
            let rt = (sa_runtime st)\<lparr>rt_store := store\<rparr>
            in st\<lparr>sa_pending := [],
                  sa_runtime :=
                    (if hs_storage_degraded (rt_health rt)
                     then set_storage_degraded False severity alert_details rt else rt)\<rparr>
        | (Inl _, store) \<Rightarrow>
            st\<lparr>sa_pending := [],
               sa_runtime :=
                 set_storage_degraded True severity alert_details ((sa_runtime st)\<lparr>rt_store := store\<rparr>)\<rparr>)"

definition prune_due ::
  "sqlite_env \<Rightarrow> i64 \<Rightarrow> NodeState option \<Rightarrow> string list \<Rightarrow> ('f, 'j, 'c) sampler \<Rightarrow> ('f, 'j, 'c) sampler" where
  "prune_due env now severity alert_details st =
     (let counter = u16_saturating_add (sa_prune_counter st) 1
      in if unat counter < PRUNE_EVERY then st\<lparr>sa_prune_counter := counter\<rparr>
         else
           case prune env (rt_store (sa_runtime st)) now of
             (Inr _, store) \<Rightarrow>
               st\<lparr>sa_prune_counter := 0, sa_runtime := (sa_runtime st)\<lparr>rt_store := store\<rparr>\<rparr>
           | (Inl _, store) \<Rightarrow>
               st\<lparr>sa_prune_counter := 0,
                  sa_runtime :=
                    set_storage_degraded True severity alert_details ((sa_runtime st)\<lparr>rt_store := store\<rparr>)\<rparr>)"

definition sample_tick :: "'j codec \<Rightarrow> tick \<Rightarrow> ('f, 'j, 'c) sampler \<Rightarrow> ('f, 'j, 'c) sampler" where
  "sample_tick codec t st =
     (let (collector, s) = sample (sa_collector st) (ti_host t);
          (alerts, _) = evaluate (sa_alerts st) s (ti_rules t);
          severity = worst_active_severity alerts;
          alert_details = active_details alerts;
          rt = apply_health (sa_runtime st) (ms_errors s) severity alert_details;
          rt = rt\<lparr>rt_latest := Some s, rt_trend := push (rt_trend rt) (TrendSample_from s)\<rparr>;
          st = st\<lparr>sa_runtime := rt, sa_collector := collector, sa_alerts := alerts,
                  sa_pending := sa_pending st @ [s]\<rparr>
      in prune_due (ti_prune t) (ti_now t) severity alert_details
           (store_pending codec (ti_insert t) severity alert_details st))"

definition flush_pending :: "'j codec \<Rightarrow> sqlite_env \<Rightarrow> ('f, 'j, 'c) sampler \<Rightarrow> ('f, 'j, 'c) sampler" where
  "flush_pending codec env st =
     (if sa_pending st = [] then st
      else
        case insert_batch env codec (rt_store (sa_runtime st)) (sa_pending st) of
          (Inr _, store) \<Rightarrow> st\<lparr>sa_pending := [], sa_runtime := (sa_runtime st)\<lparr>rt_store := store\<rparr>\<rparr>
        | (Inl _, store) \<Rightarrow> st\<lparr>sa_runtime := (sa_runtime st)\<lparr>rt_store := store\<rparr>\<rparr>)"

text \<open>
  \<open>ShutdownChanged stop env\<close>: the shutdown channel changed; \<open>stop\<close> is its value, or that its sender is gone.
  \<open>Cancelled\<close> is the blocking task being cancelled by the teardown of the runtime.
\<close>

datatype sampler_event = Tick tick | ShutdownChanged bool sqlite_env | Cancelled

fun sample_loop :: "'j codec \<Rightarrow> ('f, 'j, 'c) sampler \<Rightarrow> sampler_event list \<Rightarrow> ('f, 'j, 'c) sampler \<times> bool" where
  "sample_loop codec st [] = (st, False)"
| "sample_loop codec st (Tick t # rest) = sample_loop codec (sample_tick codec t st) rest"
| "sample_loop codec st (ShutdownChanged stop env # rest) =
     (if stop then (flush_pending codec env st, True) else sample_loop codec st rest)"
| "sample_loop codec st (Cancelled # rest) = (st, True)"

definition sampler_start :: "('f, 'j, 'c) NodeRuntime \<Rightarrow> SystemCollector \<Rightarrow> ('f, 'j, 'c) sampler" where
  "sampler_start rt collector =
     \<lparr>sa_runtime = rt, sa_collector = collector, sa_alerts = AlertEvaluator_default, sa_pending = [],
      sa_prune_counter = 0\<rparr>"

section \<open>Honest health\<close>

text \<open>The published health is the projection of its own flags and of the evaluator's active alerts.\<close>

definition honest :: "('f, 'j, 'c) sampler \<Rightarrow> bool" where
  "honest st \<longleftrightarrow>
     rt_health (sa_runtime st) =
       project_health (rt_health (sa_runtime st)) (worst_active_severity (sa_alerts st)) (active_details (sa_alerts st))"

lemma project_health_idem [simp]: "project_health (project_health h s d) s d = project_health h s d"
  by (simp add: project_health_def degraded_tokens_def)

lemma store_pending_frame:
  "sa_alerts (store_pending codec env sev det st) = sa_alerts st"
  "sa_collector (store_pending codec env sev det st) = sa_collector st"
  "sa_prune_counter (store_pending codec env sev det st) = sa_prune_counter st"
  "rt_latest (sa_runtime (store_pending codec env sev det st)) = rt_latest (sa_runtime st)"
  "rt_trend (sa_runtime (store_pending codec env sev det st)) = rt_trend (sa_runtime st)"
  by (auto simp: store_pending_def set_storage_degraded_def Let_def split: prod.splits sum.splits)

lemma prune_due_frame:
  "sa_alerts (prune_due env now sev det st) = sa_alerts st"
  "sa_collector (prune_due env now sev det st) = sa_collector st"
  "sa_pending (prune_due env now sev det st) = sa_pending st"
  "rt_latest (sa_runtime (prune_due env now sev det st)) = rt_latest (sa_runtime st)"
  "rt_trend (sa_runtime (prune_due env now sev det st)) = rt_trend (sa_runtime st)"
  by (auto simp: prune_due_def set_storage_degraded_def Let_def split: prod.splits sum.splits)

lemma store_pending_honest:
  assumes "rt_health (sa_runtime st) = project_health (rt_health (sa_runtime st)) sev det"
  shows "rt_health (sa_runtime (store_pending codec env sev det st)) =
    project_health (rt_health (sa_runtime (store_pending codec env sev det st))) sev det"
  using assms by (auto simp: store_pending_def set_storage_degraded_def Let_def split: prod.splits sum.splits)

lemma prune_due_honest:
  assumes "rt_health (sa_runtime st) = project_health (rt_health (sa_runtime st)) sev det"
  shows "rt_health (sa_runtime (prune_due env now sev det st)) =
    project_health (rt_health (sa_runtime (prune_due env now sev det st))) sev det"
  using assms by (auto simp: prune_due_def set_storage_degraded_def Let_def split: prod.splits sum.splits)

text \<open>The samples a loop takes before it stops.\<close>

fun taken :: "SystemCollector \<Rightarrow> sampler_event list \<Rightarrow> MetricSample list" where
  "taken collector [] = []"
| "taken collector (Tick t # rest) =
     snd (sample collector (ti_host t)) # taken (fst (sample collector (ti_host t))) rest"
| "taken collector (ShutdownChanged stop env # rest) = (if stop then [] else taken collector rest)"
| "taken collector (Cancelled # rest) = []"

lemma sample_tick_frame:
  fixes t st
  defines "s \<equiv> snd (sample (sa_collector st) (ti_host t))"
  shows "sa_collector (sample_tick codec t st) = fst (sample (sa_collector st) (ti_host t))"
    and "sa_alerts (sample_tick codec t st) = fst (evaluate (sa_alerts st) s (ti_rules t))"
    and "rt_latest (sa_runtime (sample_tick codec t st)) = Some s"
    and "rt_trend (sa_runtime (sample_tick codec t st)) = push (rt_trend (sa_runtime st)) (TrendSample_from s)"
  by (simp_all add: sample_tick_def s_def apply_health_def prune_due_frame store_pending_frame Let_def case_prod_unfold)

lemma sample_tick_honest: "honest (sample_tick codec t st)"
  unfolding honest_def sample_tick_frame
  unfolding sample_tick_def Let_def case_prod_unfold
  by (intro prune_due_honest store_pending_honest) (simp add: apply_health_def)

lemma store_pending_flag:
  "hs_collector_degraded (rt_health (sa_runtime (store_pending codec env sev det st))) =
     hs_collector_degraded (rt_health (sa_runtime st))"
  by (auto simp: store_pending_def set_storage_degraded_def project_health_def Let_def split: prod.splits sum.splits)

lemma prune_due_flag:
  "hs_collector_degraded (rt_health (sa_runtime (prune_due env now sev det st))) =
     hs_collector_degraded (rt_health (sa_runtime st))"
  by (auto simp: prune_due_def set_storage_degraded_def project_health_def Let_def split: prod.splits sum.splits)

lemma sample_tick_collector_flag:
  "hs_collector_degraded (rt_health (sa_runtime (sample_tick codec t st))) =
     (ms_errors (snd (sample (sa_collector st) (ti_host t))) \<noteq> [])"
  by (simp add: sample_tick_def prune_due_flag store_pending_flag apply_health_def project_health_def
      Let_def case_prod_unfold)

lemma flush_pending_frame:
  "sa_alerts (flush_pending codec env st) = sa_alerts st"
  "rt_health (sa_runtime (flush_pending codec env st)) = rt_health (sa_runtime st)"
  "rt_latest (sa_runtime (flush_pending codec env st)) = rt_latest (sa_runtime st)"
  "rt_trend (sa_runtime (flush_pending codec env st)) = rt_trend (sa_runtime st)"
  by (auto simp: flush_pending_def split: prod.splits sum.splits)

fun under :: "AlertRule list \<Rightarrow> sampler_event \<Rightarrow> bool" where
  "under rules (Tick t) = (ti_rules t = rules)"
| "under rules _ = True"

lemma sample_loop_health:
  assumes "list_all (under rules) events"
    and "sa_alerts st = run_evaluator rules past"
    and "sample_loop codec st events = (st', finished)"
    and "samples = taken (sa_collector st) events"
    and "past \<noteq> [] \<longrightarrow> honest st \<and> rt_latest (sa_runtime st) = Some (last past) \<and>
      hs_collector_degraded (rt_health (sa_runtime st)) = (ms_errors (last past) \<noteq> [])"
  shows "sa_alerts st' = run_evaluator rules (past @ samples) \<and>
    rt_trend (sa_runtime st') = foldl (\<lambda>w s. push w (TrendSample_from s)) (rt_trend (sa_runtime st)) samples \<and>
    (past @ samples \<noteq> [] \<longrightarrow> honest st' \<and> rt_latest (sa_runtime st') = Some (last (past @ samples)) \<and>
      hs_collector_degraded (rt_health (sa_runtime st')) = (ms_errors (last (past @ samples)) \<noteq> []))"
  using assms
proof (induction codec st events arbitrary: past samples rule: sample_loop.induct)
  case (2 codec st t rest)
  let ?s = "snd (sample (sa_collector st) (ti_host t))"
  let ?st = "sample_tick codec t st"
  have rules: "ti_rules t = rules" using "2.prems"(1) by simp
  have alerts: "sa_alerts ?st = run_evaluator rules (past @ [?s])"
    unfolding sample_tick_frame run_evaluator_snoc "2.prems"(2) rules by (rule refl)
  have "sa_alerts st' = run_evaluator rules ((past @ [?s]) @ taken (sa_collector ?st) rest) \<and>
    rt_trend (sa_runtime st') = foldl (\<lambda>w s. push w (TrendSample_from s)) (rt_trend (sa_runtime ?st))
      (taken (sa_collector ?st) rest) \<and>
    ((past @ [?s]) @ taken (sa_collector ?st) rest \<noteq> [] \<longrightarrow> honest st' \<and>
      rt_latest (sa_runtime st') = Some (last ((past @ [?s]) @ taken (sa_collector ?st) rest)) \<and>
      hs_collector_degraded (rt_health (sa_runtime st')) =
        (ms_errors (last ((past @ [?s]) @ taken (sa_collector ?st) rest)) \<noteq> []))"
    using "2.prems"
    by (intro "2.IH" alerts refl) (simp_all add: sample_tick_honest sample_tick_frame sample_tick_collector_flag)
  then show ?case using "2.prems"(4) by (simp add: sample_tick_frame)
next
  case (3 codec st stop env rest)
  show ?case
  proof (cases stop)
    case True
    then have "st' = flush_pending codec env st" "samples = []" using "3.prems"(3,4) by simp_all
    then show ?thesis using "3.prems"(2,5) by (simp add: flush_pending_frame honest_def)
  next
    case False
    then show ?thesis using "3.IH" [OF False, of past samples] "3.prems" by simp
  qed
qed simp_all

section \<open>The state a viewer reads\<close>

text \<open>A rule fires when the latest samples, as many as it asks for, all breached it.\<close>

definition fires :: "MetricSample list \<Rightarrow> AlertRule \<Rightarrow> bool" where
  "fires samples r \<longleftrightarrow> unat (max 1 (ar_consecutive_samples r)) \<le> streak r samples"

lemma run_evaluator_Nil [simp]: "ae_active (run_evaluator rules []) = []"
  by (simp add: run_evaluator_def AlertEvaluator_default_def)

lemma run_active:
  assumes "distinct (map ar_id rules)"
  shows "bt_get (ae_active (run_evaluator rules samples)) rid = Some a \<Longrightarrow>
      \<exists>r \<in> set rules. ar_id r = rid \<and> aa_severity a = ar_severity r \<and> fires samples r"
    and "r \<in> set rules \<Longrightarrow> fires samples r \<Longrightarrow>
      \<exists>a. bt_get (ae_active (run_evaluator rules samples)) (ar_id r) = Some a \<and> aa_severity a = ar_severity r"
proof -
  have sev: "aa_severity a = ar_severity r"
    if "r \<in> set rules" "bt_get (ae_active (run_evaluator rules samples)) (ar_id r) = Some a" for r a
    using that assms
    by (cases samples rule: rev_cases)
      (auto simp: run_evaluator_snoc evaluate_rule_of_set run_evaluator_ok new_active_def)
  have only: "rid \<in> ar_id ` set rules"
    if "bt_get (ae_active (run_evaluator rules samples)) rid = Some a" for rid a
  proof (cases samples rule: rev_cases)
    case (snoc prev s)
    show ?thesis
      using that evaluate_rules_other(2) [of rid rules s "retain_rules rules (run_evaluator rules prev)"]
      by (rule_tac ccontr) (simp add: snoc run_evaluator_snoc evaluate_def retain_rules_lookups run_evaluator_ok)
  qed (use that in simp)
  note active = active_iff_streak [OF assms, of _ samples]
  show "\<exists>r \<in> set rules. ar_id r = rid \<and> aa_severity a = ar_severity r \<and> fires samples r"
    if "bt_get (ae_active (run_evaluator rules samples)) rid = Some a"
    using only [OF that] sev that active by (fastforce simp: fires_def is_active_def)
  show "\<exists>a. bt_get (ae_active (run_evaluator rules samples)) (ar_id r) = Some a \<and> aa_severity a = ar_severity r"
    if "r \<in> set rules" "fires samples r"
    using that sev active [OF that(1)] by (fastforce simp: fires_def is_active_def)
qed

lemma worst_severity_cases:
  assumes "\<forall>a \<in> set (bt_values (ae_active ev)). aa_severity a \<in> {Warning, Critical}"
  shows "worst_active_severity ev =
    (if \<exists>a \<in> set (bt_values (ae_active ev)). aa_severity a = Critical then Some Critical
     else if bt_values (ae_active ev) \<noteq> [] then Some Warning else None)"
proof (cases "worst_active_severity ev")
  case None
  then show ?thesis by (simp add: worst_active_severity_def)
next
  case (Some sev)
  let ?ss = "map aa_severity (bt_values (ae_active ev))"
  have m: "max_by (\<lambda>a b. severity_rank b < severity_rank a) ?ss = Some sev"
    using Some by (simp add: worst_active_severity_def)
  then have "sev \<in> set ?ss" by (rule max_by_in_set)
  moreover have "\<not> severity_rank sev < severity_rank x" if "x \<in> set ?ss" for x
    using severity_cmp.max_by_maximal [OF _ m that] by (simp add: list_all_iff)
  ultimately show ?thesis using assms Some by (force simp: severity_rank_def)
qed

lemma run_worst_severity:
  assumes "distinct (map ar_id rules)" and "\<forall>r \<in> set rules. ar_severity r \<in> {Warning, Critical}"
  shows "worst_active_severity (run_evaluator rules samples) =
    (if \<exists>r \<in> set rules. fires samples r \<and> ar_severity r = Critical then Some Critical
     else if \<exists>r \<in> set rules. fires samples r then Some Warning else None)"
proof -
  let ?ev = "run_evaluator rules samples"
  have ok: "bt_ok (ae_active ?ev)" using run_evaluator_ok [of rules samples] by (simp add: evaluator_ok_def)
  have vals: "a \<in> set (bt_values (ae_active ?ev)) \<longleftrightarrow> (\<exists>rid. bt_get (ae_active ?ev) rid = Some a)" for a
    by (rule set_bt_values [OF ok])
  have "(\<exists>a \<in> set (bt_values (ae_active ?ev)). aa_severity a = Critical) \<longleftrightarrow>
      (\<exists>r \<in> set rules. fires samples r \<and> ar_severity r = Critical)"
    using run_active [OF assms(1), where samples = samples] by (metis vals)
  moreover have "bt_values (ae_active ?ev) \<noteq> [] \<longleftrightarrow> (\<exists>r \<in> set rules. fires samples r)"
  proof -
    have "bt_values (ae_active ?ev) \<noteq> [] \<longleftrightarrow> (\<exists>a. a \<in> set (bt_values (ae_active ?ev)))"
      by (cases "bt_values (ae_active ?ev)") auto
    also have "\<dots> \<longleftrightarrow> (\<exists>r \<in> set rules. fires samples r)"
      using run_active [OF assms(1), where samples = samples] by (metis vals)
    finally show ?thesis .
  qed
  moreover have "\<forall>a \<in> set (bt_values (ae_active ?ev)). aa_severity a \<in> {Warning, Critical}"
    using run_active(1) [OF assms(1), where samples = samples] assms(2) by (metis vals)
  ultimately show ?thesis using worst_severity_cases [of ?ev] by simp
qed

text \<open>
  C17. The published health never flatters. Whatever happened before, after any run of the sampler under one set of
  rules the machine reads \<open>Degraded\<close> when its collector, storage or listener is, otherwise critical or warning
  exactly when a rule of that severity has been breached by the latest samples for as long as it asks, and
  healthy only when none has; the degradation lines lead the alert lines; the collector flag is that of the newest
  sample, which is also the published one, and the trend ends with it.
\<close>

theorem published_health_exact:
  fixes rt collector events
  defines "samples \<equiv> taken collector events"
  assumes "distinct (map ar_id rules)" and "\<forall>r \<in> set rules. ar_severity r \<in> {Warning, Critical}"
    and "list_all (under rules) events" and "samples \<noteq> []"
    and "sample_loop codec (sampler_start rt collector) events = (st', finished)"
    and "h = rt_health (sa_runtime st')"
  shows "hs_state h =
      (if hs_collector_degraded h \<or> hs_storage_degraded h \<or> hs_remote_listener_degraded h then Degraded
       else if \<exists>r \<in> set rules. fires samples r \<and> ar_severity r = Critical then Critical
       else if \<exists>r \<in> set rules. fires samples r then Warning else Healthy) \<and>
    hs_details h = degraded_tokens h @ active_details (run_evaluator rules samples) \<and>
    hs_collector_degraded h = (ms_errors (last samples) \<noteq> []) \<and>
    rt_latest (sa_runtime st') = Some (last samples) \<and>
    rt_trend (sa_runtime st') = foldl (\<lambda>w s. push w (TrendSample_from s)) (rt_trend rt) samples"
proof -
  have "sa_alerts (sampler_start rt collector) = run_evaluator rules []"
    by (simp add: sampler_start_def run_evaluator_def)
  from sample_loop_health [OF assms(4) this assms(6), of samples]
  have run: "sa_alerts st' = run_evaluator rules samples" "honest st'"
    "rt_latest (sa_runtime st') = Some (last samples)" "hs_collector_degraded h = (ms_errors (last samples) \<noteq> [])"
    "rt_trend (sa_runtime st') = foldl (\<lambda>w s. push w (TrendSample_from s)) (rt_trend rt) samples"
    using assms(5,7) by (simp_all add: samples_def sampler_start_def)
  have eq: "h = project_health h (worst_active_severity (run_evaluator rules samples))
      (active_details (run_evaluator rules samples))"
    using run(1,2) assms(7) by (simp add: honest_def)
  have "hs_details h = degraded_tokens h @ active_details (run_evaluator rules samples)"
    by (subst eq) (simp add: project_health_def)
  moreover have "hs_state h =
      (if hs_collector_degraded h \<or> hs_storage_degraded h \<or> hs_remote_listener_degraded h then Degraded
       else override (worst_active_severity (run_evaluator rules samples)) Healthy)"
    by (subst eq) (simp add: project_health_def)
  ultimately show ?thesis
    unfolding run_worst_severity [OF assms(2,3)] using run(3-5) by (auto simp: override_def)
qed

section \<open>What reaches the store\<close>

lemma accept_append: "accept hist (xs @ ys) = accept (accept hist xs) ys"
  by (induction xs arbitrary: hist) simp_all

lemma insert_batch_cases:
  assumes "represents codec st hist"
  obtains (stored) st' where "insert_batch env codec st ss = (Inr (), st')" "represents codec st' (accept hist ss)"
  | (refused) e where "insert_batch env codec st ss = (Inl e, st)"
proof (cases "fails env 0")
  case False
  show thesis
  proof (cases "insert_samples env codec 1 st ss")
    case (Inl e)
    then show thesis using False by (intro refused) (simp add: insert_batch_def)
  next
    case (Inr p)
    then show thesis
      using False stored refused insert_samples_refines [OF assms, of env 1 ss]
      by (cases p; cases "fails env (fst p)") (auto simp: insert_batch_def)
  qed
qed (use refused in \<open>simp add: insert_batch_def\<close>)

lemma insert_batch_quiet:
  assumes "\<forall>n. \<not> fails env n" and "\<forall>s. to_json codec s \<noteq> None"
  shows "insert_batch env codec st ss \<noteq> (Inl e, st')"
  using assms insert_samples_succeeds [of ss codec env 1 st] by (auto simp: insert_batch_def)

text \<open>One tick that does not prune either only buffers its sample or hands the full buffer to the store.\<close>

lemma sample_tick_store:
  fixes codec t st
  defines "p \<equiv> sa_pending st @ [snd (sample (sa_collector st) (ti_host t))]"
  assumes "unat (sa_prune_counter st) + 1 < PRUNE_EVERY"
  shows "sa_pending (sample_tick codec t st) = (if length p < BATCH then p else [])"
    and "rt_store (sa_runtime (sample_tick codec t st)) =
      (if length p < BATCH then rt_store (sa_runtime st)
       else snd (insert_batch (ti_insert t) codec (rt_store (sa_runtime st)) p))"
    and "unat (sa_prune_counter (sample_tick codec t st)) = unat (sa_prune_counter st) + 1"
proof -
  have count: "unat (u16_saturating_add (sa_prune_counter st) 1) = unat (sa_prune_counter st) + 1"
    using assms(2) by (simp add: PRUNE_EVERY_def)
  have skip: "prune_due env now sev det x = x\<lparr>sa_prune_counter := u16_saturating_add (sa_prune_counter st) 1\<rparr>"
    if "sa_prune_counter x = sa_prune_counter st" for env now sev det and x :: "('f, 'j, 'c) sampler"
    using that assms(2) count by (simp add: prune_due_def)
  note tick = sample_tick_def apply_health_def Let_def case_prod_unfold p_def [symmetric] skip store_pending_frame
  show "sa_pending (sample_tick codec t st) = (if length p < BATCH then p else [])"
    by (simp add: tick) (auto simp: store_pending_def Let_def split: prod.splits sum.splits)
  show "rt_store (sa_runtime (sample_tick codec t st)) =
      (if length p < BATCH then rt_store (sa_runtime st)
       else snd (insert_batch (ti_insert t) codec (rt_store (sa_runtime st)) p))"
    by (simp add: tick)
      (auto simp: store_pending_def set_storage_degraded_def Let_def split: prod.splits sum.splits)
  show "unat (sa_prune_counter (sample_tick codec t st)) = unat (sa_prune_counter st) + 1"
    using count by (simp add: tick del: unat_u16_saturating_add)
qed

fun quiet :: "sampler_event \<Rightarrow> bool" where
  "quiet (Tick t) = (\<forall>n. \<not> fails (ti_insert t) n)"
| "quiet (ShutdownChanged _ env) = (\<forall>n. \<not> fails env n)"
| "quiet Cancelled = False"

text \<open>
  The batches a run handed to the store, each with whether it was stored: together with the buffer they are the
  samples taken, and the store holds what it held and the stored ones.
\<close>

definition accounted ::
  "'j codec \<Rightarrow> MetricSample list \<Rightarrow> MetricSample list \<Rightarrow> (MetricSample list \<times> bool) list \<Rightarrow> ('f, 'j, 'c) sampler \<Rightarrow> bool" where
  "accounted codec hist samples batches st \<longleftrightarrow>
     concat (map fst batches) @ sa_pending st = samples \<and>
     represents codec (rt_store (sa_runtime st)) (accept hist (concat (map fst (filter snd batches)))) \<and>
     (\<forall>(b, _) \<in> set batches. length b \<le> BATCH)"

lemma accounted_batch:
  assumes "accounted codec hist samples batches st" and "length p \<le> BATCH" and "p = sa_pending st @ new"
    and "sa_pending st' = []" and "rt_store (sa_runtime st') = snd (insert_batch env codec (rt_store (sa_runtime st)) p)"
  shows "\<exists>ok. accounted codec hist (samples @ new) (batches @ [(p, ok)]) st' \<and>
    ((\<forall>n. \<not> fails env n) \<and> (\<forall>s. to_json codec s \<noteq> None) \<longrightarrow> ok)"
proof -
  have rep: "represents codec (rt_store (sa_runtime st)) (accept hist (concat (map fst (filter snd batches))))"
    using assms(1) by (simp add: accounted_def)
  show ?thesis
  proof (rule insert_batch_cases [OF rep, of env p])
    fix store'
    assume "insert_batch env codec (rt_store (sa_runtime st)) p = (Inr (), store')"
      "represents codec store' (accept (accept hist (concat (map fst (filter snd batches)))) p)"
    then have "accounted codec hist (samples @ new) (batches @ [(p, True)]) st'"
      using assms by (auto simp: accounted_def accept_append)
    then show ?thesis by blast
  next
    fix e
    assume refused: "insert_batch env codec (rt_store (sa_runtime st)) p = (Inl e, rt_store (sa_runtime st))"
    then have "accounted codec hist (samples @ new) (batches @ [(p, False)]) st'"
      using assms by (auto simp: accounted_def)
    moreover have "\<not> ((\<forall>n. \<not> fails env n) \<and> (\<forall>s. to_json codec s \<noteq> None))"
      using insert_batch_quiet [of env codec "rt_store (sa_runtime st)" p e] refused by blast
    ultimately show ?thesis by blast
  qed
qed

lemma flush_accounted:
  assumes "accounted codec hist samples batches st" and "length (sa_pending st) < BATCH"
  shows "\<exists>new. accounted codec hist samples (batches @ new) (flush_pending codec env st) \<and>
    length (sa_pending (flush_pending codec env st)) < BATCH \<and>
    ((\<forall>n. \<not> fails env n) \<and> (\<forall>s. to_json codec s \<noteq> None) \<longrightarrow>
       list_all snd new \<and> sa_pending (flush_pending codec env st) = [])"
proof (cases "sa_pending st = []")
  case True
  then show ?thesis using assms by (intro exI [of _ "[]"]) (simp add: flush_pending_def)
next
  case pending: False
  have rep: "represents codec (rt_store (sa_runtime st)) (accept hist (concat (map fst (filter snd batches))))"
    using assms(1) by (simp add: accounted_def)
  show ?thesis
  proof (rule insert_batch_cases [OF rep, of env "sa_pending st"])
    fix store'
    assume "insert_batch env codec (rt_store (sa_runtime st)) (sa_pending st) = (Inr (), store')"
      "represents codec store' (accept (accept hist (concat (map fst (filter snd batches)))) (sa_pending st))"
    then show ?thesis
      using assms pending
      by (intro exI [of _ "[(sa_pending st, True)]"])
        (auto simp: accounted_def flush_pending_def accept_append BATCH_def)
  next
    fix e
    assume refused: "insert_batch env codec (rt_store (sa_runtime st)) (sa_pending st) = (Inl e, rt_store (sa_runtime st))"
    then have "\<not> ((\<forall>n. \<not> fails env n) \<and> (\<forall>s. to_json codec s \<noteq> None))"
      using insert_batch_quiet [of env codec "rt_store (sa_runtime st)" "sa_pending st" e] by blast
    then show ?thesis
      using assms refused by (intro exI [of _ "[]"]) (auto simp: flush_pending_def accounted_def)
  qed
qed

lemma tick_accounted:
  assumes acc: "accounted codec hist before batches st" and pending: "length (sa_pending st) < BATCH"
    and room: "unat (sa_prune_counter st) + 1 < PRUNE_EVERY"
    and s_def: "s = snd (sample (sa_collector st) (ti_host t))"
  shows "\<exists>mid. accounted codec hist (before @ [s]) (batches @ mid) (sample_tick codec t st) \<and>
    (quiet (Tick t) \<and> (\<forall>s. to_json codec s \<noteq> None) \<longrightarrow> list_all snd mid)"
proof (cases "length (sa_pending st @ [s]) < BATCH")
  case True
  then have "accounted codec hist (before @ [s]) batches (sample_tick codec t st)"
    using acc sample_tick_store [OF room, of codec t] by (auto simp: accounted_def s_def)
  then show ?thesis by (intro exI [of _ "[]"]) simp
next
  case False
  then have "length (sa_pending st @ [s]) \<le> BATCH" using pending by simp
  from accounted_batch [OF acc this refl, of "sample_tick codec t st" "ti_insert t"] obtain ok where
    "accounted codec hist (before @ [s]) (batches @ [(sa_pending st @ [s], ok)]) (sample_tick codec t st)"
    "(\<forall>n. \<not> fails (ti_insert t) n) \<and> (\<forall>s. to_json codec s \<noteq> None) \<longrightarrow> ok"
    using sample_tick_store [OF room, of codec t] False by (auto simp: s_def)
  then show ?thesis by (intro exI [of _ "[(sa_pending st @ [s], ok)]"]) simp
qed

lemma sample_loop_accounted:
  assumes "accounted codec hist before batches st" and "length (sa_pending st) < BATCH"
    and "unat (sa_prune_counter st) + length (taken (sa_collector st) events) < PRUNE_EVERY"
    and "sample_loop codec st events = (st', finished)"
  shows "\<exists>new. accounted codec hist (before @ taken (sa_collector st) events) (batches @ new) st' \<and>
    length (sa_pending st') < BATCH \<and>
    (list_all quiet events \<and> (\<forall>s. to_json codec s \<noteq> None) \<longrightarrow>
       list_all snd new \<and> (finished \<longrightarrow> sa_pending st' = []))"
  using assms
proof (induction codec st events arbitrary: before batches rule: sample_loop.induct)
  case (1 codec st)
  then show ?case by (intro exI [of _ "[]"]) simp
next
  case (2 codec st t rest)
  let ?s = "snd (sample (sa_collector st) (ti_host t))"
  let ?st = "sample_tick codec t st"
  have room: "unat (sa_prune_counter st) + 1 < PRUNE_EVERY" using "2.prems"(3) by simp
  note tick = sample_tick_store [OF room, of codec t]
  obtain mid where mid: "accounted codec hist (before @ [?s]) (batches @ mid) ?st"
    "quiet (Tick t) \<and> (\<forall>s. to_json codec s \<noteq> None) \<longrightarrow> list_all snd mid"
    using tick_accounted [OF "2.prems"(1,2) room refl, of t] by blast
  have "length (sa_pending ?st) < BATCH" using tick(1) by (simp add: BATCH_def)
  moreover have "unat (sa_prune_counter ?st) + length (taken (sa_collector ?st) rest) < PRUNE_EVERY"
    using "2.prems"(3) tick(3) by (simp add: sample_tick_frame)
  moreover have "sample_loop codec ?st rest = (st', finished)" using "2.prems"(4) by simp
  ultimately obtain new where "accounted codec hist ((before @ [?s]) @ taken (sa_collector ?st) rest)
      ((batches @ mid) @ new) st'" "length (sa_pending st') < BATCH"
      "list_all quiet rest \<and> (\<forall>s. to_json codec s \<noteq> None) \<longrightarrow>
         list_all snd new \<and> (finished \<longrightarrow> sa_pending st' = [])"
    using "2.IH" [OF mid(1)] by blast
  then show ?case using mid(2) by (intro exI [of _ "mid @ new"]) (simp add: sample_tick_frame)
next
  case (3 codec st stop env rest)
  show ?case
  proof (cases stop)
    case False
    then show ?thesis using "3.IH" [OF False "3.prems"(1,2)] "3.prems"(3,4) by auto
  next
    case True
    then have end_state: "st' = flush_pending codec env st" "finished" using "3.prems"(4) by auto
    then show ?thesis using flush_accounted [OF "3.prems"(1,2), of env] True by simp blast
  qed
next
  case (4 codec st rest)
  then show ?case by (intro exI [of _ "[]"]) auto
qed

text \<open>
  C16. The sampler loses nothing it does not report. Until the first pruning, every sample taken is, in order and
  once, either in a batch of at most five handed to the store or still in the buffer, which never reaches five; the
  store holds exactly what it held plus the batches that were stored; and when no statement fails and the loop is
  told to stop, every sample is in the store.
\<close>

theorem sampler_loses_nothing:
  fixes rt collector events
  defines "samples \<equiv> taken collector events"
  assumes "represents codec (rt_store rt) hist" and "length samples < PRUNE_EVERY"
    and "sample_loop codec (sampler_start rt collector) events = (st', finished)"
  shows "(\<exists>batches. concat (map fst batches) @ sa_pending st' = samples \<and>
      represents codec (rt_store (sa_runtime st')) (accept hist (concat (map fst (filter snd batches)))) \<and>
      (\<forall>(b, _) \<in> set batches. length b \<le> BATCH)) \<and>
    length (sa_pending st') < BATCH \<and>
    (list_all quiet events \<and> (\<forall>s. to_json codec s \<noteq> None) \<and> finished \<longrightarrow>
       represents codec (rt_store (sa_runtime st')) (accept hist samples))"
proof -
  have "accounted codec hist [] [] (sampler_start rt collector)"
    using assms(2) by (simp add: accounted_def sampler_start_def)
  then obtain new where run: "accounted codec hist samples new st'" "length (sa_pending st') < BATCH"
    "list_all quiet events \<and> (\<forall>s. to_json codec s \<noteq> None) \<longrightarrow>
       list_all snd new \<and> (finished \<longrightarrow> sa_pending st' = [])"
    using sample_loop_accounted [of codec hist "[]" "[]" "sampler_start rt collector" events st' finished] assms(3,4)
    by (auto simp: samples_def sampler_start_def BATCH_def)
  moreover have "represents codec (rt_store (sa_runtime st')) (accept hist samples)"
    if "list_all quiet events" "\<forall>s. to_json codec s \<noteq> None" finished
  proof -
    have "filter snd new = new" using run(3) that by (auto simp: list_all_iff filter_id_conv)
    then show ?thesis using run that by (auto simp: accounted_def)
  qed
  ultimately show ?thesis unfolding accounted_def by blast
qed

definition witness_tick :: "i64 \<Rightarrow> tick" where
  "witness_tick now =
     \<lparr>ti_host = witness_host\<lparr>h_utc_ms := now\<rparr>, ti_rules = default_alert_rules, ti_insert = calm_env,
      ti_prune = calm_env, ti_now = now\<rparr>"

definition witness_events :: "sampler_event list" where
  "witness_events = [Tick (witness_tick 1000), Tick (witness_tick 3000), ShutdownChanged True calm_env]"

theorem sampler_loses_nothing_witness:
  "represents identity_codec
     (rt_store (sa_runtime (fst (sample_loop identity_codec
        (sampler_start witness_rt (SystemCollector_new witness_host)) witness_events))))
     (accept [] (taken (SystemCollector_new witness_host) witness_events)) \<and>
   length (taken (SystemCollector_new witness_host) witness_events) = 2"
proof -
  let ?c = "SystemCollector_new witness_host"
  have two: "length (taken ?c witness_events) = 2" by (simp add: witness_events_def)
  have store: "represents identity_codec (rt_store witness_rt) []"
    by (simp add: witness_rt_def represents_new)
  have "snd (sample_loop identity_codec (sampler_start witness_rt ?c) witness_events)"
    by (simp add: witness_events_def)
  moreover have "list_all quiet witness_events" "\<forall>s. to_json identity_codec s \<noteq> None"
    by (simp_all add: witness_events_def witness_tick_def calm_env_def identity_codec_def)
  ultimately show ?thesis
    using sampler_loses_nothing [OF store, of ?c witness_events, OF _ surjective_pairing] two
    by (simp add: PRUNE_EVERY_def)
qed

theorem published_health_exact_witness:
  "hs_state (rt_health (sa_runtime (fst (sample_loop identity_codec
     (sampler_start witness_rt (SystemCollector_new witness_host)) witness_events)))) \<noteq> Critical"
proof -
  let ?c = "SystemCollector_new witness_host"
  let ?samples = "taken ?c witness_events"
  have rules: "distinct (map ar_id default_alert_rules)"
    "\<forall>r \<in> set default_alert_rules. ar_severity r \<in> {Warning, Critical}"
    by (simp_all add: default_alert_rules_def rule_def)
  have under: "list_all (under default_alert_rules) witness_events" "?samples \<noteq> []"
    by (simp_all add: witness_events_def witness_tick_def)
  have short: "\<not> fires ?samples r" if "r \<in> set default_alert_rules" for r
  proof -
    have "streak r ?samples \<le> length ?samples"
      unfolding streak_def using length_takeWhile_le [of "sample_matches r" "rev ?samples"] by simp
    moreover have "length ?samples = 2" by (simp add: witness_events_def)
    moreover have "3 \<le> unat (max 1 (ar_consecutive_samples r))"
      using that by (auto simp: default_alert_rules_def rule_def SAMPLES_PER_MINUTE_def)
    ultimately show ?thesis by (simp add: fires_def)
  qed
  show ?thesis
    using published_health_exact [OF rules under surjective_pairing refl, of identity_codec witness_rt] short by auto
qed

end
