(* ===== verification/Identity.thy ===== *)
theory Identity
  imports Durable
begin

text \<open>
  The key file of a device (\<open>crates/rackio-iroh/src/identity.rs\<close>): read it, or create it beside its
  destination and publish it without replacing a key that another process published first.
\<close>

datatype IdentityError = IdentityIo | InvalidLength nat

type_synonym secret_key = bytes

definition read_secret_key :: "bytes read_outcome \<Rightarrow> (IdentityError, secret_key option) result" where
  "read_secret_key outcome =
     (case outcome of
        FileContent key \<Rightarrow> if length key = 32 then Inr (Some key) else Inl (InvalidLength (length key))
      | FileMissing \<Rightarrow> Inr None
      | FileUnreadable \<Rightarrow> Inl IdentityIo)"

text \<open>
  \<open>create_secret_key\<close>: \<open>io n\<close> says whether the n-th step fails (create the directory, narrow it when it was
  created here, temporary file, permissions, write, sync, publish), \<open>found\<close> is the destination when the key
  is published. A refused publish is settled by what is there.
\<close>

definition create_secret_key ::
  "(nat \<Rightarrow> bool) \<Rightarrow> bool \<Rightarrow> secret_key \<Rightarrow> bytes read_outcome \<Rightarrow>
   (IdentityError, secret_key) result \<times> bytes read_outcome" where
  "create_secret_key io parent_already_existed secret found =
     (if io 0 \<or> \<not> parent_already_existed \<and> io 1 \<or> io 2 \<or> io 3 \<or> io 4 \<or> io 5 then (Inl IdentityIo, found)
      else if found = FileMissing \<and> \<not> io 6 then (Inr secret, FileContent secret)
      else
        (case read_secret_key found of
           Inl e \<Rightarrow> Inl e
         | Inr (Some existing) \<Rightarrow> Inr existing
         | Inr None \<Rightarrow> Inl IdentityIo, found))"

text \<open>\<open>at_start\<close> is the file when the daemon looks first, \<open>found\<close> when it publishes.\<close>

definition load_or_create_secret_key ::
  "(nat \<Rightarrow> bool) \<Rightarrow> bool \<Rightarrow> secret_key \<Rightarrow> bytes read_outcome \<Rightarrow> bytes read_outcome \<Rightarrow>
   (IdentityError, secret_key) result \<times> bytes read_outcome" where
  "load_or_create_secret_key io parent_already_existed secret at_start found =
     (case read_secret_key at_start of
        Inl e \<Rightarrow> (Inl e, found)
      | Inr (Some key) \<Rightarrow> (Inr key, found)
      | Inr None \<Rightarrow> create_secret_key io parent_already_existed secret found)"

section \<open>Racing starts\<close>

text \<open>
  Any number of processes that all saw no key, in the order in which they publish, each with its own failures and
  its own fresh key; the outcomes and the file at the end.
\<close>

record starter =
  st_io :: "nat \<Rightarrow> bool"
  st_parent :: bool
  st_key :: secret_key

fun race ::
  "bytes read_outcome \<Rightarrow> starter list \<Rightarrow> (IdentityError, secret_key) result list \<times> bytes read_outcome" where
  "race found [] = ([], found)"
| "race found (p # ps) =
     (let (res, found') = load_or_create_secret_key (st_io p) (st_parent p) (st_key p) FileMissing found;
          (rest, final) = race found' ps
      in (res # rest, final))"

lemma create_settled:
  assumes "found = FileContent key" and "length key = 32"
  shows "\<exists>res. create_secret_key io parent secret found = (res, found) \<and> (\<forall>k. res = Inr k \<longrightarrow> k = key)"
  using assms by (auto simp: create_secret_key_def read_secret_key_def)

lemma race_settled:
  assumes "length key = 32"
  shows "snd (race (FileContent key) ps) = FileContent key \<and>
    (\<forall>k. Inr k \<in> set (fst (race (FileContent key) ps)) \<longrightarrow> k = key)"
proof (induction ps)
  case (Cons p ps)
  obtain res where "create_secret_key (st_io p) (st_parent p) (st_key p) (FileContent key) = (res, FileContent key)"
    "\<forall>k. res = Inr k \<longrightarrow> k = key"
    using create_settled [OF refl assms] by blast
  then show ?case
    using Cons.IH
    by (auto simp: load_or_create_secret_key_def read_secret_key_def Let_def case_prod_unfold)
qed simp

text \<open>
  C21. A device has one identity. Any number of daemons that start at once on a machine without a key end with the
  same key, however many of their file operations fail: every start that succeeds uses the key that is in the file
  at the end, and every later start reads that same key; a file that exists but cannot be read or has the wrong
  length is an error and never replaced.
\<close>

theorem one_identity_per_device:
  assumes "\<forall>p \<in> set ps. length (st_key p) = 32" and "race FileMissing ps = (results, final)"
  shows "(\<forall>key. Inr key \<in> set results \<longrightarrow> final = FileContent key \<and>
      load_or_create_secret_key io parent fresh final found = (Inr key, found)) \<and>
    (\<forall>content. at_start = FileUnreadable \<or> at_start = FileContent content \<and> length content \<noteq> 32 \<longrightarrow>
      \<not> is_ok (fst (load_or_create_secret_key io parent fresh at_start found)) \<and>
      snd (load_or_create_secret_key io parent fresh at_start found) = found)"
proof -
  have "snd (race FileMissing ps) = FileContent key \<and> length key = 32"
    if "\<forall>p \<in> set ps. length (st_key p) = 32" "Inr key \<in> set (fst (race FileMissing ps))" for key ps
    using that
  proof (induction ps)
    case (Cons p ps)
    obtain res found' where create:
      "create_secret_key (st_io p) (st_parent p) (st_key p) FileMissing = (res, found')" by fastforce
    then consider "found' = FileMissing" "\<forall>k. res \<noteq> Inr k"
      | "found' = FileContent (st_key p)" "res = Inr (st_key p)"
      by (auto simp: create_secret_key_def read_secret_key_def split: if_splits)
    then show ?case
      using Cons create race_settled [of "st_key p" ps]
      by cases (auto simp: load_or_create_secret_key_def read_secret_key_def Let_def case_prod_unfold)
  qed simp
  then have "final = FileContent key \<and> length key = 32" if "Inr key \<in> set results" for key
    using assms that by (metis fst_conv snd_conv)
  then show ?thesis by (auto simp: load_or_create_secret_key_def read_secret_key_def)
qed

definition witness_key :: "u8 \<Rightarrow> secret_key" where
  "witness_key b = replicate 32 b"

definition witness_starters :: "starter list" where
  "witness_starters =
     [\<lparr>st_io = (\<lambda>n. n = 4), st_parent = True, st_key = witness_key 1\<rparr>,
      \<lparr>st_io = (\<lambda>_. False), st_parent = False, st_key = witness_key 2\<rparr>,
      \<lparr>st_io = (\<lambda>_. False), st_parent = True, st_key = witness_key 3\<rparr>]"

theorem one_identity_per_device_witness:
  "race FileMissing witness_starters =
     ([Inl IdentityIo, Inr (witness_key 2), Inr (witness_key 2)], FileContent (witness_key 2)) \<and>
   load_or_create_secret_key (\<lambda>_. False) True (witness_key 9) (FileContent (witness_key 2)) FileMissing =
     (Inr (witness_key 2), FileMissing)"
proof -
  have len: "length (witness_key b) = 32" for b unfolding witness_key_def by (rule length_replicate)
  then have run: "race FileMissing witness_starters =
     ([Inl IdentityIo, Inr (witness_key 2), Inr (witness_key 2)], FileContent (witness_key 2))"
    by (simp add: witness_starters_def load_or_create_secret_key_def create_secret_key_def read_secret_key_def)
  have "\<forall>p \<in> set witness_starters. length (st_key p) = 32" by (simp add: witness_starters_def len)
  from one_identity_per_device [OF this run, of "\<lambda>_. False" True "witness_key 9" FileMissing FileMissing] run
  show ?thesis by simp
qed

end
