(* ===== verification/Daemon.thy ===== *)
theory Daemon
  imports Local_Ipc Sampling Identity
begin

text \<open>
  The start of an agent (\<open>run_daemon\<close> in \<open>apps/agent/src/runtime.rs\<close>): what is on disk becomes the runtime the
  tasks share, in the order of the code, the first failure ending the start. The supervision of the tasks is
  the outcome of the \<open>select\<close> over them.
\<close>

section \<open>Pieces\<close>

definition LOCAL_TREND_SEED_MS :: i64 where "LOCAL_TREND_SEED_MS = 15 * 60 * 1000"

definition resume_local_trend :: "sqlite_env \<Rightarrow> 'j codec \<Rightarrow> 'j MetricStore \<Rightarrow> i64 \<Rightarrow> TrendWindow" where
  "resume_local_trend env codec store now =
     (case query env codec store (i64_saturating_sub now LOCAL_TREND_SEED_MS) now Raw of
        Inr samples \<Rightarrow> from_samples samples
      | Inl _ \<Rightarrow> TrendWindow_default)"

record platform =
  pl_host_name :: "string option"
  pl_os :: string
  pl_arch :: string
  pl_version :: string

definition node_info :: "platform \<Rightarrow> uuid \<Rightarrow> MetricCapability list \<Rightarrow> NodeInfo" where
  "node_info pl node_id caps =
     \<lparr>ni_node_id = node_id, ni_display_name = override (pl_host_name pl) ''Unnamed node'', ni_os = pl_os pl,
      ni_architecture = pl_arch pl, ni_agent_version = pl_version pl, ni_protocol = V1, ni_capabilities = caps\<rparr>"

definition healthy :: HealthSnapshot where
  "healthy =
     \<lparr>hs_state = Healthy, hs_collector_degraded = False, hs_storage_degraded = False,
      hs_remote_listener_degraded = False, hs_details = []\<rparr>"

section \<open>The start\<close>

record ('g, 'f, 'j, 'h) disk =
  dk_config :: "'g read_outcome"
  dk_key :: "bytes read_outcome"
  dk_node_id :: "string read_outcome"
  dk_columns :: "string list option"
  dk_store :: "'j MetricStore"
  dk_peers :: "'f read_outcome"
  dk_machines :: "'h read_outcome"

record ('cert, 'url, 'g, 'f, 'j, 'h) start_env =
  sv_directories_fail :: bool
  sv_logging_fails :: bool
  sv_host :: "('cert, 'url) host_env"
  sv_config_codec :: "'g config_codec"
  sv_key_io :: "nat \<Rightarrow> bool"
  sv_fresh_key :: secret_key
  sv_ids :: ids
  sv_fresh_node_id :: uuid
  sv_node_id_write :: write_outcome
  sv_platform :: platform
  sv_readings :: Host
  sv_open :: sqlite_env
  sv_seed :: sqlite_env
  sv_json :: "'j codec"
  sv_now :: i64
  sv_peer_codec :: "(peers, 'f) file_codec"
  sv_machine_codec :: "(machines, 'h) file_codec"

datatype StartError =
  StartIo | StartLogging | StartConfig ConfigError | StartIdentity IdentityError | StartTransport TransportError
| StartNodeId NodeIdError | StartStore StoreError | StartPeers PairingError | StartFleet RemoteFleetError
| StartAlerts ConfigError

record ('cert, 'url, 'f, 'j, 'c, 'h) daemon =
  da_key :: secret_key
  da_endpoint :: "('cert, 'url) Endpoint"
  da_collector :: SystemCollector
  da_runtime :: "('f, 'j, 'c) NodeRuntime"
  da_fleet :: "'h fleet"
  da_alert_rules :: "AlertRule list"

definition content :: "'a read_outcome \<Rightarrow> 'a option" where
  "content outcome = (case outcome of FileContent f \<Rightarrow> Some f | _ \<Rightarrow> None)"

text \<open>From the opened store on: everything is read, nothing more is written.\<close>

definition assemble ::
  "('cert, 'url, 'g, 'f, 'j, 'h) start_env \<Rightarrow> AgentConfig \<Rightarrow> secret_key \<Rightarrow> ('cert, 'url) Endpoint \<Rightarrow> uuid \<Rightarrow>
   'j MetricStore \<Rightarrow> 'f read_outcome \<Rightarrow> 'h read_outcome \<Rightarrow>
   (StartError, ('cert, 'url, 'f, 'j, 'c, 'h) daemon) result" where
  "assemble env config key endpoint node_id store peer_file machine_file =
     (let collector = SystemCollector_new (sv_readings env);
          info = node_info (sv_platform env) node_id (capabilities collector (sv_readings env));
          trend = resume_local_trend (sv_seed env) (sv_json env) store (sv_now env)
      in rbind (map_err StartPeers (peers_load (sv_peer_codec env) peer_file)) (\<lambda>peers.
         rbind (map_err StartFleet (fleet_load (sv_machine_codec env) (content machine_file) machine_file)) (\<lambda>fl.
         rbind (map_err StartFleet (fst (fleet_start fl))) (\<lambda>_.
         rbind (map_err StartAlerts (load_alert_rules config)) (\<lambda>rules.
           Inr \<lparr>da_key = key, da_endpoint = endpoint, da_collector = collector,
                da_runtime =
                  \<lparr>rt_info = info, rt_health = healthy, rt_latest = None, rt_trend = trend, rt_store = store,
                   rt_pairing = \<lparr>pm_active = None\<rparr>, rt_pairing_poisoned = False,
                   rt_mdns = PairingMdnsState_default, rt_peers = peers, rt_active = [],
                   rt_active_poisoned = False\<rparr>,
                da_fleet = snd (fleet_start fl), da_alert_rules = rules\<rparr>)))))"

definition run_daemon_start ::
  "('cert, 'url, 'g, 'f, 'j, 'h) start_env \<Rightarrow> ('g, 'f, 'j, 'h) disk \<Rightarrow>
   (StartError, ('cert, 'url, 'f, 'j, 'c, 'h) daemon) result \<times> ('g, 'f, 'j, 'h) disk" where
  "run_daemon_start env dk =
     (if sv_directories_fail env then (Inl StartIo, dk)
      else if sv_logging_fails env then (Inl StartLogging, dk)
      else case load_validated_config (sv_host env) (sv_config_codec env) (dk_config dk) of
        Inl e \<Rightarrow> (Inl (StartConfig e), dk)
      | Inr config \<Rightarrow>
          (case load_or_create_secret_key (sv_key_io env) True (sv_fresh_key env) (dk_key dk) (dk_key dk) of
             (Inl e, key_file) \<Rightarrow> (Inl (StartIdentity e), dk\<lparr>dk_key := key_file\<rparr>)
           | (Inr key, key_file) \<Rightarrow>
               let dk = dk\<lparr>dk_key := key_file\<rparr> in
               case bind_endpoint (sv_host env) (endpoint_config config) of
                 Inl e \<Rightarrow> (Inl (StartTransport e), dk)
               | Inr endpoint \<Rightarrow>
                   (case load_or_create_node_id (sv_ids env) (dk_node_id dk) (sv_fresh_node_id env) (sv_node_id_write env) of
                      (Inl e, node_file) \<Rightarrow> (Inl (StartNodeId e), dk\<lparr>dk_node_id := node_file\<rparr>)
                    | (Inr node_id, node_file) \<Rightarrow>
                        let dk = dk\<lparr>dk_node_id := node_file\<rparr> in
                        case from_connection (sv_open env) (dk_columns dk) (dk_store dk) of
                          (Inl e, columns) \<Rightarrow> (Inl (StartStore e), dk\<lparr>dk_columns := columns\<rparr>)
                        | (Inr store, columns) \<Rightarrow>
                            let dk = dk\<lparr>dk_columns := columns, dk_store := store\<rparr>
                            in (assemble env config key endpoint node_id store (dk_peers dk) (dk_machines dk), dk))))"

section \<open>Supervision\<close>

text \<open>
  The first branch of the \<open>select\<close> to finish decides the result; the sampler is awaited for its flush unless it
  was the one that finished, and aborted when it does not end in time.
\<close>

datatype 'e first_finished =
  SignalReceived "('e, unit) result" | SamplerStopped | RemoteStopped | LocalStopped "('e, unit) result option"

datatype 'e stop_reason = SignalFailed 'e | SamplerGone | RemoteGone | LocalGone | LocalFailed 'e | LocalPanicked

fun select_result :: "'e first_finished \<Rightarrow> ('e stop_reason, unit) result" where
  "select_result (SignalReceived (Inr _)) = Inr ()"
| "select_result (SignalReceived (Inl e)) = Inl (SignalFailed e)"
| "select_result SamplerStopped = Inl SamplerGone"
| "select_result RemoteStopped = Inl RemoteGone"
| "select_result (LocalStopped (Some (Inr _))) = Inl LocalGone"
| "select_result (LocalStopped (Some (Inl e))) = Inl (LocalFailed e)"
| "select_result (LocalStopped None) = Inl LocalPanicked"

definition awaits_flush :: "'e first_finished \<Rightarrow> bool" where
  "awaits_flush first = (case first of SamplerStopped \<Rightarrow> False | _ \<Rightarrow> True)"

text \<open>The sampler's part of a shutdown: the channel says stop, unless the sampler is the task that ended.\<close>

definition shut_down ::
  "'j codec \<Rightarrow> sqlite_env \<Rightarrow> 'e first_finished \<Rightarrow> ('f, 'j, 'c) sampler \<Rightarrow> ('f, 'j, 'c) sampler" where
  "shut_down codec env first st =
     (if awaits_flush first then fst (sample_loop codec st [ShutdownChanged True env]) else st)"

section \<open>What a start finds\<close>

lemma represents_cap [simp]: "represents codec (st\<lparr>size_cap_bytes := cap\<rparr>) hist = represents codec st hist"
  by (simp add: represents_def)

lemma from_connection_calm:
  assumes "\<And>n. \<not> fails env n"
  shows "fst (from_connection env columns st) = Inr (st\<lparr>size_cap_bytes := SIZE_CAP_BYTES\<rparr>)"
proof -
  have "fst (add_columns env' n existing cs req) = Inr ()" if "\<And>n. \<not> fails env' n" for env' n existing cs req
    using that by (induction req arbitrary: n cs) auto
  then show ?thesis
    using assms by (simp add: from_connection_def migrate_minute_metrics_columns_def case_prod_unfold Let_def)
qed

lemma resume_local_trend_exact:
  assumes "represents codec store hist" and "\<forall>s \<in> set hist. from_json codec (the (to_json codec s)) = Some s"
    and "\<And>n. \<not> fails env n"
  shows "resume_local_trend env codec store now =
    from_samples (take MAX_QUERY_ROWS (filter
      (\<lambda>s. i64_saturating_sub now LOCAL_TREND_SEED_MS \<le> ms_timestamp_ms s \<and> ms_timestamp_ms s \<le> now)
      (sort_key ms_timestamp_ms hist)))"
  using query_raw_exact [OF assms(1,2), of env] assms(3)
  by (simp add: resume_local_trend_def query_def query_page_def MAX_QUERY_ROWS_def i64_limits)

lemma spawn_registry: "fl_registry (spawn_monitor r fl) = fl_registry fl"
  by (simp add: spawn_monitor_def abort_def Let_def split: option.splits)

text \<open>The fleet a start builds from a registry file: every machine of the file watched and shown.\<close>

lemma fleet_resumes:
  assumes "synced c [] reg" and "keyed (reg_records reg)" and "\<not> reg_poisoned reg"
  shows "\<exists>fl fl'. fleet_load c (content (outcome_of (reg_file reg))) (outcome_of (reg_file reg)) = Inr fl \<and>
    fleet_start fl = (Inr (), fl') \<and> fleet_ok fl' \<and> fl_registry fl' = reg"
proof -
  have stored: "content (outcome_of (reg_file reg)) = reg_file reg"
    by (simp add: content_def outcome_of_def split: option.splits)
  have records: "machines_load c (outcome_of (reg_file reg)) = Inr (reg_records reg)"
    using assms(1) by (simp add: synced_def machines_load_def)
  have reg: "\<lparr>reg_records = reg_records reg, reg_file = reg_file reg, reg_poisoned = False\<rparr> = reg"
    using assms(3) by (cases reg) simp
  obtain fl where fl: "fleet_load c (reg_file reg) (outcome_of (reg_file reg)) = Inr fl" "fl_registry fl = reg"
    using records reg assms(3) by (simp add: fleet_load_def machines_list_def)
  then obtain fl' where start: "fleet_start fl = (Inr (), fl')"
    using assms(3) by (simp add: fleet_start_def machines_list_def)
  have ok: "fleet_ok fl'" using fleet_start_ok [OF fl(1) _ start] fl(2) assms(2) by simp
  have "fl_registry (foldl (\<lambda>fl r. spawn_monitor r fl) fl rs) = fl_registry fl" for rs
    by (induction rs arbitrary: fl) (simp_all add: spawn_registry)
  then have "fl_registry fl' = reg"
    using start fl(2) assms(3) by (auto simp: fleet_start_def machines_list_def)
  then show ?thesis using fl start ok stored by auto
qed

text \<open>What a start that got through has left on disk: its key, its node id, and nothing of the others changed.\<close>

lemma run_daemon_start_Inr:
  assumes "run_daemon_start env dk = (Inr d, dk')"
  obtains config key_file node_file store columns where
    "load_validated_config (sv_host env) (sv_config_codec env) (dk_config dk) = Inr config"
    "load_or_create_secret_key (sv_key_io env) True (sv_fresh_key env) (dk_key dk) (dk_key dk) = (Inr (da_key d), key_file)"
    "bind_endpoint (sv_host env) (endpoint_config config) = Inr (da_endpoint d)"
    "load_or_create_node_id (sv_ids env) (dk_node_id dk) (sv_fresh_node_id env) (sv_node_id_write env) =
       (Inr (ni_node_id (rt_info (da_runtime d))), node_file)"
    "from_connection (sv_open env) (dk_columns dk) (dk_store dk) = (Inr store, columns)"
    "dk' = dk\<lparr>dk_key := key_file, dk_node_id := node_file, dk_columns := columns, dk_store := store\<rparr>"
  using assms
  by (auto simp: run_daemon_start_def assemble_def node_info_def rbind_eq_Inr Let_def
      split: if_splits sum.splits prod.splits)

lemma start_keeps_identity:
  assumes "run_daemon_start env dk = (Inr d, dk')" and "length (sv_fresh_key env) = 32"
    and "ids_faithful (sv_ids env)" and "\<forall>u. \<forall>ch \<in> set (uuid_str (sv_ids env) u). \<not> blank ch"
  shows "load_or_create_secret_key io parent fresh (dk_key dk') found = (Inr (da_key d), found)"
    and "load_or_create_node_id (sv_ids env) (dk_node_id dk') fresh_id later =
      (Inr (ni_node_id (rt_info (da_runtime d))), dk_node_id dk')"
proof -
  have node: "uuid_parse (sv_ids env) (trim_text (uuid_str (sv_ids env) u)) = Some u" for u
    using assms(3,4) trim_text_id [of "uuid_str (sv_ids env) u"] by (simp add: ids_faithful_def)
  show "load_or_create_secret_key io parent fresh (dk_key dk') found = (Inr (da_key d), found)"
    by (rule run_daemon_start_Inr [OF assms(1)])
      (use assms(2) in \<open>auto simp: load_or_create_secret_key_def create_secret_key_def read_secret_key_def
        split: read_outcome.splits if_splits\<close>)
  show "load_or_create_node_id (sv_ids env) (dk_node_id dk') fresh_id later =
      (Inr (ni_node_id (rt_info (da_runtime d))), dk_node_id dk')"
    by (rule run_daemon_start_Inr [OF assms(1)])
      (auto simp: load_or_create_node_id_def node split: read_outcome.splits write_outcome.splits option.splits)
qed

lemma peers_resume:
  assumes "synced c [] reg" and "\<not> reg_poisoned reg"
  shows "peers_load c (outcome_of (reg_file reg)) = Inr reg"
  using assms by (cases reg) (auto simp: synced_def peers_load_def outcome_of_def split: option.splits)

lemma assemble_resumes:
  assumes "synced (sv_peer_codec env) [] peers" and "\<not> reg_poisoned peers"
    and "synced (sv_machine_codec env) [] machines" and "keyed (reg_records machines)" and "\<not> reg_poisoned machines"
    and "load_alert_rules config = Inr rules"
  shows "\<exists>d. assemble env config key endpoint node_id store (outcome_of (reg_file peers)) (outcome_of (reg_file machines)) = Inr d \<and>
    da_key d = key \<and> da_endpoint d = endpoint \<and> ni_node_id (rt_info (da_runtime d)) = node_id \<and>
    rt_peers (da_runtime d) = peers \<and> fl_registry (da_fleet d) = machines \<and> fleet_ok (da_fleet d) \<and>
    da_alert_rules d = rules \<and> pm_active (rt_pairing (da_runtime d)) = None \<and> rt_active (da_runtime d) = [] \<and>
    rt_trend (da_runtime d) = resume_local_trend (sv_seed env) (sv_json env) store (sv_now env)"
proof -
  obtain fl fl' where "fleet_load (sv_machine_codec env) (content (outcome_of (reg_file machines)))
      (outcome_of (reg_file machines)) = Inr fl" "fleet_start fl = (Inr (), fl')" "fleet_ok fl'" "fl_registry fl' = machines"
    using fleet_resumes [OF assms(3,4,5)] by blast
  then show ?thesis
    using peers_resume [OF assms(1,2)] assms(6) by (simp add: assemble_def node_info_def Let_def)
qed

text \<open>A start over files that are all in order, from the configuration on.\<close>

lemma start_from_files:
  fixes env :: "('cert, 'url, 'g, 'f, 'j, 'h) start_env"
  assumes config: "load_validated_config (sv_host env) (sv_config_codec env) (dk_config dk) = Inr config"
      "load_alert_rules config = Inr rules" "bind_ok (sv_host env) (ag_bind_port config)"
    and key: "load_or_create_secret_key (sv_key_io env) True (sv_fresh_key env) (dk_key dk) (dk_key dk) = (Inr key, key_file)"
    and node: "load_or_create_node_id (sv_ids env) (dk_node_id dk) (sv_fresh_node_id env) (sv_node_id_write env) =
      (Inr node_id, node_file)"
    and files: "dk_peers dk = outcome_of (reg_file peers)" "dk_machines dk = outcome_of (reg_file machines)"
    and peers: "synced (sv_peer_codec env) [] peers" "\<not> reg_poisoned peers"
    and machines: "synced (sv_machine_codec env) [] machines" "keyed (reg_records machines)" "\<not> reg_poisoned machines"
    and calm: "\<And>n. \<not> fails (sv_open env) n" "\<not> sv_directories_fail env" "\<not> sv_logging_fails env"
  shows "\<exists>(d :: ('cert, 'url, 'f, 'j, 'c, 'h) daemon) dk'. run_daemon_start env dk = (Inr d, dk') \<and>
    da_key d = key \<and> ni_node_id (rt_info (da_runtime d)) = node_id \<and> ep_port (da_endpoint d) = ag_bind_port config \<and>
    rt_peers (da_runtime d) = peers \<and> fl_registry (da_fleet d) = machines \<and> fleet_ok (da_fleet d) \<and>
    da_alert_rules d = rules \<and> pm_active (rt_pairing (da_runtime d)) = None \<and> rt_active (da_runtime d) = [] \<and>
    rt_trend (da_runtime d) =
      resume_local_trend (sv_seed env) (sv_json env) ((dk_store dk)\<lparr>size_cap_bytes := SIZE_CAP_BYTES\<rparr>) (sv_now env)"
proof -
  let ?store = "(dk_store dk)\<lparr>size_cap_bytes := SIZE_CAP_BYTES\<rparr>"
  obtain columns where opened: "from_connection (sv_open env) (dk_columns dk) (dk_store dk) = (Inr ?store, columns)"
    using from_connection_calm [OF calm(1), of "dk_columns dk" "dk_store dk"] by (metis prod.collapse)
  have "validate_config (sv_host env) config = Inr ()" using config(1) by (simp add: load_validated_config_Inr)
  from validated_config_bound [OF this] config(3) obtain endpoint where
    bound: "bind_endpoint (sv_host env) (endpoint_config config) = Inr endpoint" "ep_port endpoint = ag_bind_port config"
    by simp
  have run: "run_daemon_start env dk =
      (assemble env config key endpoint node_id ?store (outcome_of (reg_file peers)) (outcome_of (reg_file machines)),
       dk\<lparr>dk_key := key_file, dk_node_id := node_file, dk_columns := columns, dk_store := ?store\<rparr>)"
    using config(1) calm(2,3) key node bound(1) opened files by (simp add: run_daemon_start_def Let_def)
  show ?thesis
    unfolding run using assemble_resumes [OF peers machines config(2), of key endpoint node_id ?store] bound(2) by auto
qed


definition witness_start :: "(nat, string, AgentConfig, peers, MetricSample, machines) start_env" where
  "witness_start =
     \<lparr>sv_directories_fail = False, sv_logging_fails = False, sv_host = witness_host_env, sv_config_codec = plain_config,
      sv_key_io = (\<lambda>_. False), sv_fresh_key = witness_key 2, sv_ids = bit_ids, sv_fresh_node_id = 77,
      sv_node_id_write = Written,
      sv_platform = \<lparr>pl_host_name = None, pl_os = ''linux'', pl_arch = ''x86_64'', pl_version = ''1.0.0''\<rparr>,
      sv_readings = witness_host, sv_open = calm_env, sv_seed = calm_env, sv_json = identity_codec, sv_now = 1000000,
      sv_peer_codec = plain_file, sv_machine_codec = plain_machines\<rparr>"

definition fresh_disk :: "(AgentConfig, peers, MetricSample, machines) disk" where
  "fresh_disk =
     \<lparr>dk_config = FileMissing, dk_key = FileMissing, dk_node_id = FileMissing, dk_columns = None,
      dk_store = MetricStore_new, dk_peers = FileMissing, dk_machines = FileMissing\<rparr>"

definition paired_machines :: "machines machine_registry" where
  "paired_machines =
     \<lparr>reg_records = [(''e'', witness_record)], reg_file = Some [(''e'', witness_record)], reg_poisoned = False\<rparr>"

lemma witness_start_simps [simp]:
  "sv_directories_fail witness_start = False" "sv_logging_fails witness_start = False"
  "sv_host witness_start = witness_host_env" "sv_config_codec witness_start = plain_config"
  "sv_key_io witness_start = (\<lambda>_. False)" "sv_fresh_key witness_start = witness_key 2" "sv_ids witness_start = bit_ids"
  "sv_fresh_node_id witness_start = 77" "sv_node_id_write witness_start = Written" "sv_open witness_start = calm_env"
  "sv_seed witness_start = calm_env" "sv_json witness_start = identity_codec"
  "sv_peer_codec witness_start = plain_file" "sv_machine_codec witness_start = plain_machines"
  by (simp_all add: witness_start_def)

lemma fresh_disk_simps [simp]:
  "dk_config fresh_disk = FileMissing" "dk_key fresh_disk = FileMissing" "dk_node_id fresh_disk = FileMissing"
  "dk_columns fresh_disk = None" "dk_store fresh_disk = MetricStore_new" "dk_peers fresh_disk = FileMissing"
  "dk_machines fresh_disk = FileMissing"
  by (simp_all add: fresh_disk_def)

lemma empty_registry_resumes: "synced c [] \<lparr>reg_records = [], reg_file = None, reg_poisoned = False\<rparr>"
  by (simp add: synced_def load_records_def outcome_of_def)


end
