(* ===== verification/Json.thy ===== *)
theory Json
  imports Ieee Btree
begin

text \<open>
  The JSON values of \<open>serde_json\<close> as the desktop shell handles them: numbers keep whether they are integers, objects
  are ordered maps with unique keys, and every accessor answers \<open>None\<close> on a value of another kind.
\<close>

datatype json_number = PosInt u64 | NegInt i64 | Float fl

datatype json =
  JNull | JBool bool | JNumber json_number | JString string | JArray "json list" | JObject "(string \<times> json) list"

fun json_get :: "json \<Rightarrow> string \<Rightarrow> json option" where
  "json_get (JObject m) key = bt_get m key"
| "json_get _ key = None"

fun as_str :: "json \<Rightarrow> string option" where
  "as_str (JString s) = Some s"
| "as_str _ = None"

fun as_bool :: "json \<Rightarrow> bool option" where
  "as_bool (JBool b) = Some b"
| "as_bool _ = None"

fun as_array :: "json \<Rightarrow> json list option" where
  "as_array (JArray vs) = Some vs"
| "as_array _ = None"

fun as_u64 :: "json \<Rightarrow> u64 option" where
  "as_u64 (JNumber (PosInt n)) = Some n"
| "as_u64 _ = None"

fun as_i64 :: "json \<Rightarrow> i64 option" where
  "as_i64 (JNumber (PosInt n)) = i64_try_from_u64 n"
| "as_i64 (JNumber (NegInt n)) = Some n"
| "as_i64 _ = None"

fun as_f64 :: "json \<Rightarrow> fl option" where
  "as_f64 (JNumber (PosInt n)) = Some (round_to f64_fmt (of_nat (unat n)))"
| "as_f64 (JNumber (NegInt n)) = Some (round_to f64_fmt (of_int n))"
| "as_f64 (JNumber (Float x)) = Some x"
| "as_f64 _ = None"

text \<open>\<open>and_then\<close>, and the \<open>json!\<close> macro on objects, optional values and texts.\<close>

definition get_str :: "json \<Rightarrow> string \<Rightarrow> string option" where
  "get_str v key = Option.bind (json_get v key) as_str"

definition get_array :: "json \<Rightarrow> string \<Rightarrow> json list option" where
  "get_array v key = Option.bind (json_get v key) as_array"

definition json_object :: "(string \<times> json) list \<Rightarrow> json" where
  "json_object members = JObject (foldl (\<lambda>m (k, v). bt_insert k v m) [] members)"

definition json_of_option :: "('a \<Rightarrow> json) \<Rightarrow> 'a option \<Rightarrow> json" where
  "json_of_option f v = (case v of None \<Rightarrow> JNull | Some x \<Rightarrow> f x)"

definition json_of_value :: "json option \<Rightarrow> json" where
  "json_of_value = json_of_option id"

definition json_of_u64 :: "u64 \<Rightarrow> json" where
  "json_of_u64 n = JNumber (PosInt n)"

definition json_of_i64 :: "i64 \<Rightarrow> json" where
  "json_of_i64 n = JNumber (if 0 \<le> n then PosInt (of_int n) else NegInt n)"

definition json_of_f64 :: "fl \<Rightarrow> json" where
  "json_of_f64 x = (if is_finite x then JNumber (Float x) else JNull)"

section \<open>Facts\<close>

lemma json_get_fold:
  assumes "distinct (map fst members)"
  shows "bt_get (foldl (\<lambda>m (k, v). bt_insert k v m) m members) key =
    (case map_of members key of None \<Rightarrow> bt_get m key | Some v \<Rightarrow> Some v)"
  using assms
proof (induction members arbitrary: m)
  case (Cons member members)
  obtain k v where member: "member = (k, v)" by fastforce
  have "k \<notin> set (map fst members)" using Cons.prems member by simp
  then have "map_of members k = None" by (simp add: map_of_eq_None_iff)
  then show ?case using Cons member by (auto split: option.splits)
qed simp

lemma json_get_object [simp]:
  "distinct (map fst members) \<Longrightarrow> json_get (json_object members) key = map_of members key"
  by (simp add: json_object_def json_get_fold split: option.splits)

lemma as_i64_of_i64 [simp]:
  assumes "in_i64 n"
  shows "as_i64 (json_of_i64 n) = Some n"
proof (cases "0 \<le> n")
  case True
  then have "uint (word_of_int n :: u64) = n"
    using assms by (simp add: in_i64_def i64_max_def uint_word_of_int_eq take_bit_int_eq_self)
  then show ?thesis using assms True by (simp add: json_of_i64_def i64_try_from_u64_def in_i64_def)
qed (simp add: json_of_i64_def)

lemma as_u64_of_u64 [simp]: "as_u64 (json_of_u64 n) = Some n"
  by (simp add: json_of_u64_def)

end
