(* ===== verification/Text_Lines.thy ===== *)
theory Text_Lines
  imports Prelude
begin

text \<open>
  The text functions of the standard library that the desktop shell uses: splitting at characters, \<open>str::lines\<close>,
  \<open>str::split_whitespace\<close>, ASCII classes and the ordered sets of strings.
\<close>

section \<open>Splitting\<close>

fun split_by :: "(char \<Rightarrow> bool) \<Rightarrow> string \<Rightarrow> string list" where
  "split_by p [] = [[]]"
| "split_by p (c # s) =
     (if p c then [] # split_by p s
      else case split_by p s of [] \<Rightarrow> [[c]] | w # ws \<Rightarrow> (c # w) # ws)"

definition split_on :: "char \<Rightarrow> string \<Rightarrow> string list" where
  "split_on c = split_by (\<lambda>d. d = c)"

definition split_whitespace :: "string \<Rightarrow> string list" where
  "split_whitespace s = filter (\<lambda>w. w \<noteq> []) (split_by blank s)"

abbreviation line_feed :: char where "line_feed \<equiv> CHR 0x0A"
abbreviation carriage_return :: char where "carriage_return \<equiv> CHR 0x0D"

text \<open>A terminated line loses its newline and one carriage return before it; a last, unterminated one is kept.\<close>

definition strip_return :: "string \<Rightarrow> string" where
  "strip_return s = (if s \<noteq> [] \<and> last s = carriage_return then butlast s else s)"

definition lines :: "string \<Rightarrow> string list" where
  "lines s =
     (let parts = split_on line_feed s
      in map strip_return (butlast parts) @ (if last parts = [] then [] else [last parts]))"

definition unlines :: "string list \<Rightarrow> string" where
  "unlines ls = concat (map (\<lambda>l. l @ [line_feed]) ls)"

fun join_with :: "string \<Rightarrow> string list \<Rightarrow> string" where
  "join_with sep [] = []"
| "join_with sep [s] = s"
| "join_with sep (s # ss) = s @ sep @ join_with sep ss"

definition starts_with :: "string \<Rightarrow> string \<Rightarrow> bool" where
  "starts_with pre s \<longleftrightarrow> take (length pre) s = pre"

section \<open>Characters\<close>

definition char_in :: "nat \<Rightarrow> nat \<Rightarrow> char \<Rightarrow> bool" where
  "char_in a b c \<longleftrightarrow> a \<le> (of_char c :: nat) \<and> (of_char c :: nat) \<le> b"

definition is_ascii_alphanumeric :: "char \<Rightarrow> bool" where
  "is_ascii_alphanumeric c \<longleftrightarrow> char_in 48 57 c \<or> char_in 65 90 c \<or> char_in 97 122 c"

definition to_ascii_lowercase :: "char \<Rightarrow> char" where
  "to_ascii_lowercase c = (if char_in 65 90 c then char_of ((of_char c :: nat) + 32) else c)"

definition eq_ignore_ascii_case :: "string \<Rightarrow> string \<Rightarrow> bool" where
  "eq_ignore_ascii_case s t \<longleftrightarrow> map to_ascii_lowercase s = map to_ascii_lowercase t"

text \<open>A \<open>BTreeSet\<close> of strings, by its elements in order.\<close>

definition btree_set :: "string list \<Rightarrow> string list" where
  "btree_set ss = sort (remdups ss)"

lemma set_btree_set [simp]: "set (btree_set ss) = set ss"
  by (simp add: btree_set_def)

section \<open>Facts\<close>

lemma split_by_not_Nil [simp]: "split_by p s \<noteq> []"
  by (induction s) (auto split: list.splits)

lemma split_by_clean: "w \<in> set (split_by p s) \<Longrightarrow> c \<in> set w \<Longrightarrow> \<not> p c"
proof (induction s arbitrary: w)
  case (Cons d s)
  obtain v vs where rest: "split_by p s = v # vs" using split_by_not_Nil [of p s] by (cases "split_by p s") blast+
  note IH = Cons.IH [unfolded rest]
  show ?case using Cons.prems IH [of v] IH [of w] rest by (auto split: if_splits)
qed simp

lemma split_by_from: "w \<in> set (split_by p s) \<Longrightarrow> set w \<subseteq> set s"
  by (induction s arbitrary: w) (auto split: if_splits list.splits, blast+)

lemma split_by_append:
  assumes "\<forall>d \<in> set s. \<not> p d" and "p c"
  shows "split_by p (s @ c # t) = s # split_by p t"
  using assms by (induction s) auto

lemma split_by_none: "\<forall>d \<in> set s. \<not> p d \<Longrightarrow> split_by p s = [s]"
  by (induction s) auto

lemma lines_clean: "l \<in> set (lines s) \<Longrightarrow> line_feed \<notin> set l"
proof -
  have part: "w \<in> set (split_on line_feed s) \<Longrightarrow> line_feed \<notin> set w" for w
    unfolding split_on_def using split_by_clean by fastforce
  have "last (split_on line_feed s) \<in> set (split_on line_feed s)" by (simp add: split_on_def)
  then have "line_feed \<notin> set (last (split_on line_feed s))" by (rule part)
  moreover have "line_feed \<notin> set (strip_return w)" if "w \<in> set (butlast (split_on line_feed s))" for w
    using part [OF in_set_butlastD [OF that]] by (auto simp: strip_return_def dest: in_set_butlastD)
  ultimately show "l \<in> set (lines s) \<Longrightarrow> line_feed \<notin> set l" by (auto simp: lines_def Let_def split: if_splits)
qed

text \<open>Lines without a newline and without a final carriage return are read back as they were written.\<close>

lemma split_unlines:
  assumes "\<forall>l \<in> set ls. line_feed \<notin> set l"
  shows "split_on line_feed (unlines ls) = ls @ [[]]"
  using assms
proof (induction ls)
  case (Cons l ls)
  have "split_on line_feed (l @ line_feed # unlines ls) = l # split_on line_feed (unlines ls)"
    unfolding split_on_def using Cons.prems by (intro split_by_append) auto
  then show ?case using Cons by (simp add: unlines_def)
qed (simp add: unlines_def split_on_def)

lemma lines_unlines:
  assumes "\<forall>l \<in> set ls. line_feed \<notin> set l" and "\<forall>l \<in> set ls. strip_return l = l"
  shows "lines (unlines ls) = ls"
  using assms by (simp add: lines_def split_unlines Let_def map_idI)

lemma trim_end_from: "set (trim_end s) \<subseteq> set s"
  unfolding trim_end_def using set_dropWhileD [of _ blank "rev s"] by auto

lemma trim_text_from: "set (trim_text s) \<subseteq> set s"
  using trim_end_from [of "dropWhile blank s"] set_dropWhileD [of _ blank s] by (auto simp: trim_text_def)

lemma trim_end_last: "trim_end s \<noteq> [] \<Longrightarrow> \<not> blank (last (trim_end s))"
  unfolding trim_end_def using hd_dropWhile [of blank "rev s"] by (simp add: last_rev)

lemma strip_return_trim [simp]: "strip_return (trim_text s) = trim_text s"
proof -
  have "blank carriage_return" by (simp add: blank_def)
  then show ?thesis
    using trim_end_last [of "dropWhile blank s"] by (auto simp: strip_return_def trim_text_def)
qed

lemma trim_text_idem [simp]: "trim_text (trim_text s) = trim_text s"
proof (cases "trim_text s")
  case (Cons c cs)
  have "dropWhile blank s \<noteq> []"
  proof
    assume "dropWhile blank s = []"
    then have "trim_text s = []" by (simp add: trim_text_def trim_end_def del: dropWhile_eq_Nil_conv)
    then show False using Cons by simp
  qed
  then obtain d ds where d: "dropWhile blank s = d # ds" "\<not> blank d"
    using hd_dropWhile [of blank s] by (cases "dropWhile blank s") auto
  have "trim_end (d # ds) = d # trim_end ds" if "\<not> blank d" for d ds
    using that by (simp add: trim_end_def dropWhile_append dropWhile_append3)
  then have "c = d" using Cons d by (simp add: trim_text_def)
  then have start: "dropWhile blank (trim_text s) = trim_text s" using Cons d(2) by simp
  have "\<not> blank (last (trim_text s))" using trim_end_last [of "dropWhile blank s"] Cons unfolding trim_text_def by simp
  then have "trim_end (trim_text s) = trim_text s" by (intro trim_end_id) simp
  then show ?thesis using start by (simp add: trim_text_def)
next
  case Nil
  then show ?thesis unfolding Nil by (simp add: trim_text_def trim_end_def)
qed

end
