(* ===== verification/Ssh_Bootstrap.thy ===== *)
theory Ssh_Bootstrap
  imports Json Durable Text_Lines
begin

text \<open>
  Installing an agent on another machine over SSH (\<open>apps/desktop/src-tauri/src/ssh_bootstrap.rs\<close>): the host keys a
  server answers, the desktop's own \<open>known_hosts\<close> file, and the sequence of local processes that uploads, installs
  and pairs. The programs (\<open>ssh\<close>, \<open>scp\<close>, \<open>ssh-keyscan\<close>, \<open>ssh-keygen\<close>) and the other end are a parameter that
  answers anything to the n-th process started.
\<close>

section \<open>Data\<close>

record SshTarget =
  tg_host :: string
  tg_user :: string
  tg_port :: u16
  tg_identity_file :: "string option"

record SshHostIdentity =
  hi_host_keys :: "string list"
  hi_fingerprints :: "string list"

record SshBootstrapRequest =
  br_target :: SshTarget
  br_accepted_host_keys :: "string list"
  br_archive_path :: string
  br_checksum_path :: string

record SshBootstrapResult =
  bs_pairing_bundle :: string
  bs_remote_platform :: string

datatype SshError =
  InvalidSshHost | InvalidSshUser | InvalidSshPort | FileNotReadable string | NotARegularFile string
| FingerprintNotConfirmed | CommandMissing string | CouldNotStart string | OperationFailed string string
| NonUtf8Output string | NoHostKey | HostKeyChanged | HostKeyConflict string string | DirectoriesUnavailable
| KnownHostsIo | UnsafeTempDir | InstallerUnavailable | UnsafeFileName | ProgressFailed
| InvalidPairingJson | PairingRejected string | NoPairingBundle

section \<open>Checks\<close>

definition validate_local_file :: "(string \<Rightarrow> bool option) \<Rightarrow> string \<Rightarrow> string \<Rightarrow> (SshError, string) result" where
  "validate_local_file metadata path label =
     (case metadata path of
        None \<Rightarrow> Inl (FileNotReadable label)
      | Some is_file \<Rightarrow> if is_file then Inr path else Inl (NotARegularFile label))"

definition host_char :: "char \<Rightarrow> bool" where
  "host_char c \<longleftrightarrow> is_ascii_alphanumeric c \<or> c \<in> set ''.:-''"

definition user_char :: "char \<Rightarrow> bool" where
  "user_char c \<longleftrightarrow> is_ascii_alphanumeric c \<or> c \<in> set ''_-.''"

definition validate_target :: "(string \<Rightarrow> bool option) \<Rightarrow> SshTarget \<Rightarrow> (SshError, unit) result" where
  "validate_target metadata target =
     (if tg_host target = [] \<or> 255 < length (tg_host target) \<or> \<not> list_all host_char (tg_host target)
      then Inl InvalidSshHost
      else if tg_user target = [] \<or> 64 < length (tg_user target) \<or> \<not> list_all user_char (tg_user target)
      then Inl InvalidSshUser
      else if tg_port target = 0 then Inl InvalidSshPort
      else case tg_identity_file target of
             None \<Rightarrow> Inr ()
           | Some identity_file \<Rightarrow>
               map_result (\<lambda>_. ()) (validate_local_file metadata identity_file ''SSH identity file''))"

definition path_char :: "char \<Rightarrow> bool" where
  "path_char c \<longleftrightarrow> is_ascii_alphanumeric c \<or> c \<in> set ''/._-''"

definition validate_remote_temp_dir :: "string \<Rightarrow> (SshError, unit) result" where
  "validate_remote_temp_dir path =
     (if \<not> starts_with ''/tmp/rackio-bootstrap.'' path \<or> list_ex (\<lambda>c. \<not> path_char c) path
         \<or> list_ex (\<lambda>component. component = ''..'') (split_on (CHR ''/'') path)
      then Inl UnsafeTempDir else Inr ())"

text \<open>\<open>Path::file_name\<close>: the last component, unless the path has none or ends in \<open>..\<close>.\<close>

definition file_name :: "string \<Rightarrow> string option" where
  "file_name path =
     (let components = filter (\<lambda>c. c \<noteq> [] \<and> c \<noteq> ''.'') (split_on (CHR ''/'') path)
      in if components = [] \<or> last components = ''..'' then None else Some (last components))"

definition name_char :: "char \<Rightarrow> bool" where
  "name_char c \<longleftrightarrow> is_ascii_alphanumeric c \<or> c \<in> set ''._-''"

definition shell_filename :: "string \<Rightarrow> (SshError, string) result" where
  "shell_filename path =
     (case file_name path of
        None \<Rightarrow> Inl UnsafeFileName
      | Some name \<Rightarrow> if name \<noteq> [] \<and> list_all name_char name then Inr name else Inl UnsafeFileName)"

section \<open>Host keys\<close>

definition known_hosts_entry :: "string \<Rightarrow> (string \<times> string \<times> string) option" where
  "known_hosts_entry line =
     (case split_whitespace line of
        hosts # key_type # key # _ \<Rightarrow>
          if starts_with ''|'' hosts \<or> starts_with ''@'' hosts then None else Some (hosts, key_type, key)
      | _ \<Rightarrow> None)"

definition scan_host_tokens :: "SshTarget \<Rightarrow> string list" where
  "scan_host_tokens target =
     [tg_host target, ''['' @ tg_host target @ '']:'' @ show_nat (unat (tg_port target))]"

definition literal_host_key_line :: "string \<Rightarrow> bool" where
  "literal_host_key_line line =
     (case known_hosts_entry line of
        None \<Rightarrow> False
      | Some (hosts, _, _) \<Rightarrow>
          list_all (\<lambda>token. list_all (\<lambda>c. c \<notin> set ''*?!'') token) (split_on (CHR '','') hosts))"

definition retained_scan_lines :: "SshTarget \<Rightarrow> string list \<Rightarrow> string list" where
  "retained_scan_lines target ls =
     filter (\<lambda>line. literal_host_key_line line \<and>
         (case known_hosts_entry line of
            None \<Rightarrow> False
          | Some (hosts, _, _) \<Rightarrow> list_ex (eq_ignore_ascii_case hosts) (scan_host_tokens target)))
       (filter (\<lambda>line. line \<noteq> [] \<and> \<not> starts_with ''#'' line) (map trim_text ls))"

definition normalized_key_set :: "string list \<Rightarrow> string list" where
  "normalized_key_set keys = btree_set (filter (\<lambda>key. key \<noteq> []) (map trim_text keys))"

definition conflicting :: "string \<Rightarrow> string \<Rightarrow> (string \<times> string) option" where
  "conflicting line known =
     (case known_hosts_entry line of
        None \<Rightarrow> None
      | Some (hosts, key_type, key) \<Rightarrow>
          (case known_hosts_entry known of
             None \<Rightarrow> None
           | Some (known_hosts, known_type, known_key) \<Rightarrow>
               if known_hosts = hosts \<and> known_type = key_type \<and> known_key \<noteq> key
               then Some (key_type, hosts) else None))"

definition detect_host_key_conflict :: "string list \<Rightarrow> string list \<Rightarrow> (SshError, unit) result" where
  "detect_host_key_conflict existing incoming =
     (case concat (map (\<lambda>line. List.map_filter (conflicting line) existing) incoming) of
        [] \<Rightarrow> Inr ()
      | (key_type, hosts) # _ \<Rightarrow> Inl (HostKeyConflict key_type hosts))"

definition merged_known_host_lines :: "string \<Rightarrow> string list \<Rightarrow> (SshError, string list) result" where
  "merged_known_host_lines existing keys =
     (let merged = btree_set (filter literal_host_key_line (map trim_text (lines existing)));
          incoming = filter literal_host_key_line (normalized_key_set keys)
      in rbind (detect_host_key_conflict merged incoming) (\<lambda>_. Inr (btree_set (merged @ incoming))))"

section \<open>Processes\<close>

text \<open>A finished process: success, its output when it is UTF-8, its errors.\<close>

datatype process_outcome = NotStarted | Exited bool "string option" string

type_synonym invocation = "string \<times> string list \<times> string"

record ssh_env =
  xe_metadata :: "string \<Rightarrow> bool option"
  xe_present :: "string \<Rightarrow> bool"
  xe_run :: "nat \<Rightarrow> invocation \<Rightarrow> process_outcome"
  xe_channel_fails :: "nat \<Rightarrow> bool"
  xe_config_dir :: "string option"
  xe_known_hosts_io :: "nat \<Rightarrow> bool"
  xe_installer :: "string option"
  xe_json :: "string \<Rightarrow> json option"

record bootstrap_state =
  xs_log :: "invocation list"
  xs_known_hosts :: "string read_outcome"
  xs_stages :: "string list"

type_synonym 'a ssh = "bootstrap_state \<Rightarrow> (SshError, 'a) result \<times> bootstrap_state"

definition ssh_lift :: "(SshError, 'a) result \<Rightarrow> 'a ssh" where
  "ssh_lift r st = (r, st)"

definition ssh_then :: "'a ssh \<Rightarrow> ('a \<Rightarrow> 'b ssh) \<Rightarrow> 'b ssh" where
  "ssh_then m f st = (case m st of (Inl e, st') \<Rightarrow> (Inl e, st') | (Inr x, st') \<Rightarrow> f x st')"

definition require_command :: "ssh_env \<Rightarrow> string \<Rightarrow> unit ssh" where
  "require_command env name = ssh_lift (if xe_present env name then Inr () else Inl (CommandMissing name))"

definition launch :: "ssh_env \<Rightarrow> invocation \<Rightarrow> process_outcome ssh" where
  "launch env invocation st =
     (let outcome = xe_run env (length (xs_log st)) invocation;
          st = st\<lparr>xs_log := xs_log st @ [invocation]\<rparr>
      in (if outcome = NotStarted then Inl (CouldNotStart (fst invocation)) else Inr outcome, st))"

fun output_text :: "process_outcome \<Rightarrow> string \<Rightarrow> (SshError, string) result" where
  "output_text (Exited ok out err) operation =
     (if \<not> ok then Inl (OperationFailed operation (trim_text err))
      else case out of None \<Rightarrow> Inl (NonUtf8Output operation) | Some s \<Rightarrow> Inr (trim_text s))"
| "output_text NotStarted operation = Inl (OperationFailed operation [])"

definition send_progress :: "ssh_env \<Rightarrow> string \<Rightarrow> unit ssh" where
  "send_progress env stage st =
     (if xe_channel_fails env (length (xs_stages st)) then (Inl ProgressFailed, st)
      else (Inr (), st\<lparr>xs_stages := xs_stages st @ [stage]\<rparr>))"

definition known_hosts_option :: "string \<Rightarrow> string" where
  "known_hosts_option known_hosts = ''UserKnownHostsFile='' @ [CHR 0x22] @ known_hosts @ [CHR 0x22]"

definition safe_options :: "SshTarget \<Rightarrow> string \<Rightarrow> string list" where
  "safe_options target known_hosts =
     [show_nat (unat (tg_port target)), ''-o'', ''BatchMode=yes'', ''-o'', ''ConnectTimeout=10'', ''-o'',
      ''StrictHostKeyChecking=yes'', ''-o'', known_hosts_option known_hosts] @
     (case tg_identity_file target of None \<Rightarrow> [] | Some identity_file \<Rightarrow> [''-i'', identity_file])"

definition ssh_options :: "SshTarget \<Rightarrow> string \<Rightarrow> string list" where
  "ssh_options target known_hosts = ''-p'' # safe_options target known_hosts"

definition remote_target :: "SshTarget \<Rightarrow> string" where
  "remote_target target =
     (if CHR '':'' \<in> set (tg_host target) then tg_user target @ ''@['' @ tg_host target @ '']''
      else tg_user target @ ''@'' @ tg_host target)"

definition run_ssh :: "ssh_env \<Rightarrow> SshTarget \<Rightarrow> string \<Rightarrow> string \<Rightarrow> process_outcome ssh" where
  "run_ssh env target known_hosts remote_command =
     ssh_then (require_command env ''ssh'') (\<lambda>_.
       launch env (''ssh'', ssh_options target known_hosts @ [remote_target target, remote_command], []))"

definition run_scp :: "ssh_env \<Rightarrow> SshTarget \<Rightarrow> string \<Rightarrow> string list \<Rightarrow> string \<Rightarrow> unit ssh" where
  "run_scp env target known_hosts local_files remote_dir =
     ssh_then (require_command env ''scp'') (\<lambda>_.
     ssh_then (launch env (''scp'', ''-P'' # safe_options target known_hosts @ local_files @
         [remote_target target @ '':'' @ remote_dir @ ''/''], [])) (\<lambda>out.
       ssh_lift (map_result (\<lambda>_. ()) (output_text out ''release upload''))))"

section \<open>Inspecting a host\<close>

definition inspect_host :: "ssh_env \<Rightarrow> SshTarget \<Rightarrow> SshHostIdentity ssh" where
  "inspect_host env target =
     ssh_then (ssh_lift (validate_target (xe_metadata env) target)) (\<lambda>_.
     ssh_then (require_command env ''ssh-keyscan'') (\<lambda>_.
     ssh_then (require_command env ''ssh-keygen'') (\<lambda>_.
     ssh_then (launch env (''ssh-keyscan'',
         [''-T'', ''10'', ''-p'', show_nat (unat (tg_port target)), tg_host target], [])) (\<lambda>scan.
     ssh_then (ssh_lift (output_text scan ''SSH host-key scan'')) (\<lambda>stdout.
       let host_keys = retained_scan_lines target (lines stdout)
       in if host_keys = [] then ssh_lift (Inl NoHostKey)
          else
            ssh_then (launch env (''ssh-keygen'', [''-lf'', ''-''], join_with [line_feed] host_keys)) (\<lambda>printed.
            ssh_then (ssh_lift (output_text printed ''SSH fingerprint'')) (\<lambda>shown.
              ssh_lift (Inr \<lparr>hi_host_keys = host_keys,
                hi_fingerprints = filter (\<lambda>line. line \<noteq> []) (map trim_text (lines shown))\<rparr>))))))))"

definition persist_known_hosts :: "ssh_env \<Rightarrow> string list \<Rightarrow> string ssh" where
  "persist_known_hosts env keys st =
     (case xe_config_dir env of
        None \<Rightarrow> (Inl DirectoriesUnavailable, st)
      | Some config_dir \<Rightarrow>
          if xe_known_hosts_io env 0 then (Inl KnownHostsIo, st)
          else
            let existing =
                  (case xs_known_hosts st of
                     FileContent s \<Rightarrow> Inr s | FileMissing \<Rightarrow> Inr [] | FileUnreadable \<Rightarrow> Inl KnownHostsIo)
            in case rbind existing (\<lambda>s. merged_known_host_lines s keys) of
                 Inl e \<Rightarrow> (Inl e, st)
               | Inr merged \<Rightarrow>
                   if xe_known_hosts_io env 1 \<or> xe_known_hosts_io env 2 \<or> xe_known_hosts_io env 3 \<or>
                      xe_known_hosts_io env 4
                   then (Inl KnownHostsIo, st)
                   else (Inr (config_dir @ ''/ssh/known_hosts''),
                         st\<lparr>xs_known_hosts := FileContent (unlines merged)\<rparr>))"

section \<open>Installing\<close>

definition preflight_command :: string where
  \<open>preflight_command =
     ''set -eu; test "$(uname -s)" = Linux; command -v systemctl >/dev/null; '' @
     ''if test "$(id -u)" -ne 0; then command -v sudo >/dev/null; sudo -n true; fi; '' @
     ''printf '%s %s' "$(uname -s)" "$(uname -m)"''\<close>

definition temp_dir_command :: string where
  "temp_dir_command = ''set -eu; umask 077; mktemp -d /tmp/rackio-bootstrap.XXXXXX''"

definition privilege :: "SshTarget \<Rightarrow> string" where
  "privilege target = (if tg_user target = ''root'' then [] else ''sudo -n '')"

definition install_command :: "SshTarget \<Rightarrow> string \<Rightarrow> string \<Rightarrow> string \<Rightarrow> string \<Rightarrow> string" where
  "install_command target remote_dir installer archive checksum =
     ''set -eu; '' @ privilege target @ ''sh '' @ remote_dir @ ''/'' @ installer @ '' --archive '' @ remote_dir @ ''/'' @
     archive @ '' --checksum '' @ remote_dir @ ''/'' @ checksum"

definition pairing_command :: "SshTarget \<Rightarrow> string" where
  "pairing_command target =
     privilege target @ ''env RACKIO_SOCKET=/run/rackio/agent.sock /usr/local/bin/rackio pairing create''"

definition cleanup_command :: "string \<Rightarrow> string" where
  "cleanup_command remote_dir = ''rm -rf -- '' @ remote_dir"

definition extract_pairing_bundle :: "(string \<Rightarrow> json option) \<Rightarrow> string \<Rightarrow> (SshError, string) result" where
  "extract_pairing_bundle parse output =
     (case parse output of
        None \<Rightarrow> Inl InvalidPairingJson
      | Some response \<Rightarrow>
          if Option.bind (json_get response ''ok'') as_bool \<noteq> Some True
          then Inl (PairingRejected
                 (case get_str response ''error'' of None \<Rightarrow> ''Remote agent rejected pairing.'' | Some e \<Rightarrow> e))
          else case get_str response ''data'' of
                 None \<Rightarrow> Inl NoPairingBundle
               | Some bd \<Rightarrow> if starts_with ''rackio-pair:'' bd then Inr bd else Inl NoPairingBundle)"

definition perform_remote_install ::
  "ssh_env \<Rightarrow> SshBootstrapRequest \<Rightarrow> string \<Rightarrow> string \<Rightarrow> string \<Rightarrow> string \<Rightarrow> string \<Rightarrow> string ssh" where
  "perform_remote_install env request known_hosts remote_dir archive checksum installer =
     (let target = br_target request in
      ssh_then (run_scp env target known_hosts [archive, checksum, installer] remote_dir) (\<lambda>_.
      ssh_then (send_progress env ''installing'') (\<lambda>_.
      ssh_then (ssh_lift (shell_filename installer)) (\<lambda>installer_name.
      ssh_then (ssh_lift (shell_filename archive)) (\<lambda>archive_name.
      ssh_then (ssh_lift (shell_filename checksum)) (\<lambda>checksum_name.
      ssh_then (run_ssh env target known_hosts
          (install_command target remote_dir installer_name archive_name checksum_name)) (\<lambda>installed.
      ssh_then (ssh_lift (output_text installed ''remote Rackio install'')) (\<lambda>_.
      ssh_then (send_progress env ''pairing'') (\<lambda>_.
      ssh_then (run_ssh env target known_hosts (pairing_command target)) (\<lambda>paired.
      ssh_then (ssh_lift (output_text paired ''remote pairing'')) (\<lambda>output.
        ssh_lift (extract_pairing_bundle (xe_json env) output))))))))))))"

text \<open>The part that works on the remote machine, once its keys are stored.\<close>

definition bootstrap_remote ::
  "ssh_env \<Rightarrow> SshBootstrapRequest \<Rightarrow> string \<Rightarrow> string \<Rightarrow> string \<Rightarrow> SshBootstrapResult ssh" where
  "bootstrap_remote env request archive checksum known_hosts =
     (let target = br_target request in
      ssh_then (send_progress env ''checking_access'') (\<lambda>_.
      ssh_then (run_ssh env target known_hosts preflight_command) (\<lambda>preflight.
      ssh_then (ssh_lift (output_text preflight ''SSH preflight'')) (\<lambda>remote_platform.
      ssh_then (send_progress env ''uploading'') (\<lambda>_.
      ssh_then (run_ssh env target known_hosts temp_dir_command) (\<lambda>created.
      ssh_then (ssh_lift (output_text created ''remote temporary directory'')) (\<lambda>remote_dir.
      ssh_then (ssh_lift (validate_remote_temp_dir remote_dir)) (\<lambda>_.
      ssh_then (ssh_lift (ok_or InstallerUnavailable (xe_installer env))) (\<lambda>installer. \<lambda>st.
        let (res, st) = perform_remote_install env request known_hosts remote_dir archive checksum installer st;
            st = snd (run_ssh env target known_hosts (cleanup_command remote_dir) st)
        in ssh_then (ssh_lift res) (\<lambda>pairing_bundle.
           ssh_then (send_progress env ''connecting_p2p'') (\<lambda>_.
             ssh_lift (Inr \<lparr>bs_pairing_bundle = pairing_bundle, bs_remote_platform = remote_platform\<rparr>))) st)))))))))"

definition bootstrap :: "ssh_env \<Rightarrow> SshBootstrapRequest \<Rightarrow> SshBootstrapResult ssh" where
  "bootstrap env request =
     ssh_then (ssh_lift (validate_target (xe_metadata env) (br_target request))) (\<lambda>_.
     ssh_then (ssh_lift (validate_local_file (xe_metadata env) (br_archive_path request) ''release archive'')) (\<lambda>archive.
     ssh_then (ssh_lift (validate_local_file (xe_metadata env) (br_checksum_path request) ''release checksum'')) (\<lambda>checksum.
       if br_accepted_host_keys request = [] then ssh_lift (Inl FingerprintNotConfirmed)
       else
         ssh_then (send_progress env ''checking_host_key'') (\<lambda>_.
         ssh_then (inspect_host env (br_target request)) (\<lambda>current_identity.
           if normalized_key_set (br_accepted_host_keys request) \<noteq> normalized_key_set (hi_host_keys current_identity)
           then ssh_lift (Inl HostKeyChanged)
           else
             ssh_then (persist_known_hosts env (hi_host_keys current_identity)) (\<lambda>known_hosts.
               bootstrap_remote env request archive checksum known_hosts))))))"

section \<open>Trust on first use\<close>

text \<open>The keys the file trusts for a host field and a key type.\<close>

definition trusted_lines :: "string read_outcome \<Rightarrow> string set" where
  "trusted_lines outcome =
     (case outcome of
        FileContent s \<Rightarrow> set (filter literal_host_key_line (map trim_text (lines s)))
      | _ \<Rightarrow> {})"

definition trusted :: "string read_outcome \<Rightarrow> string \<Rightarrow> string \<Rightarrow> string set" where
  "trusted outcome host key_type = {key. \<exists>line \<in> trusted_lines outcome. known_hosts_entry line = Some (host, key_type, key)}"

lemma detect_host_key_conflict_Inr:
  "detect_host_key_conflict existing incoming = Inr () \<longleftrightarrow>
     (\<forall>line \<in> set incoming. \<forall>known \<in> set existing. conflicting line known = None)"
proof -
  have "detect_host_key_conflict existing incoming = Inr () \<longleftrightarrow>
      concat (map (\<lambda>line. List.map_filter (conflicting line) existing) incoming) = []"
    unfolding detect_host_key_conflict_def
    by (cases "concat (map (\<lambda>line. List.map_filter (conflicting line) existing) incoming)")
      (auto simp del: concat_eq_Nil_conv)
  also have "\<dots> \<longleftrightarrow> (\<forall>line \<in> set incoming. \<forall>known \<in> set existing. conflicting line known = None)"
    by (simp add: List.map_filter_def filter_empty_conv del: not_None_eq)
  finally show ?thesis .
qed

lemma merged_known_host_lines_Inr:
  assumes "merged_known_host_lines existing keys = Inr merged" and "\<forall>key \<in> set keys. line_feed \<notin> set key"
  shows "trusted_lines (FileContent (unlines merged)) =
      trusted_lines (FileContent existing) \<union> {line \<in> set (normalized_key_set keys). literal_host_key_line line}"
    and "\<forall>line \<in> set (normalized_key_set keys). literal_host_key_line line \<longrightarrow>
      (\<forall>known \<in> trusted_lines (FileContent existing). conflicting line known = None)"
proof -
  define old where "old = btree_set (filter literal_host_key_line (map trim_text (lines existing)))"
  define new where "new = filter literal_host_key_line (normalized_key_set keys)"
  have merged: "merged = btree_set (old @ new)" and free: "detect_host_key_conflict old new = Inr ()"
    using assms(1) by (auto simp: merged_known_host_lines_def Let_def rbind_eq_Inr old_def new_def)
  have keys: "set new = {line \<in> set (normalized_key_set keys). literal_host_key_line line}"
    and olds: "set old = trusted_lines (FileContent existing)"
    by (auto simp: new_def old_def trusted_lines_def)
  have trimmed: "\<exists>s. line = trim_text s \<and> line_feed \<notin> set s" if "line \<in> set merged" for line
    using that assms(2) lines_clean [of _ existing]
    by (auto simp: merged old_def new_def normalized_key_set_def)
  then have "lines (unlines merged) = merged"
    by (intro lines_unlines ballI) (metis strip_return_trim subsetD trim_text_from)+
  moreover have "trim_text line = line \<and> literal_host_key_line line" if "line \<in> set merged" for line
    using that by (auto simp: merged old_def new_def normalized_key_set_def)
  then have "filter literal_host_key_line (map trim_text merged) = merged"
    by (simp add: map_idI filter_id_conv)
  ultimately show "trusted_lines (FileContent (unlines merged)) =
      trusted_lines (FileContent existing) \<union> {line \<in> set (normalized_key_set keys). literal_host_key_line line}"
    using keys olds by (simp add: trusted_lines_def merged del: set_map)
  show "\<forall>line \<in> set (normalized_key_set keys). literal_host_key_line line \<longrightarrow>
      (\<forall>known \<in> trusted_lines (FileContent existing). conflicting line known = None)"
    using free keys olds by (auto simp: detect_host_key_conflict_Inr)
qed

text \<open>Storing keys either changes nothing, or adds them to the trusted lines without a conflict.\<close>

lemma persist_known_hosts_cases:
  assumes "persist_known_hosts env keys st = (res, st')" and "\<forall>key \<in> set keys. line_feed \<notin> set key"
  obtains e where "res = Inl e" "st' = st"
  | path merged where "res = Inr path" "st' = st\<lparr>xs_known_hosts := FileContent (unlines merged)\<rparr>"
      "xe_config_dir env \<noteq> None" "path = the (xe_config_dir env) @ ''/ssh/known_hosts''"
      "trusted_lines (xs_known_hosts st') =
         trusted_lines (xs_known_hosts st) \<union> {line \<in> set (normalized_key_set keys). literal_host_key_line line}"
      "\<forall>line \<in> set (normalized_key_set keys). literal_host_key_line line \<longrightarrow>
         (\<forall>known \<in> trusted_lines (xs_known_hosts st). conflicting line known = None)"
proof (cases res)
  case (Inl e)
  then have "st' = st"
    using assms(1) by (auto simp: persist_known_hosts_def Let_def split: option.splits if_splits sum.splits)
  then show ?thesis using Inl that(1) by blast
next
  case (Inr path)
  then obtain merged s where stored: "st' = st\<lparr>xs_known_hosts := FileContent (unlines merged)\<rparr>"
    "xe_config_dir env \<noteq> None" "path = the (xe_config_dir env) @ ''/ssh/known_hosts''"
    "merged_known_host_lines s keys = Inr merged" "xs_known_hosts st = FileContent s \<or> xs_known_hosts st = FileMissing \<and> s = []"
    using assms(1)
    by (auto simp: persist_known_hosts_def Let_def rbind_eq_Inr split: option.splits if_splits sum.splits read_outcome.splits)
  have "trusted_lines (FileContent s) = trusted_lines (xs_known_hosts st)"
    using stored(5) by (auto simp: trusted_lines_def lines_def split_on_def)
  then show ?thesis
    using that(2) [OF Inr stored(1-3)] merged_known_host_lines_Inr [OF stored(4) assms(2)] stored(1) by simp
qed
section \<open>What a run can do\<close>

text \<open>\<open>runs P m Q\<close>: every process \<open>m\<close> starts satisfies \<open>P\<close>, and a value it returns satisfies \<open>Q\<close>.\<close>

definition runs :: "(invocation \<Rightarrow> bool) \<Rightarrow> 'a ssh \<Rightarrow> ('a \<Rightarrow> bool) \<Rightarrow> bool" where
  "runs P m Q \<longleftrightarrow>
     (\<forall>st. (\<exists>new. xs_log (snd (m st)) = xs_log st @ new \<and> list_all P new) \<and> (\<forall>x. fst (m st) = Inr x \<longrightarrow> Q x) \<and>
        xs_known_hosts (snd (m st)) = xs_known_hosts st)"

lemma runsD:
  assumes "runs P m Q" and "m st = (res, st')"
  shows "\<exists>new. xs_log st' = xs_log st @ new \<and> list_all P new" and "res = Inr x \<Longrightarrow> Q x"
    and "xs_known_hosts st' = xs_known_hosts st"
  using assms unfolding runs_def by (metis fst_conv snd_conv)+

lemma runs_weaken: "runs P m R \<Longrightarrow> (\<And>x. R x \<Longrightarrow> Q x) \<Longrightarrow> runs P m Q"
  unfolding runs_def by blast

lemma runs_lift: "(\<And>x. r = Inr x \<Longrightarrow> Q x) \<Longrightarrow> runs P (ssh_lift r) Q"
  by (simp add: runs_def ssh_lift_def)

lemma runs_then:
  assumes m: "runs P m R" and f: "\<And>x. R x \<Longrightarrow> runs P (f x) Q"
  shows "runs P (ssh_then m f) Q"
  unfolding runs_def
proof (intro allI)
  fix st
  obtain res st' where step: "m st = (res, st')" by fastforce
  note d = runsD [OF m step]
  show "(\<exists>new. xs_log (snd (ssh_then m f st)) = xs_log st @ new \<and> list_all P new) \<and>
      (\<forall>x. fst (ssh_then m f st) = Inr x \<longrightarrow> Q x) \<and> xs_known_hosts (snd (ssh_then m f st)) = xs_known_hosts st"
  proof (cases res)
    case (Inl e)
    then show ?thesis using d step by (simp add: ssh_then_def)
  next
    case (Inr x)
    obtain new where new: "xs_log st' = xs_log st @ new" "list_all P new" using d(1) by blast
    obtain res2 st2 where step2: "f x st' = (res2, st2)" by fastforce
    note d2 = runsD [OF f [OF d(2) [OF Inr]] step2]
    obtain new2 where "xs_log st2 = xs_log st' @ new2" "list_all P new2" using d2(1) by blast
    then have "xs_log st2 = xs_log st @ (new @ new2) \<and> list_all P (new @ new2)" using new by simp
    then show ?thesis using Inr step step2 d2 d(3) by (auto simp: ssh_then_def)
  qed
qed

lemma runs_launch: "P invocation \<Longrightarrow> runs P (launch env invocation) (\<lambda>_. True)"
  by (simp add: runs_def launch_def Let_def)

lemma runs_require: "runs P (require_command env name) (\<lambda>_. True)"
  by (simp add: require_command_def runs_lift)

lemma runs_progress: "runs P (send_progress env stage) (\<lambda>_. True)"
  by (simp add: runs_def send_progress_def)

text \<open>What a remote command can be, for a given target.\<close>

definition safe_dir :: "string \<Rightarrow> bool" where
  "safe_dir dir \<longleftrightarrow> starts_with ''/tmp/rackio-bootstrap.'' dir \<and> list_all path_char dir \<and> ''..'' \<notin> set (split_on (CHR ''/'') dir)"

definition safe_name :: "string \<Rightarrow> bool" where
  "safe_name name \<longleftrightarrow> name \<noteq> [] \<and> list_all name_char name"

definition known_command :: "SshTarget \<Rightarrow> string \<Rightarrow> bool" where
  "known_command target command \<longleftrightarrow>
     command \<in> {preflight_command, temp_dir_command, pairing_command target} \<or>
     (\<exists>dir. safe_dir dir \<and>
        (command = cleanup_command dir \<or>
         (\<exists>i a c. safe_name i \<and> safe_name a \<and> safe_name c \<and> command = install_command target dir i a c)))"

definition remote_invocation :: "SshTarget \<Rightarrow> string \<Rightarrow> invocation \<Rightarrow> bool" where
  "remote_invocation target known_hosts invocation \<longleftrightarrow>
     (\<exists>command. known_command target command \<and>
        invocation = (''ssh'', ssh_options target known_hosts @ [remote_target target, command], [])) \<or>
     (\<exists>local_files dir. safe_dir dir \<and>
        invocation = (''scp'', ''-P'' # safe_options target known_hosts @ local_files @
          [remote_target target @ '':'' @ dir @ ''/''], []))"

lemma validate_remote_temp_dir_iff: "validate_remote_temp_dir dir = Inr () \<longleftrightarrow> safe_dir dir"
  by (auto simp: validate_remote_temp_dir_def safe_dir_def list_ex_iff list_all_iff)

lemma shell_filename_Inr: "shell_filename path = Inr name \<Longrightarrow> safe_name name"
  by (auto simp: shell_filename_def safe_name_def split: option.splits if_splits)

lemma runs_ssh:
  "known_command target command \<Longrightarrow>
     runs (remote_invocation target known_hosts) (run_ssh env target known_hosts command) (\<lambda>_. True)"
  unfolding run_ssh_def by (intro runs_then [OF runs_require] runs_launch) (auto simp: remote_invocation_def)

lemma runs_scp:
  "safe_dir dir \<Longrightarrow>
     runs (remote_invocation target known_hosts) (run_scp env target known_hosts local_files dir) (\<lambda>_. True)"
  unfolding run_scp_def
  by (intro runs_then [OF runs_require] runs_then [OF runs_launch] runs_lift) (auto simp: remote_invocation_def)

lemma runs_install:
  assumes "safe_dir dir"
  shows "runs (remote_invocation (br_target request) known_hosts)
    (perform_remote_install env request known_hosts dir archive checksum installer) (starts_with ''rackio-pair:'')"
proof -
  have bd: "extract_pairing_bundle parse s = Inr bd \<Longrightarrow> starts_with ''rackio-pair:'' bd" for parse s bd
    by (auto simp: extract_pairing_bundle_def split: option.splits if_splits)
  have "known_command (br_target request) (pairing_command (br_target request))" by (simp add: known_command_def)
  then show ?thesis
    unfolding perform_remote_install_def Let_def
    by (intro runs_then [OF runs_scp [OF assms]] runs_then [OF runs_progress]
        runs_then [OF runs_lift [of _ safe_name, OF shell_filename_Inr]] runs_then [OF runs_ssh]
        runs_then [OF runs_lift [of _ "\<lambda>_. True", OF TrueI]] runs_lift [OF bd])
      (use assms in \<open>auto simp: known_command_def\<close>)
qed
lemma runs_finally:
  assumes m: "runs P m Q" and c: "runs P c (\<lambda>_. True)" and f: "\<And>x. Q x \<Longrightarrow> runs P (f x) R"
  shows "runs P (\<lambda>st. let (res, st) = m st; st = snd (c st) in ssh_then (ssh_lift res) f st) R"
proof -
  have "runs P (\<lambda>st. (fst (m st), snd (c (snd (m st))))) Q"
    unfolding runs_def
  proof (intro allI)
    fix st
    obtain res st1 where step: "m st = (res, st1)" by fastforce
    obtain cleaned st2 where step2: "c st1 = (cleaned, st2)" by fastforce
    obtain new new2 where "xs_log st1 = xs_log st @ new" "list_all P new" "xs_log st2 = xs_log st1 @ new2" "list_all P new2"
      using runsD(1) [OF m step] runsD(1) [OF c step2] by blast
    then have "xs_log st2 = xs_log st @ (new @ new2) \<and> list_all P (new @ new2)" by simp
    then show "(\<exists>new. xs_log (snd (fst (m st), snd (c (snd (m st))))) = xs_log st @ new \<and> list_all P new) \<and>
        (\<forall>x. fst (fst (m st), snd (c (snd (m st)))) = Inr x \<longrightarrow> Q x) \<and>
        xs_known_hosts (snd (fst (m st), snd (c (snd (m st))))) = xs_known_hosts st"
      using runsD(2,3) [OF m step] runsD(3) [OF c step2] step step2 by auto
  qed
  from runs_then [OF this f] show ?thesis
    by (simp add: runs_def ssh_then_def ssh_lift_def case_prod_unfold Let_def cong: sum.case_cong)
qed

lemma runs_remote:
  "runs (remote_invocation (br_target request) known_hosts)
     (bootstrap_remote env request archive checksum known_hosts)
     (\<lambda>r. starts_with ''rackio-pair:'' (bs_pairing_bundle r))"
proof -
  have fixed: "known_command (br_target request) preflight_command" "known_command (br_target request) temp_dir_command"
    by (simp_all add: known_command_def)
  have cleanup: "safe_dir dir \<Longrightarrow> known_command (br_target request) (cleanup_command dir)" for dir
    by (auto simp: known_command_def)
  have dir: "runs P (ssh_lift (validate_remote_temp_dir d)) (\<lambda>_. safe_dir d)" for P d
    by (rule runs_lift) (simp add: validate_remote_temp_dir_iff)
  show ?thesis
    unfolding bootstrap_remote_def Let_def [of "br_target request"]
    by (intro runs_then [OF runs_progress] runs_then [OF runs_ssh [OF fixed(1)]] runs_then [OF runs_ssh [OF fixed(2)]]
        runs_then [OF dir] runs_then [OF runs_lift [of _ "\<lambda>_. True", OF TrueI]] runs_finally [OF runs_install runs_ssh [OF cleanup]]
        runs_lift) auto
qed

definition keyscan :: "SshTarget \<Rightarrow> invocation" where
  "keyscan target = (''ssh-keyscan'', [''-T'', ''10'', ''-p'', show_nat (unat (tg_port target)), tg_host target], [])"

text \<open>An inspection only scans and prints, and its keys are the lines of this very scan that name the target.\<close>

lemma inspect_host_runs:
  "runs (\<lambda>invocation. invocation = keyscan target \<or> fst invocation = ''ssh-keygen'') (inspect_host env target) (\<lambda>_. True)"
  unfolding inspect_host_def Let_def
  by (intro runs_then [OF runs_require] runs_then [OF runs_launch] runs_then [OF runs_lift [of _ "\<lambda>_. True", OF TrueI]])
    (auto simp: keyscan_def intro!: runs_lift runs_then [OF runs_launch] runs_then [OF runs_lift [of _ "\<lambda>_. True", OF TrueI]])

lemma inspect_host_Inr:
  assumes "inspect_host env target st = (Inr ident, st')"
  shows "\<exists>out err. xe_run env (length (xs_log st)) (keyscan target) = Exited True (Some out) err \<and>
    hi_host_keys ident = retained_scan_lines target (lines (trim_text out))"
proof -
  obtain scan where scan: "launch env (keyscan target) st = (Inr scan, snd (launch env (keyscan target) st))"
    "\<exists>out. output_text scan ''SSH host-key scan'' = Inr out \<and> hi_host_keys ident = retained_scan_lines target (lines out)"
    using assms
    by (auto simp: inspect_host_def ssh_then_def ssh_lift_def require_command_def keyscan_def Let_def
        split: sum.splits prod.splits if_splits)
  have "xe_run env (length (xs_log st)) (keyscan target) = scan"
    using scan(1) by (auto simp: launch_def Let_def split: if_splits)
  then show ?thesis using scan(2) by (cases scan) (auto split: if_splits option.splits)
qed

text \<open>How far a bootstrap gets: it stops on this machine, or the scanned keys are the confirmed ones and are stored.\<close>

lemma bootstrap_cases:
  assumes "bootstrap env request st = (res, st')"
  obtains (stopped) e new where "res = Inl e" "xs_known_hosts st' = xs_known_hosts st" "xs_log st' = xs_log st @ new"
      "\<forall>invocation \<in> set new. invocation = keyscan (br_target request) \<or> fst invocation = ''ssh-keygen''"
  | (confirmed) ident scanned st1 known_hosts st2 archive checksum where
      "validate_target (xe_metadata env) (br_target request) = Inr ()" "br_accepted_host_keys request \<noteq> []"
      "xs_log scanned = xs_log st" "xs_known_hosts scanned = xs_known_hosts st"
      "inspect_host env (br_target request) scanned = (Inr ident, st1)"
      "normalized_key_set (br_accepted_host_keys request) = normalized_key_set (hi_host_keys ident)"
      "persist_known_hosts env (hi_host_keys ident) st1 = (Inr known_hosts, st2)"
      "bootstrap_remote env request archive checksum known_hosts st2 = (res, st')"
proof -
  note steps = bootstrap_def ssh_then_def ssh_lift_def
  let ?start = "send_progress env ''checking_host_key'' st"
  obtain started st0 where start: "?start = (started, st0)" by fastforce
  obtain inspected st1 where inspect: "inspect_host env (br_target request) st0 = (inspected, st1)" by fastforce
  have same: "xs_log st0 = xs_log st" "xs_known_hosts st0 = xs_known_hosts st"
    using start by (auto simp: send_progress_def split: if_splits)
  note looked = runsD [OF inspect_host_runs inspect]
  obtain new where new: "xs_log st1 = xs_log st @ new"
    "\<forall>invocation \<in> set new. invocation = keyscan (br_target request) \<or> fst invocation = ''ssh-keygen''"
    using looked(1) same by (auto simp: list_all_iff)
  have kept: "\<exists>e. persisted = Inl e \<Longrightarrow> persist_known_hosts env keys st1 = (persisted, st2) \<Longrightarrow> st2 = st1"
    for persisted keys st2
    by (auto simp: persist_known_hosts_def Let_def split: option.splits if_splits sum.splits)
  show thesis
  proof (cases "\<exists>ident known_hosts. inspected = Inr ident \<and> started = Inr () \<and> br_accepted_host_keys request \<noteq> [] \<and>
      validate_target (xe_metadata env) (br_target request) = Inr () \<and>
      is_ok (validate_local_file (xe_metadata env) (br_archive_path request) ''release archive'') \<and>
      is_ok (validate_local_file (xe_metadata env) (br_checksum_path request) ''release checksum'') \<and>
      normalized_key_set (br_accepted_host_keys request) = normalized_key_set (hi_host_keys ident) \<and>
      fst (persist_known_hosts env (hi_host_keys ident) st1) = Inr known_hosts")
    case True
    then show thesis
      using confirmed [of st0 _ st1 _ _ "br_archive_path request" "br_checksum_path request"] same start inspect assms
      by (auto simp: steps is_ok_iff validate_local_file_def split: prod.splits sum.splits option.splits if_splits)
  next
    case False
    then have "(\<exists>e. res = Inl e) \<and> (st' = st \<or> st' = st0 \<or> st' = st1)"
      using assms start inspect kept
      by (auto simp: steps is_ok_iff validate_local_file_def split: prod.splits sum.splits option.splits if_splits)
    then show thesis
      using stopped [of _ "[]"] stopped [of _ new] same looked(3) new by auto
  qed
qed

lemma retained_scan_lines_facts:
  assumes "line \<in> set (retained_scan_lines target ls)"
  shows "trim_text line = line" "line \<noteq> []" "literal_host_key_line line"
    and "\<exists>host key_type key. known_hosts_entry line = Some (host, key_type, key) \<and>
      (\<exists>token \<in> set (scan_host_tokens target). eq_ignore_ascii_case host token)"
  using assms by (auto simp: retained_scan_lines_def list_ex_iff split: option.splits)

lemma retained_scan_lines_clean: "line \<in> set (retained_scan_lines target (lines s)) \<Longrightarrow> line_feed \<notin> set line"
  using lines_clean trim_text_from by (fastforce simp: retained_scan_lines_def)

lemma normalized_scan:
  "set (normalized_key_set (retained_scan_lines target ls)) = set (retained_scan_lines target ls)"
proof -
  have "map trim_text (retained_scan_lines target ls) = retained_scan_lines target ls"
    by (simp add: map_idI retained_scan_lines_facts)
  moreover have "[] \<notin> set (retained_scan_lines target ls)" using retained_scan_lines_facts(2) by blast
  ultimately show ?thesis by (auto simp: normalized_key_set_def)
qed

text \<open>The keys of a confirmed scan as the file trusts them afterwards.\<close>

lemma confirmed_scan:
  assumes "inspect_host env target st = (Inr ident, st1)"
    and "persist_known_hosts env (hi_host_keys ident) st1 = (Inr known_hosts, st2)"
  shows "trusted_lines (xs_known_hosts st2) = trusted_lines (xs_known_hosts st) \<union> set (normalized_key_set (hi_host_keys ident))"
    and "\<forall>line \<in> set (normalized_key_set (hi_host_keys ident)).
      (\<forall>known \<in> trusted_lines (xs_known_hosts st). conflicting line known = None) \<and>
      (\<exists>host key_type key. known_hosts_entry line = Some (host, key_type, key) \<and>
        (\<exists>token \<in> set (scan_host_tokens target). eq_ignore_ascii_case host token))"
    and "xe_config_dir env \<noteq> None" "known_hosts = the (xe_config_dir env) @ ''/ssh/known_hosts''"
proof -
  obtain out where keys: "hi_host_keys ident = retained_scan_lines target (lines (trim_text out))"
    using inspect_host_Inr [OF assms(1)] by blast
  have clean: "\<forall>key \<in> set (hi_host_keys ident). line_feed \<notin> set key"
    unfolding keys using retained_scan_lines_clean by blast
  have literal: "\<forall>line \<in> set (normalized_key_set (hi_host_keys ident)). literal_host_key_line line"
    unfolding keys normalized_scan using retained_scan_lines_facts(3) by blast
  have before: "xs_known_hosts st1 = xs_known_hosts st" by (rule runsD(3) [OF inspect_host_runs assms(1)])
  obtain merged where "trusted_lines (xs_known_hosts st2) =
      trusted_lines (xs_known_hosts st) \<union> {line \<in> set (normalized_key_set (hi_host_keys ident)). literal_host_key_line line}"
    "\<forall>line \<in> set (normalized_key_set (hi_host_keys ident)). literal_host_key_line line \<longrightarrow>
       (\<forall>known \<in> trusted_lines (xs_known_hosts st). conflicting line known = None)"
    "xe_config_dir env \<noteq> None" "known_hosts = the (xe_config_dir env) @ ''/ssh/known_hosts''"
    by (rule persist_known_hosts_cases [OF assms(2) clean]) (auto simp: before)
  moreover have "\<forall>line \<in> set (normalized_key_set (hi_host_keys ident)).
      \<exists>host key_type key. known_hosts_entry line = Some (host, key_type, key) \<and>
        (\<exists>token \<in> set (scan_host_tokens target). eq_ignore_ascii_case host token)"
    unfolding keys normalized_scan using retained_scan_lines_facts(4) by blast
  ultimately show "trusted_lines (xs_known_hosts st2) =
      trusted_lines (xs_known_hosts st) \<union> set (normalized_key_set (hi_host_keys ident))"
    and "\<forall>line \<in> set (normalized_key_set (hi_host_keys ident)).
      (\<forall>known \<in> trusted_lines (xs_known_hosts st). conflicting line known = None) \<and>
      (\<exists>host key_type key. known_hosts_entry line = Some (host, key_type, key) \<and>
        (\<exists>token \<in> set (scan_host_tokens target). eq_ignore_ascii_case host token))"
    and "xe_config_dir env \<noteq> None" "known_hosts = the (xe_config_dir env) @ ''/ssh/known_hosts''"
    using literal by auto
qed

section \<open>Properties\<close>

text \<open>
  C18. A bootstrap reaches only the host the operator confirmed, and runs only its own commands there. Whatever the
  scanned server answers, the processes a run starts are one kind of scan, the fingerprint printer, and, only when the
  keys of this run's scan are exactly the confirmed ones and all of them are in the desktop's \<open>known_hosts\<close>, \<open>ssh\<close> and
  \<open>scp\<close> to that target with strict checking against that file. Every remote command is one of five fixed texts whose only
  variable parts are a directory below \<open>/tmp/rackio-bootstrap.\<close> without \<open>..\<close> and file names, all of harmless characters;
  and a success carries a pairing bundle.
\<close>

theorem bootstrap_only_reaches_the_confirmed_host:
  assumes "bootstrap env request st = (res, st')"
  shows "(\<exists>new. xs_log st' = xs_log st @ new \<and>
      (\<forall>invocation \<in> set new.
        invocation = keyscan (br_target request) \<or> fst invocation = ''ssh-keygen'' \<or>
        (\<exists>config_dir out err. xe_config_dir env = Some config_dir \<and>
           remote_invocation (br_target request) (config_dir @ ''/ssh/known_hosts'') invocation \<and>
           validate_target (xe_metadata env) (br_target request) = Inr () \<and> br_accepted_host_keys request \<noteq> [] \<and>
           xe_run env (length (xs_log st)) (keyscan (br_target request)) = Exited True (Some out) err \<and>
           normalized_key_set (br_accepted_host_keys request) =
             normalized_key_set (retained_scan_lines (br_target request) (lines (trim_text out))) \<and>
           set (normalized_key_set (br_accepted_host_keys request)) \<subseteq> trusted_lines (xs_known_hosts st')))) \<and>
    (\<forall>r. res = Inr r \<longrightarrow> starts_with ''rackio-pair:'' (bs_pairing_bundle r))"
  using assms
proof (cases rule: bootstrap_cases)
  case (stopped e new)
  then show ?thesis by auto
next
  case (confirmed ident scanned st1 known_hosts st2 archive checksum)
  let ?target = "br_target request"
  note scan = confirmed_scan [OF confirmed(5,7)]
  note remote = runsD [OF runs_remote confirmed(8)]
  obtain out err where keys: "xe_run env (length (xs_log st)) (keyscan ?target) = Exited True (Some out) err"
    "hi_host_keys ident = retained_scan_lines ?target (lines (trim_text out))"
    using inspect_host_Inr [OF confirmed(5)] confirmed(3) by auto
  obtain new where new: "xs_log st1 = xs_log st @ new"
    "\<forall>invocation \<in> set new. invocation = keyscan ?target \<or> fst invocation = ''ssh-keygen''"
    using runsD(1) [OF inspect_host_runs confirmed(5)] confirmed(3) by (auto simp: list_all_iff)
  have log2: "xs_log st2 = xs_log st1"
    using confirmed(7)
    by (auto simp: persist_known_hosts_def Let_def split: option.splits if_splits sum.splits)
  obtain done_remotely where more: "xs_log st' = xs_log st @ (new @ done_remotely)"
    "\<forall>invocation \<in> set done_remotely. remote_invocation ?target known_hosts invocation"
    using remote(1) new(1) log2 by (auto simp: list_all_iff)
  have "set (normalized_key_set (br_accepted_host_keys request)) \<subseteq> trusted_lines (xs_known_hosts st')"
    using scan(1) remote(3) confirmed(6) by auto
  then have "\<forall>invocation \<in> set (new @ done_remotely).
      invocation = keyscan ?target \<or> fst invocation = ''ssh-keygen'' \<or>
      (\<exists>config_dir out err. xe_config_dir env = Some config_dir \<and>
         remote_invocation ?target (config_dir @ ''/ssh/known_hosts'') invocation \<and>
         validate_target (xe_metadata env) ?target = Inr () \<and> br_accepted_host_keys request \<noteq> [] \<and>
         xe_run env (length (xs_log st)) (keyscan ?target) = Exited True (Some out) err \<and>
         normalized_key_set (br_accepted_host_keys request) =
           normalized_key_set (retained_scan_lines ?target (lines (trim_text out))) \<and>
         set (normalized_key_set (br_accepted_host_keys request)) \<subseteq> trusted_lines (xs_known_hosts st'))"
    using new(2) more(2) scan(3,4) keys confirmed(1,2,6) by auto
  then show ?thesis using more(1) remote(2) by blast
qed

text \<open>Any number of bootstraps, one after the other.\<close>

definition run_bootstraps :: "(ssh_env \<times> SshBootstrapRequest) list \<Rightarrow> bootstrap_state \<Rightarrow> bootstrap_state" where
  "run_bootstraps calls st = foldl (\<lambda>st (env, request). snd (bootstrap env request st)) st calls"

lemma bootstrap_trust:
  assumes "bootstrap env request st = (res, st')"
  shows "trusted_lines (xs_known_hosts st') = trusted_lines (xs_known_hosts st) \<or>
    (\<exists>new. trusted_lines (xs_known_hosts st') = trusted_lines (xs_known_hosts st) \<union> new \<and>
       new = set (normalized_key_set (br_accepted_host_keys request)) \<and>
       (\<forall>line \<in> new. (\<forall>known \<in> trusted_lines (xs_known_hosts st). conflicting line known = None) \<and>
         (\<exists>host key_type key. known_hosts_entry line = Some (host, key_type, key) \<and>
            (\<exists>token \<in> set (scan_host_tokens (br_target request)). eq_ignore_ascii_case host token))))"
  using assms
proof (cases rule: bootstrap_cases)
  case (confirmed ident scanned st1 known_hosts st2 archive checksum)
  note scan = confirmed_scan [OF confirmed(5,7)]
  show ?thesis
    using scan(1,2) runsD(3) [OF runs_remote confirmed(8)] confirmed(4,6) by auto
qed simp

lemma bootstrap_keeps_trusted:
  assumes "trusted (xs_known_hosts st) host key_type \<noteq> {}"
  shows "trusted (xs_known_hosts (snd (bootstrap env request st))) host key_type = trusted (xs_known_hosts st) host key_type"
proof -
  let ?old = "trusted_lines (xs_known_hosts st)"
  obtain known key where known: "known \<in> ?old" "known_hosts_entry known = Some (host, key_type, key)"
    using assms by (auto simp: trusted_def)
  have agree: "key' = key"
    if "conflicting line known = None" "known_hosts_entry line = Some (host, key_type, key')" for line key'
    using that known(2) by (auto simp: conflicting_def split: if_splits)
  from bootstrap_trust [OF surjective_pairing [of "bootstrap env request st"]]
  obtain new where grown: "trusted_lines (xs_known_hosts (snd (bootstrap env request st))) = ?old \<union> new"
    and free: "\<forall>line \<in> new. conflicting line known = None"
    using known(1) by auto
  show ?thesis
    unfolding trusted_def grown using known agree free by (auto; metis)
qed

text \<open>
  C19. A key the desktop trusts is never replaced. Over any sequence of bootstraps, of any targets and whatever the
  servers answer and whichever file operations fail, the keys trusted for a host field and key type stay exactly what
  they were once there are any; a line one run adds was confirmed by the operator and names the scanned target itself, so
  no marker, pattern, hashed entry or foreign host ever enters the file.
\<close>

theorem trusted_keys_never_replaced:
  assumes "trusted (xs_known_hosts st) host key_type \<noteq> {}"
  shows "trusted (xs_known_hosts (run_bootstraps calls st)) host key_type = trusted (xs_known_hosts st) host key_type \<and>
    (\<forall>env request line.
       line \<in> trusted_lines (xs_known_hosts (snd (bootstrap env request st))) - trusted_lines (xs_known_hosts st) \<longrightarrow>
       line \<in> set (normalized_key_set (br_accepted_host_keys request)) \<and>
       (\<exists>named key_type' key. known_hosts_entry line = Some (named, key_type', key) \<and>
          (\<exists>token \<in> set (scan_host_tokens (br_target request)). eq_ignore_ascii_case named token)))"
proof
  show "trusted (xs_known_hosts (run_bootstraps calls st)) host key_type = trusted (xs_known_hosts st) host key_type"
    unfolding run_bootstraps_def using assms
  proof (induction calls arbitrary: st)
    case (Cons call calls)
    then show ?case using bootstrap_keeps_trusted [OF Cons.prems] by (cases call) simp
  qed simp
qed (use bootstrap_trust [OF surjective_pairing] in fastforce)

definition witness_target :: SshTarget where
  "witness_target = \<lparr>tg_host = ''h'', tg_user = ''root'', tg_port = 22, tg_identity_file = None\<rparr>"

definition witness_request :: "string \<Rightarrow> SshBootstrapRequest" where
  "witness_request key =
     \<lparr>br_target = witness_target, br_accepted_host_keys = [''h ssh-ed25519 '' @ key], br_archive_path = ''/d/r.tgz'',
      br_checksum_path = ''/d/r.sum''\<rparr>"

text \<open>A server that answers one key, and a remote shell on which everything succeeds.\<close>

definition witness_ssh :: "string \<Rightarrow> ssh_env" where
  "witness_ssh key =
     \<lparr>xe_metadata = (\<lambda>_. Some True), xe_present = (\<lambda>_. True),
      xe_run = (\<lambda>_ (program, args, _). Exited True
        (Some (if program = ''ssh-keyscan'' then ''h ssh-ed25519 '' @ key
               else if last args = temp_dir_command then ''/tmp/rackio-bootstrap.a'' else ''x'')) []),
      xe_channel_fails = (\<lambda>_. False), xe_config_dir = Some ''/c'', xe_known_hosts_io = (\<lambda>_. False),
      xe_installer = Some ''/t/i.sh'',
      xe_json = (\<lambda>_. Some (json_object [(''ok'', JBool True), (''data'', JString ''rackio-pair:y'')]))\<rparr>"

definition fresh_desktop :: bootstrap_state where
  "fresh_desktop = \<lparr>xs_log = [], xs_known_hosts = FileMissing, xs_stages = []\<rparr>"

definition trusting_desktop :: bootstrap_state where
  "trusting_desktop = fresh_desktop\<lparr>xs_known_hosts := FileContent (unlines [''h ssh-ed25519 K''])\<rparr>"

theorem bootstrap_only_reaches_the_confirmed_host_witness:
  "\<exists>r st'. bootstrap (witness_ssh ''K'') (witness_request ''K'') fresh_desktop = (Inr r, st') \<and>
     map fst (xs_log st') = [''ssh-keyscan'', ''ssh-keygen'', ''ssh'', ''ssh'', ''scp'', ''ssh'', ''ssh'', ''ssh''] \<and>
     starts_with ''rackio-pair:'' (bs_pairing_bundle r) \<and> ''h ssh-ed25519 K'' \<in> trusted_lines (xs_known_hosts st')"
proof -
  let ?run = "bootstrap (witness_ssh ''K'') (witness_request ''K'') fresh_desktop"
  obtain res st' where run: "?run = (res, st')" by fastforce
  have "is_ok (fst ?run)" by code_simp
  then obtain r where ok: "res = Inr r" using run by (auto simp: is_ok_iff)
  have "map fst (xs_log (snd ?run)) = [''ssh-keyscan'', ''ssh-keygen'', ''ssh'', ''ssh'', ''scp'', ''ssh'', ''ssh'', ''ssh'']"
    by code_simp
  then have programs: "map fst (xs_log st') =
      [''ssh-keyscan'', ''ssh-keygen'', ''ssh'', ''ssh'', ''scp'', ''ssh'', ''ssh'', ''ssh'']"
    using run by simp
  note reached = bootstrap_only_reaches_the_confirmed_host [OF run]
  have "last (map fst (xs_log st')) = fst (last (xs_log st'))" using programs by (intro last_map) auto
  then have last: "fst (last (xs_log st')) = ''ssh''" unfolding programs by simp
  have "xs_log st' \<noteq> []" using programs by auto
  then have "last (xs_log st') \<in> set (xs_log st')" by simp
  moreover have "fst (keyscan (br_target (witness_request ''K''))) = ''ssh-keyscan''" by (simp add: keyscan_def)
  ultimately have "set (normalized_key_set (br_accepted_host_keys (witness_request ''K''))) \<subseteq> trusted_lines (xs_known_hosts st')"
    using reached last by (auto simp: fresh_desktop_def)
  moreover have "''h ssh-ed25519 K'' \<in> set (normalized_key_set (br_accepted_host_keys (witness_request ''K'')))"
    by code_simp
  ultimately show ?thesis using run ok programs reached by (intro exI [of _ r] exI [of _ st']) auto
qed

text \<open>A server with another key for the same host: the operator confirms it, and the file keeps the old one.\<close>

theorem trusted_keys_never_replaced_witness:
  "trusted (xs_known_hosts (run_bootstraps [(witness_ssh ''L'', witness_request ''L'')] trusting_desktop)) ''h'' ''ssh-ed25519'' =
     {''K''} \<and>
   fst (bootstrap (witness_ssh ''L'') (witness_request ''L'') trusting_desktop) = Inl (HostKeyConflict ''ssh-ed25519'' ''h'')"
proof -
  have "trusted_lines (xs_known_hosts trusting_desktop) = set [''h ssh-ed25519 K'']" by code_simp
  moreover have "known_hosts_entry ''h ssh-ed25519 K'' = Some (''h'', ''ssh-ed25519'', ''K'')" by code_simp
  ultimately have "trusted (xs_known_hosts trusting_desktop) ''h'' ''ssh-ed25519'' = {''K''}" by (auto simp: trusted_def)
  moreover have "fst (bootstrap (witness_ssh ''L'') (witness_request ''L'') trusting_desktop) =
      Inl (HostKeyConflict ''ssh-ed25519'' ''h'')"
    by code_simp
  ultimately show ?thesis
    using trusted_keys_never_replaced [of trusting_desktop "''h''" "''ssh-ed25519''"
        "[(witness_ssh ''L'', witness_request ''L'')]"] by simp
qed

end
