(* ===== verification/Desktop_Files.thy ===== *)
theory Desktop_Files
  imports Json Durable Text_Lines
begin

text \<open>
  The two files of the desktop shell: its preferences (\<open>preferences.rs\<close>) and the one-glyph badges of the machines
  (\<open>tray_badges.rs\<close>). Both are written beside their destination and renamed, and memory follows the file. What Unicode
  says of a text (grapheme clusters, upper case, control and white space) is a parameter.
\<close>

section \<open>Writing\<close>

text \<open>
  \<open>write\<close> and \<open>write_icons\<close>: the directory, the encoding, the temporary file, its content, the sync and the rename;
  \<open>io n\<close> says which file operation fails.
\<close>

definition write_json ::
  "('m, 'f) file_codec \<Rightarrow> (nat \<Rightarrow> bool) \<Rightarrow> 'm \<Rightarrow> 'f option \<Rightarrow> (persist_error, unit) result \<times> 'f option" where
  "write_json c io m stored =
     (if io 0 then (Inl PersistIo, stored)
      else case to_file c m of
             None \<Rightarrow> (Inl PersistJson, stored)
           | Some contents \<Rightarrow>
               if io 1 \<or> io 2 \<or> io 3 \<or> io 4 then (Inl PersistIo, stored) else (Inr (), Some contents))"

lemma write_json_cases:
  obtains e where "write_json c io m stored = (Inl e, stored)"
  | contents where "write_json c io m stored = (Inr (), Some contents)" "to_file c m = Some contents"
proof -
  have "(\<exists>e. write_json c io m stored = (Inl e, stored)) \<or>
      (\<exists>contents. write_json c io m stored = (Inr (), Some contents) \<and> to_file c m = Some contents)"
    by (cases "to_file c m") (simp_all add: write_json_def)
  then show thesis using that by blast
qed

section \<open>Preferences\<close>

datatype NotificationThreshold = NotifyWarning | NotifyDegraded | NotifyCritical | NotifyOffline

datatype Appearance = AppearanceSystem | AppearanceLight | AppearanceDark

record Preferences =
  pf_version :: u32
  pf_notifications_enabled :: bool
  pf_notification_threshold :: NotificationThreshold
  pf_appearance :: Appearance

definition CURRENT_VERSION :: u32 where "CURRENT_VERSION = 1"

definition Preferences_default :: Preferences where
  "Preferences_default =
     \<lparr>pf_version = CURRENT_VERSION, pf_notifications_enabled = False, pf_notification_threshold = NotifyCritical,
      pf_appearance = AppearanceSystem\<rparr>"

datatype PreferencesError =
  NoConfigDirectory | PreferencesUnreadable | PreferencesInvalid | UnsupportedVersion u32 | PreferencesUnavailable
| PreferencesNotSaved persist_error

record Loaded =
  ld_preferences :: Preferences
  ld_load_error :: "PreferencesError option"
  ld_persisted :: bool

text \<open>\<open>dp_path\<close> says whether there is a directory for the file, \<open>dp_file\<close> what the file holds.\<close>

record 'f DesktopPreferences =
  dp_path :: bool
  dp_state :: Loaded
  dp_poisoned :: bool
  dp_file :: "'f read_outcome"

type_synonym 'f preferences_codec = "(Preferences, 'f) file_codec"

definition preferences_read ::
  "'f preferences_codec \<Rightarrow> 'f read_outcome \<Rightarrow> (PreferencesError, Preferences option) result" where
  "preferences_read c outcome =
     (case outcome of
        FileMissing \<Rightarrow> Inr None
      | FileUnreadable \<Rightarrow> Inl PreferencesUnreadable
      | FileContent contents \<Rightarrow>
          rbind (ok_or PreferencesInvalid (of_file c contents)) (\<lambda>preferences.
            if pf_version preferences \<noteq> CURRENT_VERSION then Inl (UnsupportedVersion (pf_version preferences))
            else Inr (Some preferences)))"

definition loaded_state :: "'f preferences_codec \<Rightarrow> bool \<Rightarrow> 'f read_outcome \<Rightarrow> Loaded" where
  "loaded_state c has_dir outcome =
     (if \<not> has_dir
      then \<lparr>ld_preferences = Preferences_default, ld_load_error = Some NoConfigDirectory, ld_persisted = False\<rparr>
      else case preferences_read c outcome of
             Inr (Some preferences) \<Rightarrow> \<lparr>ld_preferences = preferences, ld_load_error = None, ld_persisted = True\<rparr>
           | Inr None \<Rightarrow> \<lparr>ld_preferences = Preferences_default, ld_load_error = None, ld_persisted = False\<rparr>
           | Inl e \<Rightarrow> \<lparr>ld_preferences = Preferences_default, ld_load_error = Some e, ld_persisted = False\<rparr>)"

definition preferences_load :: "'f preferences_codec \<Rightarrow> bool \<Rightarrow> 'f read_outcome \<Rightarrow> 'f DesktopPreferences" where
  "preferences_load c has_dir outcome =
     \<lparr>dp_path = has_dir, dp_state = loaded_state c has_dir outcome, dp_poisoned = False, dp_file = outcome\<rparr>"

definition preferences_view :: "'f DesktopPreferences \<Rightarrow> (PreferencesError, Loaded) result" where
  "preferences_view st = (if dp_poisoned st then Inl PreferencesUnavailable else Inr (dp_state st))"

definition file_content :: "'a read_outcome \<Rightarrow> 'a option" where
  "file_content outcome = (case outcome of FileContent f \<Rightarrow> Some f | _ \<Rightarrow> None)"

definition preferences_set ::
  "'f preferences_codec \<Rightarrow> (nat \<Rightarrow> bool) \<Rightarrow> Preferences \<Rightarrow> 'f DesktopPreferences \<Rightarrow>
   (PreferencesError, Loaded) result \<times> 'f DesktopPreferences" where
  "preferences_set c io next st =
     (if pf_version next \<noteq> CURRENT_VERSION then (Inl (UnsupportedVersion (pf_version next)), st)
      else if \<not> dp_path st then (Inl NoConfigDirectory, st)
      else if dp_poisoned st then (Inl PreferencesUnavailable, st)
      else case write_json c io next (file_content (dp_file st)) of
             (Inl e, _) \<Rightarrow> (Inl (PreferencesNotSaved e), st)
           | (Inr _, contents) \<Rightarrow>
               let st = st\<lparr>dp_state := \<lparr>ld_preferences = next, ld_load_error = None, ld_persisted = True\<rparr>,
                           dp_file := outcome_of contents\<rparr>
               in (preferences_view st, st))"

definition migrate_legacy ::
  "'f preferences_codec \<Rightarrow> (nat \<Rightarrow> bool) \<Rightarrow> bool \<Rightarrow> NotificationThreshold \<Rightarrow> 'f DesktopPreferences \<Rightarrow>
   (PreferencesError, Loaded) result \<times> 'f DesktopPreferences" where
  "migrate_legacy c io notifications_enabled threshold st =
     (if dp_poisoned st then (Inl PreferencesUnavailable, st)
      else if ld_persisted (dp_state st) then (preferences_view st, st)
      else preferences_set c io ((ld_preferences (dp_state st))
             \<lparr>pf_notifications_enabled := notifications_enabled, pf_notification_threshold := threshold\<rparr>) st)"

text \<open>The commands of the window: any number of them, each with its own failures.\<close>

datatype preferences_call = SetPreferences Preferences | MigrateLegacy bool NotificationThreshold

fun preferences_step ::
  "'f preferences_codec \<Rightarrow> (nat \<Rightarrow> bool) \<Rightarrow> preferences_call \<Rightarrow> 'f DesktopPreferences \<Rightarrow>
   (PreferencesError, Loaded) result \<times> 'f DesktopPreferences" where
  "preferences_step c io (SetPreferences next) st = preferences_set c io next st"
| "preferences_step c io (MigrateLegacy enabled threshold) st = migrate_legacy c io enabled threshold st"

definition preferences_run ::
  "'f preferences_codec \<Rightarrow> ((nat \<Rightarrow> bool) \<times> preferences_call) list \<Rightarrow> 'f DesktopPreferences \<Rightarrow> 'f DesktopPreferences" where
  "preferences_run c calls st = foldl (\<lambda>st (io, call). snd (preferences_step c io call st)) st calls"

text \<open>What one call does: nothing, or the new value is in the file and in memory.\<close>

lemma preferences_set_cases:
  assumes "codec_faithful c" and "preferences_set c io next st = (res, st')"
  obtains e where "res = Inl e" "st' = st"
  | contents where "res = Inr \<lparr>ld_preferences = next, ld_load_error = None, ld_persisted = True\<rparr>" "dp_path st"
      "st' = st\<lparr>dp_state := \<lparr>ld_preferences = next, ld_load_error = None, ld_persisted = True\<rparr>,
                dp_file := FileContent contents\<rparr>"
      "preferences_read c (FileContent contents) = Inr (Some next)"
proof (cases "pf_version next = CURRENT_VERSION \<and> dp_path st \<and> \<not> dp_poisoned st")
  case False
  then show ?thesis using assms(2) that(1) by (auto simp: preferences_set_def split: if_splits)
next
  case True
  show ?thesis
  proof (cases rule: write_json_cases [of c io "next" "file_content (dp_file st)"])
    case (1 e)
    then show ?thesis using True assms(2) that(1) by (auto simp: preferences_set_def)
  next
    case (2 contents)
    then have "of_file c contents = Some next" using assms(1) by (simp add: codec_faithful_def)
    then have "preferences_read c (FileContent contents) = Inr (Some next)"
      using True by (simp add: preferences_read_def)
    moreover have "res = Inr \<lparr>ld_preferences = next, ld_load_error = None, ld_persisted = True\<rparr>"
      "st' = st\<lparr>dp_state := \<lparr>ld_preferences = next, ld_load_error = None, ld_persisted = True\<rparr>,
                dp_file := FileContent contents\<rparr>"
      using True 2 assms(2) by (simp_all add: preferences_set_def preferences_view_def outcome_of_def Let_def)
    ultimately show ?thesis using that(2) True by blast
  qed
qed

definition preferences_ok :: "'f preferences_codec \<Rightarrow> 'f DesktopPreferences \<Rightarrow> bool" where
  "preferences_ok c st \<longleftrightarrow> dp_state st = loaded_state c (dp_path st) (dp_file st)"

lemma preferences_step_ok:
  assumes "codec_faithful c" and "preferences_ok c st" and "preferences_step c io call st = (res, st')"
  shows "preferences_ok c st' \<and> dp_path st' = dp_path st \<and> dp_poisoned st' = dp_poisoned st \<and>
    (\<not> is_ok res \<longrightarrow> st' = st)"
proof -
  have set: "preferences_ok c st2 \<and> dp_path st2 = dp_path st \<and> dp_poisoned st2 = dp_poisoned st \<and>
      (\<not> is_ok r \<longrightarrow> st2 = st)"
    if "preferences_set c io next st = (r, st2)" for "next" r st2
    using that assms(2)
    by (cases rule: preferences_set_cases [OF assms(1)]) (auto simp: preferences_ok_def loaded_state_def is_ok_iff)
  show ?thesis
  proof (cases call)
    case (SetPreferences "next")
    then show ?thesis using set assms(3) by simp
  next
    case (MigrateLegacy enabled threshold)
    then show ?thesis
      using set assms(2,3) by (auto simp: migrate_legacy_def split: if_splits)
  qed
qed

lemma preferences_run_ok:
  assumes "codec_faithful c" and "preferences_ok c st"
  shows "preferences_ok c (preferences_run c calls st) \<and> dp_path (preferences_run c calls st) = dp_path st \<and>
    dp_poisoned (preferences_run c calls st) = dp_poisoned st"
  using assms(2) unfolding preferences_run_def
proof (induction calls arbitrary: st)
  case (Cons call calls)
  note step = preferences_step_ok [OF assms(1) Cons.prems surjective_pairing [of "preferences_step c (fst call) (snd call) st"]]
  then show ?case using Cons.IH by (simp add: case_prod_unfold)
qed simp

section \<open>Badges\<close>

text \<open>What Unicode says of a text; a text is a list of bytes.\<close>

record unicode =
  graphemes :: "string \<Rightarrow> string list"
  to_uppercase :: "string \<Rightarrow> string"
  has_control_or_space :: "string \<Rightarrow> bool"

definition unicode_faithful :: "unicode \<Rightarrow> bool" where
  "unicode_faithful u \<longleftrightarrow>
     (\<forall>s. \<forall>g \<in> set (graphemes u s). graphemes u g = [g]) \<and> graphemes u ''?'' = [''?''] \<and>
     (\<forall>s. \<not> has_control_or_space u s \<longrightarrow> (\<forall>ch \<in> set s. \<not> blank ch))"

datatype BadgeError = BadgeNeedsMachine | BadgeNotOneGlyph | BadgeNoDirectory | BadgeUnavailable | BadgeNotSaved persist_error

type_synonym icons = "(string, string) btree"
type_synonym 'f badge_registry = "(icons, 'f) registry"

definition validate_icon :: "unicode \<Rightarrow> string \<Rightarrow> (BadgeError, string) result" where
  "validate_icon u icon =
     (case graphemes u (trim_text icon) of
        [glyph] \<Rightarrow> if has_control_or_space u glyph then Inl BadgeNotOneGlyph else Inr glyph
      | _ \<Rightarrow> Inl BadgeNotOneGlyph)"

definition read_icons :: "unicode \<Rightarrow> (icons, 'f) file_codec \<Rightarrow> 'f read_outcome \<Rightarrow> (persist_error, icons) result" where
  "read_icons u c outcome =
     map_result (List.map_filter (\<lambda>(machine, icon). map_option (Pair machine) (result_ok (validate_icon u icon))))
       (load_records c [] outcome)"

definition badges_load :: "unicode \<Rightarrow> (icons, 'f) file_codec \<Rightarrow> bool \<Rightarrow> 'f read_outcome \<Rightarrow> 'f badge_registry" where
  "badges_load u c has_dir outcome =
     \<lparr>reg_records = (if has_dir then case read_icons u c outcome of Inr icons \<Rightarrow> icons | Inl _ \<Rightarrow> [] else []),
      reg_file = file_content outcome, reg_poisoned = False\<rparr>"

definition icon_of :: "'f badge_registry \<Rightarrow> string \<Rightarrow> string option" where
  "icon_of reg machine_id = (if reg_poisoned reg then None else bt_get (reg_records reg) machine_id)"

text \<open>\<open>set\<close>: the machine, the icon to set or none to clear it.\<close>

definition badges_set ::
  "unicode \<Rightarrow> bool \<Rightarrow> (icons, 'f) file_codec \<Rightarrow> (nat \<Rightarrow> bool) \<Rightarrow> string \<times> string option \<Rightarrow> 'f badge_registry \<Rightarrow>
   (BadgeError, unit) result \<times> 'f badge_registry" where
  "badges_set u has_dir c io = (\<lambda>(machine_id, icon) reg.
     if machine_id = [] then (Inl BadgeNeedsMachine, reg)
     else case (case icon of None \<Rightarrow> Inr None | Some i \<Rightarrow> map_result Some (validate_icon u i)) of
            Inl e \<Rightarrow> (Inl e, reg)
          | Inr icon \<Rightarrow>
              if \<not> has_dir then (Inl BadgeNoDirectory, reg)
              else if reg_poisoned reg then (Inl BadgeUnavailable, reg)
              else
                let next = (case icon of
                              Some glyph \<Rightarrow> bt_insert machine_id glyph (reg_records reg)
                            | None \<Rightarrow> bt_remove machine_id (reg_records reg))
                in case write_json c io next (reg_file reg) of
                     (Inl e, _) \<Rightarrow> (Inl (BadgeNotSaved e), reg)
                   | (Inr _, contents) \<Rightarrow> (Inr (), reg\<lparr>reg_records := next, reg_file := contents\<rparr>))"

definition badge_label :: "unicode \<Rightarrow> string option \<Rightarrow> string \<Rightarrow> string" where
  "badge_label u icon name =
     (case icon of
        Some i \<Rightarrow> i
      | None \<Rightarrow>
          (case graphemes u (trim_text name) of
             [] \<Rightarrow> ''?''
           | first # _ \<Rightarrow>
               let upper = to_uppercase u first
               in if length (graphemes u upper) = 1 then upper else first))"

fun decorate :: "unicode \<Rightarrow> 'f badge_registry \<Rightarrow> json \<Rightarrow> json" where
  "decorate u reg (JObject object) =
     (let icon = Option.bind (Option.bind (bt_get object ''id'') as_str) (icon_of reg);
          name = (case Option.bind (bt_get object ''name'') as_str of None \<Rightarrow> [] | Some s \<Rightarrow> s)
      in JObject (bt_insert ''trayIcon'' (json_of_option JString icon)
           (bt_insert ''trayLabel'' (JString (badge_label u icon name)) object)))"
| "decorate u reg v = v"

lemma badges_set_cases:
  obtains e where "badges_set u has_dir c io (machine_id, icon) reg = (Inl e, reg)"
  | contents "next" where
      "badges_set u has_dir c io (machine_id, icon) reg = (Inr (), reg\<lparr>reg_records := next, reg_file := Some contents\<rparr>)"
      "to_file c next = Some contents" "has_dir"
      "next = bt_remove machine_id (reg_records reg) \<and> icon = None \<or>
       (\<exists>i glyph. icon = Some i \<and> validate_icon u i = Inr glyph \<and> next = bt_insert machine_id glyph (reg_records reg))"
proof -
  let ?checked = "case icon of None \<Rightarrow> Inr None | Some i \<Rightarrow> map_result Some (validate_icon u i)"
  show thesis
  proof (cases "machine_id \<noteq> [] \<and> has_dir \<and> \<not> reg_poisoned reg \<and> is_ok ?checked")
    case False
    have "\<exists>e. badges_set u has_dir c io (machine_id, icon) reg = (Inl e, reg)"
      using False by (cases ?checked) (auto simp: badges_set_def is_ok_iff)
    then show thesis using that(1) by blast
  next
    case True
    then obtain chosen where chosen: "?checked = Inr chosen" by (auto simp: is_ok_iff)
    define "next" where "next = (case chosen of Some glyph \<Rightarrow> bt_insert machine_id glyph (reg_records reg)
      | None \<Rightarrow> bt_remove machine_id (reg_records reg))"
    have shape: "next = bt_remove machine_id (reg_records reg) \<and> icon = None \<or>
       (\<exists>i glyph. icon = Some i \<and> validate_icon u i = Inr glyph \<and> next = bt_insert machine_id glyph (reg_records reg))"
      using chosen by (auto simp: next_def map_result_def split: option.splits sum.splits)
    have run: "badges_set u has_dir c io (machine_id, icon) reg =
        (case write_json c io next (reg_file reg) of
           (Inl e, _) \<Rightarrow> (Inl (BadgeNotSaved e), reg)
         | (Inr _, contents) \<Rightarrow> (Inr (), reg\<lparr>reg_records := next, reg_file := contents\<rparr>))"
      using True chosen unfolding next_def by (simp add: badges_set_def Let_def)
    show thesis
      by (cases rule: write_json_cases [of c io "next" "reg_file reg"]) (use run shape True that in auto)
  qed
qed

interpretation badge_op: durable_op "badges_set u has_dir" for u has_dir
proof
  fix c :: "(icons, 'f) file_codec" and io a and reg reg' :: "'f badge_registry" and e
  assume "badges_set u has_dir c io a reg = (Inl e, reg')"
  then show "reg' = reg"
    by (cases a; cases rule: badges_set_cases [of u has_dir c io "fst a" "snd a" reg]) auto
next
  fix c :: "(icons, 'f) file_codec" and io a and reg reg' :: "'f badge_registry" and r
  assume "badges_set u has_dir c io a reg = (Inr r, reg')"
  then show "reg' = reg \<or> reg_file reg' \<noteq> None \<and> reg_file reg' = to_file c (reg_records reg')"
    by (cases a; cases rule: badges_set_cases [of u has_dir c io "fst a" "snd a" reg]) auto
qed

section \<open>Properties\<close>

text \<open>
  C27. Preferences fail safe and survive. Over any sequence of saves and legacy migrations, whichever file operations
  fail, what the window shows is what a restart would load; notifications are on only if the user's own file, of this
  version, says so; a call that fails changes neither memory nor file; and once preferences are stored a migration
  changes nothing.
\<close>

theorem preferences_fail_safe:
  fixes c outcome has_dir
  defines "start \<equiv> preferences_load c has_dir outcome"
  assumes "codec_faithful c"
  shows "preferences_load c has_dir (dp_file (preferences_run c calls start)) = preferences_run c calls start \<and>
    (pf_notifications_enabled (ld_preferences (dp_state (preferences_run c calls start))) \<longrightarrow>
      (\<exists>contents stored. dp_file (preferences_run c calls start) = FileContent contents \<and> of_file c contents = Some stored \<and>
         pf_notifications_enabled stored \<and> pf_version stored = CURRENT_VERSION)) \<and>
    (\<forall>io call. \<not> is_ok (fst (preferences_step c io call (preferences_run c calls start))) \<longrightarrow>
      snd (preferences_step c io call (preferences_run c calls start)) = preferences_run c calls start) \<and>
    (\<forall>io enabled threshold. ld_persisted (dp_state (preferences_run c calls start)) \<longrightarrow>
      snd (migrate_legacy c io enabled threshold (preferences_run c calls start)) = preferences_run c calls start)"
proof -
  let ?now = "preferences_run c calls start"
  have "preferences_ok c start" by (simp add: start_def preferences_ok_def preferences_load_def)
  then have ok: "preferences_ok c ?now" "dp_path ?now = has_dir" "\<not> dp_poisoned ?now"
    using preferences_run_ok [OF assms(2)] by (simp_all add: start_def preferences_load_def)
  have "preferences_load c has_dir (dp_file ?now) = ?now"
    using ok by (cases ?now) (simp add: preferences_load_def preferences_ok_def)
  moreover have "\<exists>contents stored. dp_file ?now = FileContent contents \<and> of_file c contents = Some stored \<and>
      pf_notifications_enabled stored \<and> pf_version stored = CURRENT_VERSION"
    if "pf_notifications_enabled (ld_preferences (dp_state ?now))"
    using that ok(1)
    by (auto simp: preferences_ok_def loaded_state_def preferences_read_def Preferences_default_def rbind_eq_Inr
        ok_or_def split: if_splits read_outcome.splits sum.splits option.splits)
  moreover have "snd (preferences_step c io call ?now) = ?now"
    if "\<not> is_ok (fst (preferences_step c io call ?now))" for io call
    using preferences_step_ok [OF assms(2) ok(1) surjective_pairing] that by blast
  ultimately show ?thesis by (auto simp: migrate_legacy_def)
qed

definition plain_preferences :: "Preferences preferences_codec" where
  "plain_preferences = \<lparr>to_file = Some, of_file = Some\<rparr>"

definition witness_preferences_calls :: "((nat \<Rightarrow> bool) \<times> preferences_call) list" where
  "witness_preferences_calls =
     [(\<lambda>n. n = 3, MigrateLegacy True NotifyOffline), (\<lambda>_. False, MigrateLegacy True NotifyWarning),
      (\<lambda>_. False, MigrateLegacy False NotifyOffline)]"

theorem preferences_fail_safe_witness:
  "ld_preferences (dp_state (preferences_load plain_preferences True
     (dp_file (preferences_run plain_preferences witness_preferences_calls (preferences_load plain_preferences True FileMissing))))) =
   \<lparr>pf_version = 1, pf_notifications_enabled = True, pf_notification_threshold = NotifyWarning,
    pf_appearance = AppearanceSystem\<rparr>"
proof -
  let ?now = "preferences_run plain_preferences witness_preferences_calls (preferences_load plain_preferences True FileMissing)"
  have "codec_faithful plain_preferences" by (simp add: codec_faithful_def plain_preferences_def)
  from preferences_fail_safe [OF this, where has_dir = True and outcome = FileMissing and calls = witness_preferences_calls]
  have "preferences_load plain_preferences True (dp_file ?now) = ?now" by simp
  moreover have "ld_preferences (dp_state ?now) =
      \<lparr>pf_version = 1, pf_notifications_enabled = True, pf_notification_threshold = NotifyWarning,
       pf_appearance = AppearanceSystem\<rparr>"
    by code_simp
  ultimately show ?thesis by simp
qed

lemma validate_icon_Inr:
  assumes "unicode_faithful u" and "validate_icon u icon = Inr glyph"
  shows "validate_icon u glyph = Inr glyph" "graphemes u glyph = [glyph]"
proof -
  have glyph: "graphemes u (trim_text icon) = [glyph]" "\<not> has_control_or_space u glyph"
    using assms(2) by (auto simp: validate_icon_def split: list.splits if_splits)
  have "glyph \<in> set (graphemes u (trim_text icon))" using glyph(1) by simp
  then show one: "graphemes u glyph = [glyph]" using assms(1) unfolding unicode_faithful_def by blast
  have "trim_text glyph = glyph"
    using assms(1) glyph(2) by (intro trim_text_id) (auto simp: unicode_faithful_def)
  then show "validate_icon u glyph = Inr glyph" using one glyph(2) by (simp add: validate_icon_def)
qed

text \<open>Every icon is one glyph, and a reload gives the icons in memory.\<close>

definition badges_ok :: "unicode \<Rightarrow> (icons, 'f) file_codec \<Rightarrow> bool \<Rightarrow> 'f badge_registry \<Rightarrow> bool" where
  "badges_ok u c has_dir reg \<longleftrightarrow>
     (\<forall>(machine, icon) \<in> set (reg_records reg). validate_icon u icon = Inr icon) \<and>
     reg_records (badges_load u c has_dir (outcome_of (reg_file reg))) = reg_records reg"

lemma valid_icons_read:
  assumes "\<forall>(machine, icon) \<in> set icons. validate_icon u icon = Inr icon"
  shows "List.map_filter (\<lambda>(machine, icon). map_option (Pair machine) (result_ok (validate_icon u icon))) icons = icons"
  using assms by (induction icons) (auto simp: List.map_filter_simps result_ok_def)

lemma badges_load_ok:
  assumes "unicode_faithful u"
  shows "badges_ok u c has_dir (badges_load u c has_dir outcome)"
proof -
  have valid: "\<forall>(machine, icon) \<in> set (List.map_filter
      (\<lambda>(machine, icon). map_option (Pair machine) (result_ok (validate_icon u icon))) icons). validate_icon u icon = Inr icon"
    for icons
    using validate_icon_Inr(1) [OF assms] by (auto simp: List.map_filter_def result_ok_def split: sum.splits)
  have again: "reg_records (badges_load u c has_dir (outcome_of (file_content outcome))) =
      reg_records (badges_load u c has_dir outcome)"
    by (cases outcome) (auto simp: badges_load_def file_content_def outcome_of_def read_icons_def load_records_def
        map_result_def List.map_filter_simps)
  have stored: "reg_file (badges_load u c has_dir outcome) = file_content outcome" by (simp add: badges_load_def)
  obtain icons where "reg_records (badges_load u c has_dir outcome) =
      List.map_filter (\<lambda>(machine, icon). map_option (Pair machine) (result_ok (validate_icon u icon))) icons"
  proof (cases "load_records c [] outcome")
    case (Inl e)
    then show thesis
      using that [of "[]"] by (simp add: badges_load_def read_icons_def map_result_def List.map_filter_simps)
  next
    case (Inr icons)
    then show thesis
      using that [of icons] that [of "[]"]
      by (cases has_dir) (simp_all add: badges_load_def read_icons_def map_result_def List.map_filter_simps)
  qed
  then show ?thesis unfolding badges_ok_def stored using valid [of icons] again by simp
qed

lemma set_bt_insert: "(j, v') \<in> set (bt_insert k v m) \<Longrightarrow> (j, v') = (k, v) \<or> (j, v') \<in> set m"
  by (induction k v m rule: bt_insert.induct) (auto split: if_splits)

lemma badges_set_ok:
  assumes "unicode_faithful u" and "codec_faithful c" and "badges_ok u c has_dir reg"
  shows "badges_ok u c has_dir (snd (badges_set u has_dir c io (machine_id, icon) reg))"
proof (cases rule: badges_set_cases [of u has_dir c io machine_id icon reg])
  case (1 e)
  then show ?thesis using assms(3) by simp
next
  case (2 contents "next")
  have "\<forall>(machine, i) \<in> set (reg_records reg). validate_icon u i = Inr i" using assms(3) by (simp add: badges_ok_def)
  then have valid: "\<forall>(machine, i) \<in> set next. validate_icon u i = Inr i"
    using 2(4) validate_icon_Inr(1) [OF assms(1)] by (auto simp: bt_remove_def dest!: set_bt_insert)
  have "of_file c contents = Some next" using 2(2) assms(2) by (simp add: codec_faithful_def)
  then show ?thesis
    using 2(1,3) valid valid_icons_read [OF valid]
    by (simp add: badges_ok_def badges_load_def read_icons_def load_records_def outcome_of_def map_result_def)
qed

text \<open>
  A badge is always one glyph, and survives. Over any sequence of changes, whichever writes fail, every machine's
  label is exactly one grapheme cluster, whatever its name or a hand-edited file says; a reload finds the icons in memory;
  and a change that fails leaves memory and file as they were.
\<close>

theorem badges_one_glyph:
  fixes u c has_dir outcome calls
  defines "now \<equiv> foldl (\<lambda>reg (io, a). snd (badges_set u has_dir c io a reg)) (badges_load u c has_dir outcome) calls"
  assumes "unicode_faithful u" and "codec_faithful c"
  shows "length (graphemes u (badge_label u (icon_of now machine) name)) = 1 \<and>
    reg_records (badges_load u c has_dir (outcome_of (reg_file now))) = reg_records now \<and>
    (\<forall>io a. \<not> is_ok (fst (badges_set u has_dir c io a now)) \<longrightarrow> snd (badges_set u has_dir c io a now) = now)"
proof -
  have keeps: "badges_ok u c has_dir (foldl (\<lambda>reg (io, a). snd (badges_set u has_dir c io a reg)) reg calls)"
    if "badges_ok u c has_dir reg" for reg
    using that
  proof (induction calls arbitrary: reg)
    case (Cons call calls)
    then show ?case
      using badges_set_ok [OF assms(2,3), of has_dir reg "fst call" "fst (snd call)" "snd (snd call)"]
      by (simp add: case_prod_unfold)
  qed simp
  have ok: "badges_ok u c has_dir now" unfolding now_def by (rule keeps [OF badges_load_ok [OF assms(2)]])
  have icon: "length (graphemes u i) = 1" if "icon_of now machine = Some i" for i
  proof -
    have "(machine, i) \<in> set (reg_records now)" using that bt_get_Some_in by (auto simp: icon_of_def split: if_splits)
    then have "validate_icon u i = Inr i" using ok by (auto simp: badges_ok_def)
    then show ?thesis using validate_icon_Inr(2) [OF assms(2)] by simp
  qed
  have "length (graphemes u (badge_label u None name)) = 1"
  proof (cases "graphemes u (trim_text name)")
    case Nil
    then show ?thesis using assms(2) by (simp add: badge_label_def unicode_faithful_def)
  next
    case (Cons first rest)
    then have "first \<in> set (graphemes u (trim_text name))" by simp
    then have "graphemes u first = [first]" using assms(2) unfolding unicode_faithful_def by blast
    then show ?thesis using Cons by (simp add: badge_label_def Let_def)
  qed
  then have "length (graphemes u (badge_label u (icon_of now machine) name)) = 1"
    using icon by (cases "icon_of now machine") (simp_all add: badge_label_def)
  moreover have "snd (badges_set u has_dir c io a now) = now" if "\<not> is_ok (fst (badges_set u has_dir c io a now))" for io a
  proof (cases "badges_set u has_dir c io a now")
    case (Pair res reg)
    then show ?thesis using badge_op.refused [of u has_dir c io a now _ reg] that by (cases res) (auto simp: is_ok_def)
  qed
  ultimately show ?thesis using ok by (simp add: badges_ok_def)
qed

definition ascii :: unicode where
  "ascii = \<lparr>graphemes = map (\<lambda>ch. [ch]), to_uppercase = id, has_control_or_space = list_ex blank\<rparr>"

definition plain_icons :: "(icons, icons) file_codec" where
  "plain_icons = \<lparr>to_file = Some, of_file = Some\<rparr>"

theorem badges_one_glyph_witness:
  "reg_records (badges_load ascii plain_icons True (outcome_of (reg_file
     (snd (badges_set ascii True plain_icons (\<lambda>_. False) (''m'', Some '' x '')
        (badges_load ascii plain_icons True (FileContent [(''n'', ''wide'')]))))))) = [(''m'', ''x'')] \<and>
   badge_label ascii None ''  rack'' = ''r''"
proof -
  have "unicode_faithful ascii" by (auto simp: unicode_faithful_def ascii_def list_ex_iff)
  moreover have "codec_faithful plain_icons" by (simp add: codec_faithful_def plain_icons_def)
  moreover have "reg_records (snd (badges_set ascii True plain_icons (\<lambda>_. False) (''m'', Some '' x '')
      (badges_load ascii plain_icons True (FileContent [(''n'', ''wide'')])))) = [(''m'', ''x'')]"
    by code_simp
  moreover have "badge_label ascii None ''  rack'' = ''r''" by code_simp
  ultimately show ?thesis
    using badges_one_glyph [of ascii plain_icons True "FileContent [(''n'', ''wide'')]" "[(\<lambda>_. False, (''m'', Some '' x ''))]"]
    by simp
qed

end
