(* ===== verification/Tray.thy ===== *)
theory Tray
  imports Ieee Btree Text_Lines
begin

text \<open>
  The status items of the desktop shell (\<open>apps/desktop/src-tauri/src/tray.rs\<close>): the texts and gauges of a machine, and
  the table of status items as polls of the daemon change it. The windowing system is the parameter \<open>fails\<close>, which says
  for an item which of its operations is refused. Texts are lists of bytes in UTF-8. The locks of the registry are held
  over assignments only, so they are never poisoned.
\<close>

section \<open>Texts\<close>

definition em_dash :: string where "em_dash = [CHR 0xE2, CHR 0x80, CHR 0x94]"
definition middle_dot :: string where "middle_dot = [CHR 0x20, CHR 0xC2, CHR 0xB7, CHR 0x20]"

definition tray_state_symbol :: "string \<Rightarrow> string" where
  "tray_state_symbol state =
     (if state = ''healthy'' then [CHR 0xE2, CHR 0x97, CHR 0x8F]
      else if state \<in> {''warning'', ''degraded''} then [CHR 0xE2, CHR 0x96, CHR 0xB2]
      else if state = ''stale'' then [CHR 0xE2, CHR 0x97, CHR 0x8C]
      else if state \<in> {''critical'', ''offline'', ''auth_error'', ''incompatible''} then [CHR 0xE2, CHR 0x9C, CHR 0x95]
      else ''?'')"

definition tray_state_label :: "string \<Rightarrow> string" where
  "tray_state_label state =
     (if state = ''healthy'' then ''Healthy'' else if state = ''warning'' then ''Warning''
      else if state = ''stale'' then ''Stale'' else if state = ''critical'' then ''Critical''
      else if state = ''offline'' then ''Offline'' else if state = ''auth_error'' then ''Authentication error''
      else if state = ''incompatible'' then ''Incompatible agent''
      else if state = ''daemon_unavailable'' then ''Agent unavailable'' else ''Degraded'')"

type_synonym rgba = "nat list"

definition NEUTRAL_COLOR :: rgba where "NEUTRAL_COLOR = [164, 173, 168, 255]"

definition tray_state_color :: "string \<Rightarrow> (string, rgba) result" where
  "tray_state_color state =
     (if state = ''healthy'' then Inr [84, 217, 139, 255]
      else if state \<in> {''warning'', ''degraded''} then Inr [230, 189, 89, 255]
      else if state = ''stale'' then Inr NEUTRAL_COLOR
      else if state \<in> {''critical'', ''offline'', ''auth_error'', ''incompatible'', ''daemon_unavailable''}
      then Inr [255, 111, 103, 255]
      else Inl ''Unknown fleet state for tray icon.'')"

section \<open>Figures\<close>

text \<open>\<open>{value:.0}\<close>: the exact value to an integer, ties to even, with the sign of a negative zero.\<close>

fun format_0 :: "fl \<Rightarrow> string" where
  "format_0 NaN = ''NaN''"
| "format_0 (Inf s) = (if s then ''-inf'' else ''inf'')"
| "format_0 NegZero = ''-0''"
| "format_0 (Fin q) = (if q < 0 then ''-'' else '''') @ show_nat (nat (round_half_even \<bar>q\<bar>))"

definition percentage_label :: "fl option \<Rightarrow> string" where
  "percentage_label v = (case v of None \<Rightarrow> em_dash | Some x \<Rightarrow> format_0 x @ ''%'')"

text \<open>\<open>(value.clamp(0.0, 100.0) * 100.0).round() as u16\<close>; NaN stays NaN under \<open>clamp\<close> and becomes 0 in the cast.\<close>

definition scale_basis_points :: "fl \<Rightarrow> u16" where
  "scale_basis_points v =
     (case v of
        NaN \<Rightarrow> 0
      | _ \<Rightarrow>
          let clamped = (if \<not> fl_le (Fin 0) v then Fin 0 else if \<not> fl_le v (Fin 100) then Fin 100 else v)
          in of_int \<lfloor>fval (round_to f64_fmt (fval clamped * 100)) + 1 / 2\<rfloor>)"

definition percent_basis_points :: "fl option \<Rightarrow> u16 option" where
  "percent_basis_points v = map_option scale_basis_points v"

definition u64_saturating_mul :: "u64 \<Rightarrow> u64 \<Rightarrow> u64" where
  "u64_saturating_mul a b = of_nat (min (unat a * unat b) u64_max)"

definition ratio_basis_points :: "u64 option \<Rightarrow> u64 option \<Rightarrow> u16 option" where
  "ratio_basis_points used capacity =
     (case (used, capacity) of
        (Some used, Some capacity) \<Rightarrow>
          if capacity > 0 then Some (of_nat (min (unat (u64_saturating_mul used 10000) div unat capacity) 10000)) else None
      | _ \<Rightarrow> None)"

definition basis_points_label :: "u16 option \<Rightarrow> string" where
  "basis_points_label bp =
     (case bp of
        None \<Rightarrow> em_dash
      | Some b \<Rightarrow> format_0 (fl_div f64_fmt (Fin (of_nat (unat b))) (Fin 100)) @ ''%'')"

text \<open>\<open>byte_label\<close>: the loop over the units, then one decimal from MiB up.\<close>

definition UNITS :: "string list" where
  "UNITS = [''B'', ''KiB'', ''MiB'', ''GiB'', ''TiB'']"

function scale_units :: "nat \<Rightarrow> nat \<Rightarrow> nat \<Rightarrow> nat \<times> nat \<times> nat" where
  "scale_units v remainder unit =
     (if 1024 \<le> v \<and> unit + 1 < length UNITS then scale_units (v div 1024) (v mod 1024) (unit + 1)
      else (v, remainder, unit))"
  by pat_completeness auto
termination by (relation "measure (\<lambda>(v, _, _). v)") auto

declare scale_units.simps [simp del]

definition byte_parts :: "u64 \<Rightarrow> nat \<times> nat option \<times> nat" where
  "byte_parts bytes =
     (let (v, remainder, unit) = scale_units (unat bytes) 0 0
      in if unit > 1
         then let tenths = (remainder * 10 + 512) div 1024
              in if tenths \<ge> 10 then (v + 1, Some 0, unit) else (v, Some tenths, unit)
         else (if remainder * 2 \<ge> 1024 then v + 1 else v, None, unit))"

definition byte_label :: "u64 \<Rightarrow> string" where
  "byte_label bytes =
     (let (v, tenths, unit) = byte_parts bytes
      in show_nat v @ (case tenths of None \<Rightarrow> [] | Some t \<Rightarrow> ''.'' @ show_nat t) @ '' '' @ UNITS ! unit)"

definition rate_label :: "u64 option \<Rightarrow> string" where
  "rate_label rate = (case rate of None \<Rightarrow> em_dash | Some r \<Rightarrow> byte_label r @ ''/s'')"

definition uptime_label :: "u64 option \<Rightarrow> string" where
  "uptime_label seconds =
     (case seconds of
        None \<Rightarrow> em_dash
      | Some s \<Rightarrow>
          let s = unat s; days = s div 86400; hours = s mod 86400 div 3600; minutes = s mod 3600 div 60
          in if days > 0 then show_nat days @ ''d '' @ show_nat hours @ ''h''
             else if hours > 0 then show_nat hours @ ''h '' @ show_nat minutes @ ''m''
             else if minutes > 0 then show_nat minutes @ ''m '' @ show_nat (s mod 60) @ ''s''
             else show_nat s @ ''s'')"

section \<open>A machine\<close>

record TrayTemperature =
  tt_label :: string
  tt_celsius :: fl

record TrayNodeSnapshot =
  tn_id :: string
  tn_name :: string
  tn_tray_label :: string
  tn_state :: string
  tn_path :: string
  tn_cpu_percent :: "fl option"
  tn_memory_used_bytes :: "u64 option"
  tn_memory_total_bytes :: "u64 option"
  tn_swap_used_bytes :: "u64 option"
  tn_swap_total_bytes :: "u64 option"
  tn_disk_used_bytes :: "u64 option"
  tn_disk_total_bytes :: "u64 option"
  tn_disk_mount :: "string option"
  tn_network_received :: "u64 option"
  tn_network_sent :: "u64 option"
  tn_uptime_seconds :: "u64 option"
  tn_temperature :: "TrayTemperature option"
  tn_rtt_ms :: "u64 option"

record TrayGauge =
  ga_text :: string
  ga_fill_basis_points :: "u16 option"

record TraySection =
  sec_header :: string
  sec_color :: rgba
  sec_gauges :: "TrayGauge list"
  sec_link :: string

record TrayMachineMenu =
  mm_title :: string
  mm_section :: TraySection

definition gauge :: "string \<Rightarrow> u16 option \<Rightarrow> TrayGauge" where
  "gauge label fill = \<lparr>ga_text = label, ga_fill_basis_points = fill\<rparr>"

definition machine_tray_id :: "TrayNodeSnapshot \<Rightarrow> string" where
  "machine_tray_id node = ''machine-'' @ tn_id node"

definition disk_percentage_label :: "TrayNodeSnapshot \<Rightarrow> string" where
  "disk_percentage_label node = basis_points_label (ratio_basis_points (tn_disk_used_bytes node) (tn_disk_total_bytes node))"

definition swap_percentage_label :: "TrayNodeSnapshot \<Rightarrow> string" where
  "swap_percentage_label node = basis_points_label (ratio_basis_points (tn_swap_used_bytes node) (tn_swap_total_bytes node))"

definition memory_percentage_label :: "TrayNodeSnapshot \<Rightarrow> string" where
  "memory_percentage_label node =
     basis_points_label (ratio_basis_points (tn_memory_used_bytes node) (tn_memory_total_bytes node))"

definition network_label :: "TrayNodeSnapshot \<Rightarrow> string" where
  "network_label node =
     (if tn_network_received node = None \<and> tn_network_sent node = None then em_dash
      else [CHR 0xE2, CHR 0x86, CHR 0x93] @ rate_label (tn_network_received node) @ '' '' @
           [CHR 0xE2, CHR 0x86, CHR 0x91] @ rate_label (tn_network_sent node))"

definition swap_gauge :: "TrayNodeSnapshot \<Rightarrow> TrayGauge" where
  "swap_gauge node =
     gauge
       (case (tn_swap_used_bytes node, tn_swap_total_bytes node) of
          (_, Some capacity) \<Rightarrow>
            if capacity = 0 then ''Swap none''
            else if tn_swap_used_bytes node \<noteq> None then ''Swap '' @ swap_percentage_label node
            else ''Swap '' @ em_dash
        | _ \<Rightarrow> ''Swap '' @ em_dash)
       (ratio_basis_points (tn_swap_used_bytes node) (tn_swap_total_bytes node))"

definition temperature_gauge :: "TrayNodeSnapshot \<Rightarrow> TrayGauge" where
  "temperature_gauge node =
     (case tn_temperature node of
        None \<Rightarrow> gauge (''Temperature '' @ em_dash) None
      | Some t \<Rightarrow>
          gauge (''Temperature '' @ format_0 (tt_celsius t) @ '' '' @ [CHR 0xC2, CHR 0xB0] @ ''C '' @ tt_label t)
            (Some (scale_basis_points (tt_celsius t))))"

definition known_path_label :: "string \<Rightarrow> string option" where
  "known_path_label path =
     (if path = ''lan_direct'' then Some ''LAN direct'' else if path = ''wan_direct'' then Some ''WAN direct''
      else if path = ''relayed'' then Some ''Relayed'' else None)"

definition link_label :: "TrayNodeSnapshot \<Rightarrow> string" where
  "link_label node =
     (let parts =
            (case known_path_label (tn_path node) of None \<Rightarrow> [] | Some p \<Rightarrow> [p]) @
            (case tn_rtt_ms node of None \<Rightarrow> [] | Some rtt \<Rightarrow> [''RTT '' @ show_nat (unat rtt) @ '' ms''])
      in if parts = [] then em_dash else join_with middle_dot parts)"

definition tray_node_status :: "TrayNodeSnapshot \<Rightarrow> string" where
  "tray_node_status node = tn_tray_label node @ '' '' @ tray_state_symbol (tn_state node)"

definition tray_machine_menu :: "TrayNodeSnapshot \<Rightarrow> TrayMachineMenu" where
  "tray_machine_menu node =
     \<lparr>mm_title = tn_name node @ middle_dot @ tray_state_label (tn_state node) @ middle_dot @ ''CPU '' @
        percentage_label (tn_cpu_percent node) @ middle_dot @ ''Memory '' @ memory_percentage_label node,
      mm_section =
        \<lparr>sec_header = tray_state_symbol (tn_state node) @ '' '' @ tn_name node @ '' '' @ em_dash @ '' '' @
           tray_state_label (tn_state node),
         sec_color = (case tray_state_color (tn_state node) of Inr color \<Rightarrow> color | Inl _ \<Rightarrow> NEUTRAL_COLOR),
         sec_gauges =
           [gauge (''CPU '' @ percentage_label (tn_cpu_percent node)) (percent_basis_points (tn_cpu_percent node)),
            gauge (''Memory '' @ memory_percentage_label node)
              (ratio_basis_points (tn_memory_used_bytes node) (tn_memory_total_bytes node)),
            swap_gauge node,
            gauge (''Disk '' @ disk_percentage_label node @
                (case tn_disk_mount node of None \<Rightarrow> [] | Some mount \<Rightarrow> '' '' @ mount))
              (ratio_basis_points (tn_disk_used_bytes node) (tn_disk_total_bytes node)),
            temperature_gauge node,
            gauge (''Net '' @ network_label node) None,
            gauge (''Uptime '' @ uptime_label (tn_uptime_seconds node)) None],
         sec_link = link_label node\<rparr>\<rparr>"

definition fleet_tray_sections :: "TrayNodeSnapshot list \<Rightarrow> TraySection list" where
  "fleet_tray_sections nodes = map (\<lambda>node. mm_section (tray_machine_menu node)) nodes"

definition status_section :: "string \<Rightarrow> TraySection" where
  "status_section message =
     \<lparr>sec_header = message, sec_color = NEUTRAL_COLOR,
      sec_gauges = map (\<lambda>label. gauge (label @ '' '' @ em_dash) None) [''CPU'', ''Memory'', ''Disk'', ''Temperature''],
      sec_link = em_dash\<rparr>"

text \<open>The two pictures, row by row, four bytes a pixel.\<close>

definition state_icon :: "rgba \<Rightarrow> rgba" where
  "state_icon color =
     concat (map (\<lambda>y. concat (map (\<lambda>x.
       if (int x - 10) * (int x - 10) + (int y - 10) * (int y - 10) \<le> 49 then color else [0, 0, 0, 0]) [0..<22])) [0..<22])"

definition GAUGE_WIDTH :: nat where "GAUGE_WIDTH = 56"
definition GAUGE_HEIGHT :: nat where "GAUGE_HEIGHT = 10"

definition gauge_fill_width :: "u16 \<Rightarrow> nat" where
  "gauge_fill_width bp = min (unat bp) 10000 * GAUGE_WIDTH div 10000"

definition gauge_icon :: "u16 \<Rightarrow> rgba \<Rightarrow> rgba" where
  "gauge_icon bp color =
     concat (map (\<lambda>_. concat (map (\<lambda>x. if x < gauge_fill_width bp then color else [127, 127, 127, 56]) [0..<GAUGE_WIDTH]))
       [0..<GAUGE_HEIGHT])"

definition gauge_image :: "TrayGauge \<Rightarrow> rgba \<Rightarrow> rgba option" where
  "gauge_image g color = map_option (\<lambda>bp. gauge_icon bp color) (ga_fill_basis_points g)"

section \<open>The status items\<close>

record tray_item =
  it_color :: rgba
  it_title :: string
  it_tooltip :: string
  it_menu :: "TraySection list"

text \<open>\<open>tr_items\<close> are the items of the windowing system, \<open>tr_menus\<close> the shapes of the menus built for them.\<close>

record TrayRegistry =
  tr_items :: "(string, tray_item) btree"
  tr_menus :: "(string, nat list) btree"
  tr_machine_ids :: "string list"

type_synonym tray_env = "string \<Rightarrow> nat \<Rightarrow> bool"

definition shape :: "TraySection list \<Rightarrow> nat list" where
  "shape sections = map (\<lambda>s. length (sec_gauges s)) sections"

text \<open>
  \<open>upsert_tray\<close>: an existing item gets its icon (operation 0), title (1) and tooltip (2), then its rows in place when
  the shape of the menu is the one that was built, else a new menu (3, 4); a missing item is built with its menu (3, 5).
\<close>

definition upsert_tray ::
  "tray_env \<Rightarrow> string \<Rightarrow> string \<Rightarrow> string \<Rightarrow> string \<Rightarrow> TraySection list \<Rightarrow> TrayRegistry \<Rightarrow> bool \<times> TrayRegistry" where
  "upsert_tray fails tray_id state title tooltip sections st =
     (case tray_state_color state of
        Inl _ \<Rightarrow> (False, st)
      | Inr color \<Rightarrow>
          (case bt_get (tr_items st) tray_id of
             None \<Rightarrow>
               if fails tray_id 3 \<or> fails tray_id 5 then (False, st)
               else (True, st\<lparr>tr_items := bt_insert tray_id
                       \<lparr>it_color = color, it_title = title, it_tooltip = tooltip, it_menu = sections\<rparr> (tr_items st),
                     tr_menus := bt_insert tray_id (shape sections) (tr_menus st)\<rparr>)
           | Some item \<Rightarrow>
               let keep = (\<lambda>item. st\<lparr>tr_items := bt_insert tray_id item (tr_items st)\<rparr>) in
               if fails tray_id 0 then (False, st)
               else let item = item\<lparr>it_color := color\<rparr> in
               if fails tray_id 1 then (False, keep item)
               else let item = item\<lparr>it_title := title\<rparr> in
               if fails tray_id 2 then (False, keep item)
               else let item = item\<lparr>it_tooltip := tooltip\<rparr> in
               if bt_get (tr_menus st) tray_id = Some (shape sections) then (True, keep (item\<lparr>it_menu := sections\<rparr>))
               else if fails tray_id 3 \<or> fails tray_id 4 then (False, keep item)
               else (True, (keep (item\<lparr>it_menu := sections\<rparr>))
                      \<lparr>tr_menus := bt_insert tray_id (shape sections) (tr_menus st)\<rparr>)))"

definition update_status_tray :: "tray_env \<Rightarrow> string \<Rightarrow> string \<Rightarrow> TrayRegistry \<Rightarrow> TrayRegistry" where
  "update_status_tray fails state message st =
     (let sections = [status_section message]
      in if tr_machine_ids st = []
         then (case upsert_tray fails ''rackio-status'' state message message sections st of
                 (True, st) \<Rightarrow> st\<lparr>tr_machine_ids := [''rackio-status'']\<rparr>
               | (False, st) \<Rightarrow> st)
         else foldl (\<lambda>st tray_id. snd (upsert_tray fails tray_id state message message sections st)) st (tr_machine_ids st))"

definition retired_tray_ids :: "string list \<Rightarrow> string list \<Rightarrow> string list" where
  "retired_tray_ids registered active = filter (\<lambda>tray_id. tray_id \<notin> set active) registered"

definition retire :: "string \<Rightarrow> TrayRegistry \<Rightarrow> TrayRegistry" where
  "retire tray_id st =
     st\<lparr>tr_items := bt_remove tray_id (tr_items st), tr_menus := bt_remove tray_id (tr_menus st)\<rparr>"

definition node_tray_id :: "bool \<Rightarrow> nat \<Rightarrow> TrayNodeSnapshot \<Rightarrow> string" where
  "node_tray_id status_slot index node =
     (if index = 0 \<and> status_slot then ''rackio-status'' else machine_tray_id node)"

definition upsert_node ::
  "tray_env \<Rightarrow> bool \<Rightarrow> TraySection list \<Rightarrow> TrayRegistry \<Rightarrow> nat \<times> TrayNodeSnapshot \<Rightarrow> TrayRegistry" where
  "upsert_node fails status_slot fleet_sections st = (\<lambda>(index, node).
     let machine = tray_machine_menu node
     in snd (upsert_tray fails (node_tray_id status_slot index node) (tn_state node) (tray_node_status node)
          (mm_title machine) (if index = 0 then fleet_sections else [mm_section machine]) st))"

definition update_machine_trays :: "tray_env \<Rightarrow> TrayNodeSnapshot list \<Rightarrow> TrayRegistry \<Rightarrow> TrayRegistry" where
  "update_machine_trays fails nodes st =
     (let registered = tr_machine_ids st;
          status_slot = (''rackio-status'' \<in> set registered \<and> bt_get (tr_items st) ''rackio-status'' \<noteq> None);
          indexed = List.enumerate 0 nodes;
          active = btree_set (map (\<lambda>(index, node). node_tray_id status_slot index node) indexed);
          st = foldl (upsert_node fails status_slot (fleet_tray_sections nodes)) st indexed;
          st = foldl (\<lambda>st tray_id. retire tray_id st) st (retired_tray_ids registered active)
      in st\<lparr>tr_machine_ids := active\<rparr>)"

text \<open>What one poll of the daemon found.\<close>

datatype poll = DaemonUnavailable | InvalidSnapshot | Fleet bool "TrayNodeSnapshot list"

fun update_tray_from_daemon :: "tray_env \<Rightarrow> poll \<Rightarrow> TrayRegistry \<Rightarrow> TrayRegistry" where
  "update_tray_from_daemon fails DaemonUnavailable st =
     update_status_tray fails ''daemon_unavailable'' ''Agent unavailable'' st"
| "update_tray_from_daemon fails InvalidSnapshot st = update_status_tray fails ''degraded'' ''Invalid agent snapshot'' st"
| "update_tray_from_daemon fails (Fleet is_connected nodes) st =
     (if is_connected \<and> nodes \<noteq> [] then update_machine_trays fails nodes st
      else if is_connected then update_status_tray fails ''warning'' ''No paired machines'' st
      else update_status_tray fails ''degraded'' ''Invalid agent snapshot'' st)"

definition run_tray_monitor :: "(tray_env \<times> poll) list \<Rightarrow> TrayRegistry" where
  "run_tray_monitor polls =
     foldl (\<lambda>st (fails, poll). update_tray_from_daemon fails poll st)
       \<lparr>tr_items = [], tr_menus = [], tr_machine_ids = []\<rparr> polls"

section \<open>One item\<close>

lemma upsert_frame:
  "tr_machine_ids (snd (upsert_tray fails tray_id state title tooltip sections st)) = tr_machine_ids st"
  "bt_get (tr_items (snd (upsert_tray fails tray_id state title tooltip sections st))) other \<noteq> None \<Longrightarrow>
     other = tray_id \<or> bt_get (tr_items st) other \<noteq> None"
  by (auto simp: upsert_tray_def Let_def split: sum.splits option.splits if_splits)

definition calm :: tray_env where "calm = (\<lambda>_ _. False)"

definition shown_as :: "rgba \<Rightarrow> string \<Rightarrow> string \<Rightarrow> TraySection list \<Rightarrow> tray_item" where
  "shown_as color title tooltip sections =
     \<lparr>it_color = color, it_title = title, it_tooltip = tooltip, it_menu = sections\<rparr>"

lemma upsert_calm:
  assumes "tray_state_color state = Inr color"
  shows "fst (upsert_tray calm tray_id state title tooltip sections st)"
    and "bt_get (tr_items (snd (upsert_tray calm tray_id state title tooltip sections st))) other =
      (if other = tray_id then Some (shown_as color title tooltip sections) else bt_get (tr_items st) other)"
proof -
  have item: "item\<lparr>it_color := color, it_title := title, it_tooltip := tooltip, it_menu := sections\<rparr> =
      shown_as color title tooltip sections" for item
    by (cases item) (simp add: shown_as_def)
  show "fst (upsert_tray calm tray_id state title tooltip sections st)"
    using assms by (auto simp: upsert_tray_def calm_def Let_def split: option.splits)
  show "bt_get (tr_items (snd (upsert_tray calm tray_id state title tooltip sections st))) other =
      (if other = tray_id then Some (shown_as color title tooltip sections) else bt_get (tr_items st) other)"
    using assms item by (auto simp: upsert_tray_def calm_def shown_as_def Let_def split: option.splits)
qed

section \<open>All items\<close>

text \<open>Every item belongs to a registered id.\<close>

definition trays_ok :: "TrayRegistry \<Rightarrow> bool" where
  "trays_ok st \<longleftrightarrow> (\<forall>tray_id. bt_get (tr_items st) tray_id \<noteq> None \<longrightarrow> tray_id \<in> set (tr_machine_ids st))"

lemma status_fold_frame:
  "tr_machine_ids (foldl (\<lambda>st tray_id. snd (upsert_tray fails tray_id state title tooltip sections st)) st ids) =
     tr_machine_ids st"
  "bt_get (tr_items (foldl (\<lambda>st tray_id. snd (upsert_tray fails tray_id state title tooltip sections st)) st ids)) other \<noteq> None \<Longrightarrow>
     other \<in> set ids \<or> bt_get (tr_items st) other \<noteq> None"
proof (induction ids arbitrary: st)
  case (Cons tray_id ids)
  { case 1 then show ?case using Cons.IH(1) by (simp add: upsert_frame) }
  { case 2 then show ?case using Cons.IH(2) upsert_frame(2) by fastforce }
qed simp_all

lemma status_fold_calm:
  assumes "tray_state_color state = Inr color"
  shows "bt_get (tr_items (foldl (\<lambda>st tray_id. snd (upsert_tray calm tray_id state title tooltip sections st)) st ids)) other =
    (if other \<in> set ids then Some (shown_as color title tooltip sections) else bt_get (tr_items st) other)"
  by (induction ids arbitrary: st) (auto simp: upsert_calm [OF assms])

lemma update_status_tray_ok:
  assumes "trays_ok st"
  shows "trays_ok (update_status_tray fails state message st)"
proof (cases "tr_machine_ids st = []")
  case True
  obtain made st' where up: "upsert_tray fails ''rackio-status'' state message message [status_section message] st = (made, st')"
    by fastforce
  have items: "bt_get (tr_items st') other \<noteq> None \<Longrightarrow> other = ''rackio-status''" for other
    using upsert_frame(2) [of fails "''rackio-status''" state message message "[status_section message]" st other] up True assms
    by (auto simp: trays_ok_def)
  have "bt_get (tr_items st') ''rackio-status'' = None" if "\<not> made"
    using that up True assms
    by (auto simp: upsert_tray_def trays_ok_def Let_def split: sum.splits option.splits if_splits)
  then have "bt_get (tr_items st') other = None" if "\<not> made" for other using items that by blast
  then show ?thesis
    using True up items by (cases made) (simp_all add: update_status_tray_def trays_ok_def Let_def)
next
  case False
  have "bt_get (tr_items (update_status_tray fails state message st)) other \<noteq> None \<Longrightarrow> other \<in> set (tr_machine_ids st)" for other
    using False assms status_fold_frame(2) [of fails state message message "[status_section message]" st "tr_machine_ids st" other]
    unfolding trays_ok_def update_status_tray_def Let_def by auto
  then show ?thesis using False by (simp add: trays_ok_def update_status_tray_def status_fold_frame(1))
qed

definition node_ids :: "bool \<Rightarrow> TrayNodeSnapshot list \<Rightarrow> string list" where
  "node_ids slot nodes = map (\<lambda>(index, node). node_tray_id slot index node) (List.enumerate 0 nodes)"

lemma upsert_nodes_frame:
  "tr_machine_ids (foldl (upsert_node fails slot sections) st indexed) = tr_machine_ids st"
  "bt_get (tr_items (foldl (upsert_node fails slot sections) st indexed)) other \<noteq> None \<Longrightarrow>
     other \<in> set (map (\<lambda>(index, node). node_tray_id slot index node) indexed) \<or> bt_get (tr_items st) other \<noteq> None"
proof (induction indexed arbitrary: st)
  case (Cons node indexed)
  have step: "tr_machine_ids (upsert_node fails slot sections st node) = tr_machine_ids st"
    "bt_get (tr_items (upsert_node fails slot sections st node)) other \<noteq> None \<Longrightarrow>
       other = node_tray_id slot (fst node) (snd node) \<or> bt_get (tr_items st) other \<noteq> None" for st
    using upsert_frame by (auto simp: upsert_node_def Let_def case_prod_unfold)
  { case 1 then show ?case using Cons.IH(1) by (simp add: step) }
  { case 2
    then consider "other \<in> set (map (\<lambda>(index, node). node_tray_id slot index node) indexed)"
      | "bt_get (tr_items (upsert_node fails slot sections st node)) other \<noteq> None"
      using Cons.IH(2) [of "upsert_node fails slot sections st node"] by auto
    then show ?case using step(2) [of st] by cases (auto simp: case_prod_unfold) }
qed simp_all

lemma retire_all:
  "bt_get (tr_items (foldl (\<lambda>st tray_id. retire tray_id st) st ids)) other =
     (if other \<in> set ids then None else bt_get (tr_items st) other)"
  by (induction ids arbitrary: st) (auto simp: retire_def)

lemma update_machine_trays_items:
  fixes st
  defines "slot \<equiv> ''rackio-status'' \<in> set (tr_machine_ids st) \<and> bt_get (tr_items st) ''rackio-status'' \<noteq> None"
  shows "set (tr_machine_ids (update_machine_trays fails nodes st)) = set (node_ids slot nodes)"
    and "bt_get (tr_items (update_machine_trays fails nodes st)) other =
      (if other \<in> set (tr_machine_ids st) - set (node_ids slot nodes) then None
       else bt_get (tr_items (foldl (upsert_node fails slot (fleet_tray_sections nodes)) st (List.enumerate 0 nodes))) other)"
  by (auto simp: update_machine_trays_def node_ids_def slot_def Let_def retire_all retired_tray_ids_def)

lemma update_machine_trays_ok: "trays_ok st \<Longrightarrow> trays_ok (update_machine_trays fails nodes st)"
  using upsert_nodes_frame(2)
  by (fastforce simp: trays_ok_def update_machine_trays_items node_ids_def split: if_splits)

lemma run_tray_monitor_ok: "trays_ok (run_tray_monitor polls)"
proof -
  have step: "trays_ok st \<Longrightarrow> trays_ok (update_tray_from_daemon fails poll st)" for fails poll st
    by (cases poll) (auto intro: update_status_tray_ok update_machine_trays_ok)
  have "trays_ok st \<Longrightarrow> trays_ok (foldl (\<lambda>st (fails, poll). update_tray_from_daemon fails poll st) st polls)" for st
    by (induction polls arbitrary: st) (auto intro: step)
  then show ?thesis by (simp add: run_tray_monitor_def trays_ok_def)
qed
section \<open>Properties\<close>

text \<open>The item of the machine at a position: the first one carries the rows of the whole fleet.\<close>

definition item_of :: "TrayNodeSnapshot list \<Rightarrow> nat \<Rightarrow> TrayNodeSnapshot \<Rightarrow> tray_item" where
  "item_of nodes index node =
     shown_as (projr (tray_state_color (tn_state node))) (tray_node_status node) (mm_title (tray_machine_menu node))
       (if index = 0 then fleet_tray_sections nodes else [mm_section (tray_machine_menu node)])"

lemma upsert_nodes_calm:
  assumes "\<forall>(index, node) \<in> set indexed. is_ok (tray_state_color (tn_state node))"
    and "distinct (map (\<lambda>(index, node). node_tray_id slot index node) indexed)"
  shows "bt_get (tr_items (foldl (upsert_node calm slot (fleet_tray_sections nodes)) st indexed)) other =
    (case map_of (map (\<lambda>(index, node). (node_tray_id slot index node, item_of nodes index node)) indexed) other of
       None \<Rightarrow> bt_get (tr_items st) other | Some item \<Rightarrow> Some item)"
  using assms
proof (induction indexed arbitrary: st)
  case (Cons entry indexed)
  obtain index node where entry: "entry = (index, node)" by fastforce
  obtain color where color: "tray_state_color (tn_state node) = Inr color"
    using Cons.prems(1) entry by (auto simp: is_ok_iff)
  have step: "bt_get (tr_items (upsert_node calm slot (fleet_tray_sections nodes) st (index, node))) other =
      (if other = node_tray_id slot index node then Some (item_of nodes index node) else bt_get (tr_items st) other)" for st other
    unfolding upsert_node_def prod.case Let_def upsert_calm(2) [OF color] by (simp add: item_of_def color)
  have "map_of (map (\<lambda>(index, node). (node_tray_id slot index node, item_of nodes index node)) indexed)
      (node_tray_id slot index node) = None"
    using Cons.prems(2) entry by (force simp: map_of_eq_None_iff image_image case_prod_unfold)
  then show ?case
    using Cons.IH [of "upsert_node calm slot (fleet_tray_sections nodes) st entry"] Cons.prems entry
    by (auto simp: step split: option.splits)
qed simp

lemma node_ids_Cons: "node_ids slot (node # nodes) = node_tray_id slot 0 node # map machine_tray_id nodes"
proof -
  have "map (\<lambda>(index, node). node_tray_id slot index node) (List.enumerate (Suc k) ns) = map machine_tray_id ns" for k ns
    by (induction ns arbitrary: k) (simp_all add: node_tray_id_def)
  then show ?thesis by (simp add: node_ids_def)
qed

lemma node_ids_distinct:
  assumes "distinct (map tn_id nodes)"
  shows "distinct (node_ids slot nodes)"
proof (cases nodes)
  case (Cons node rest)
  have "distinct (map machine_tray_id rest)" "machine_tray_id node \<notin> set (map machine_tray_id rest)"
    using assms Cons by (auto simp: distinct_map inj_on_def machine_tray_id_def)
  moreover have "''rackio-status'' \<notin> set (map machine_tray_id rest)" by (auto simp: machine_tray_id_def)
  ultimately show ?thesis unfolding Cons node_ids_Cons by (auto simp: node_tray_id_def)
qed (simp add: node_ids_def)
lemma fleet_items:
  assumes ok: "trays_ok st" and "nodes \<noteq> []" and "distinct (map tn_id nodes)"
    and "\<forall>node \<in> set nodes. is_ok (tray_state_color (tn_state node))"
  shows "\<exists>slot.
      (\<forall>tray_id fails. bt_get (tr_items (update_tray_from_daemon fails (Fleet True nodes) st)) tray_id \<noteq> None \<longrightarrow>
         tray_id \<in> set (node_ids slot nodes)) \<and>
      bt_get (tr_items (update_tray_from_daemon calm (Fleet True nodes) st)) =
        map_of (map (\<lambda>(index, node). (node_tray_id slot index node, item_of nodes index node)) (List.enumerate 0 nodes))"
proof -
  let ?slot = "''rackio-status'' \<in> set (tr_machine_ids st) \<and> bt_get (tr_items st) ''rackio-status'' \<noteq> None"
  have old: "bt_get (tr_items st) tray_id = None" if "tray_id \<notin> set (tr_machine_ids st)" for tray_id
    using ok that unfolding trays_ok_def by blast
  have left: "tray_id \<in> set (node_ids ?slot nodes)"
    if "bt_get (tr_items (update_machine_trays fails nodes st)) tray_id \<noteq> None" for tray_id fails
    using that upsert_nodes_frame(2) [of fails ?slot "fleet_tray_sections nodes" st "List.enumerate 0 nodes" tray_id] old
    unfolding update_machine_trays_items node_ids_def [symmetric] by (auto split: if_splits)
  let ?expected = "map_of (map (\<lambda>(index, node). (node_tray_id ?slot index node, item_of nodes index node)) (List.enumerate 0 nodes))"
  have "bt_get (tr_items (update_machine_trays calm nodes st)) tray_id = ?expected tray_id" for tray_id
  proof -
    have known: "\<forall>(index, node) \<in> set (List.enumerate 0 nodes). is_ok (tray_state_color (tn_state node))"
      using assms(4) by (auto simp: in_set_enumerate_eq)
    note calm = upsert_nodes_calm [OF known node_ids_distinct [OF assms(3), of ?slot, unfolded node_ids_def], of nodes st tray_id]
    have "?expected tray_id = None \<longleftrightarrow> tray_id \<notin> set (node_ids ?slot nodes)"
      by (simp add: map_of_eq_None_iff node_ids_def image_image case_prod_unfold)
    then show ?thesis
      unfolding update_machine_trays_items calm using old [of tray_id] by (auto split: option.splits)
  qed
  then show "\<exists>slot.
      (\<forall>tray_id fails. bt_get (tr_items (update_tray_from_daemon fails (Fleet True nodes) st)) tray_id \<noteq> None \<longrightarrow>
         tray_id \<in> set (node_ids slot nodes)) \<and>
      bt_get (tr_items (update_tray_from_daemon calm (Fleet True nodes) st)) =
        map_of (map (\<lambda>(index, node). (node_tray_id slot index node, item_of nodes index node)) (List.enumerate 0 nodes))"
    using left assms(2) by (intro exI [of _ ?slot]) auto
qed

lemma unavailable_items:
  assumes "trays_ok st" and "tray_state_color state = Inr color"
  shows "bt_get (tr_items (update_status_tray calm state message st)) tray_id =
    (if tray_id \<in> (if tr_machine_ids st = [] then {''rackio-status''} else set (tr_machine_ids st))
     then Some (shown_as color message message [status_section message]) else None)"
proof -
  have old: "bt_get (tr_items st) tray_id = None" if "tray_id \<notin> set (tr_machine_ids st)" for tray_id
    using assms(1) that unfolding trays_ok_def by blast
  show ?thesis
  proof (cases "tr_machine_ids st = []")
    case True
    note up = upsert_calm [OF assms(2), of "''rackio-status''" message message "[status_section message]" st]
    obtain st' where "upsert_tray calm ''rackio-status'' state message message [status_section message] st = (True, st')"
      using up(1) by (metis (full_types) prod.collapse)
    then show ?thesis using True up(2) [of tray_id] old [of tray_id] by (simp add: update_status_tray_def Let_def)
  next
    case False
    then show ?thesis
      using old [of tray_id] by (simp add: update_status_tray_def Let_def status_fold_calm [OF assms(2)])
  qed
qed

text \<open>
  C20. The menu bar shows the fleet, and nothing else. After any history of polls and refused operations of the windowing
  system, a poll that finds machines leaves no item of a machine that left the fleet; when nothing is refused, the items
  are exactly one per machine, each with its own colour, title, tooltip and rows. A poll that finds no daemon, with
  nothing refused, turns every item to the error state, so no item keeps showing a healthy machine, and there is at
  least one item.
\<close>

theorem status_items_match_fleet:
  fixes polls nodes
  defines "st \<equiv> run_tray_monitor polls"
  assumes "nodes \<noteq> []" and "distinct (map tn_id nodes)"
    and "\<forall>node \<in> set nodes. is_ok (tray_state_color (tn_state node))"
  shows "(\<exists>slot.
      (\<forall>tray_id fails. bt_get (tr_items (update_tray_from_daemon fails (Fleet True nodes) st)) tray_id \<noteq> None \<longrightarrow>
         tray_id \<in> set (node_ids slot nodes)) \<and>
      bt_get (tr_items (update_tray_from_daemon calm (Fleet True nodes) st)) =
        map_of (map (\<lambda>(index, node). (node_tray_id slot index node, item_of nodes index node)) (List.enumerate 0 nodes))) \<and>
    (\<forall>tray_id item. bt_get (tr_items (update_tray_from_daemon calm DaemonUnavailable st)) tray_id = Some item \<longrightarrow>
       it_color item = [255, 111, 103, 255] \<and> it_title item = ''Agent unavailable'' \<and>
       it_menu item = [status_section ''Agent unavailable'']) \<and>
    (\<exists>tray_id. bt_get (tr_items (update_tray_from_daemon calm DaemonUnavailable st)) tray_id \<noteq> None)"
proof -
  have ok: "trays_ok st" unfolding st_def by (rule run_tray_monitor_ok)
  have "tray_state_color ''daemon_unavailable'' = Inr [255, 111, 103, 255]" by (simp add: tray_state_color_def)
  note red = unavailable_items [OF ok this, of "''Agent unavailable''"]
  have "\<exists>tray_id. tray_id \<in> (if tr_machine_ids st = [] then {''rackio-status''} else set (tr_machine_ids st))"
    by (cases "tr_machine_ids st") auto
  then show ?thesis using fleet_items [OF ok assms(2-4)] by (auto simp: red shown_as_def split: if_splits)
qed

definition witness_node :: "string \<Rightarrow> string \<Rightarrow> TrayNodeSnapshot" where
  "witness_node node_id state =
     \<lparr>tn_id = node_id, tn_name = ''rack'', tn_tray_label = ''R'', tn_state = state, tn_path = ''lan_direct'',
      tn_cpu_percent = Some (Fin 12), tn_memory_used_bytes = Some 3000, tn_memory_total_bytes = Some 4000,
      tn_swap_used_bytes = None, tn_swap_total_bytes = None, tn_disk_used_bytes = None, tn_disk_total_bytes = None,
      tn_disk_mount = None, tn_network_received = None, tn_network_sent = None, tn_uptime_seconds = Some 93784,
      tn_temperature = None, tn_rtt_ms = Some 8\<rparr>"

definition witness_polls :: "(tray_env \<times> poll) list" where
  "witness_polls =
     [(\<lambda>_ n. n = 5, DaemonUnavailable), (calm, Fleet True [witness_node ''a'' ''healthy'', witness_node ''b'' ''offline''])]"

text \<open>Machine \<open>b\<close> leaves the fleet: its item goes, the other one shows its machine.\<close>

theorem status_items_match_fleet_witness:
  "\<exists>tray_id item.
     bt_get (tr_items (update_tray_from_daemon calm (Fleet True [witness_node ''a'' ''warning'']) (run_tray_monitor witness_polls)))
       tray_id = Some item \<and> it_title item = ''R '' @ tray_state_symbol ''warning'' \<and>
     bt_get (tr_items (update_tray_from_daemon calm (Fleet True [witness_node ''a'' ''warning'']) (run_tray_monitor witness_polls)))
       ''machine-b'' = None"
proof -
  let ?nodes = "[witness_node ''a'' ''warning'']"
  have hyps: "?nodes \<noteq> []" "distinct (map tn_id ?nodes)" "\<forall>node \<in> set ?nodes. is_ok (tray_state_color (tn_state node))"
    by (simp_all add: witness_node_def tray_state_color_def)
  from status_items_match_fleet [OF hyps, of witness_polls] obtain slot where
    items: "bt_get (tr_items (update_tray_from_daemon calm (Fleet True ?nodes) (run_tray_monitor witness_polls))) =
      map_of (map (\<lambda>(index, node). (node_tray_id slot index node, item_of ?nodes index node)) (List.enumerate 0 ?nodes))"
    by blast
  show ?thesis
    unfolding items
    by (intro exI [of _ "node_tray_id slot 0 (witness_node ''a'' ''warning'')"])
      (simp add: node_tray_id_def machine_tray_id_def item_of_def shown_as_def tray_node_status_def witness_node_def)
qed

section \<open>Figures are honest\<close>

lemma scale_units_spec:
  assumes "v = b div 1024 ^ u" and "if u = 0 then r = 0 else r = b div 1024 ^ (u - 1) mod 1024 \<and> 0 < v" and "u < 5"
    and "scale_units v r u = (v', r', u')"
  shows "v' = b div 1024 ^ u' \<and> (if u' = 0 then r' = 0 else r' = b div 1024 ^ (u' - 1) mod 1024 \<and> 0 < v') \<and>
    u' < 5 \<and> (u' = 4 \<or> v' < 1024)"
  using assms
proof (induction v r u rule: scale_units.induct)
  case (1 v r u)
  show ?case
  proof (cases "1024 \<le> v \<and> u + 1 < length UNITS")
    case True
    have a: "v div 1024 = b div 1024 ^ (u + 1)" using "1.prems"(1) by (simp add: div_mult2_eq [symmetric] mult.commute)
    have c: "if u + 1 = 0 then v mod 1024 = 0 else v mod 1024 = b div 1024 ^ (u + 1 - 1) mod 1024 \<and> 0 < v div 1024"
      using "1.prems"(1) True by (simp add: div_greater_zero_iff)
    have run: "scale_units (v div 1024) (v mod 1024) (u + 1) = (v', r', u')"
      using "1.prems"(4) True by (simp add: scale_units.simps [of v r u])
    have "u + 1 < 5" using True by (simp add: UNITS_def)
    then show ?thesis by (rule "1.IH" [OF True a c _ run])
  next
    case False
    then have "(v', r', u') = (v, r, u)" using "1.prems"(4) by (simp add: scale_units.simps [of v r u] split: if_splits)
    then show ?thesis using "1.prems" False by (auto simp: UNITS_def)
  qed
qed

text \<open>One decimal of a quotient of 1024, rounded.\<close>

lemma tenths_error:
  assumes "remainder < 1024"
  shows "1024 * ((remainder * 10 + 512) div 1024) \<le> remainder * 10 + 512"
    and "remainder * 10 + 512 < 1024 * ((remainder * 10 + 512) div 1024) + 1024"
    and "(remainder * 10 + 512) div 1024 \<le> (10 :: nat)"
  using assms by simp_all

lemma byte_parts_error:
  assumes "byte_parts bytes = (v, Some tenths, unit)"
  shows "1 < unit" and "tenths < 10"
    and "1024 ^ unit * (10 * v + tenths) \<le> 10 * unat bytes + 512 * 1024 ^ (unit - 1)"
    and "10 * unat bytes < 1024 ^ unit * (10 * v + tenths) + 521 * 1024 ^ (unit - 1)"
proof -
  obtain v0 r u where scaled: "scale_units (unat bytes) 0 0 = (v0, r, u)" by (metis prod_cases3)
  define K where "K = (1024 :: nat) ^ (u - 1)"
  define t where "t = (r * 10 + 512) div 1024"
  have r: "r < 1024"
    using scale_units_spec [of "unat bytes" "unat bytes" 0 0 v0 r u] scaled by (auto split: if_splits)
  have parts: "1 < u" "unit = u" "tenths < 10" "10 * v + tenths = 10 * v0 + t"
    using assms scaled tenths_error(3) [OF r]
    by (auto simp: byte_parts_def Let_def t_def split: if_splits)
  have spec: "v0 = unat bytes div 1024 ^ u" "r = unat bytes div K mod 1024"
    using scale_units_spec [of "unat bytes" "unat bytes" 0 0 v0 r u] scaled parts(1) by (auto simp: K_def)
  have pow: "(1024 :: nat) ^ u = 1024 * K" using parts(1) by (cases u) (simp_all add: K_def)
  have split: "unat bytes = 1024 * K * v0 + K * r + unat bytes mod K"
  proof -
    have "v0 = unat bytes div K div 1024" unfolding spec(1) pow by (simp add: div_mult2_eq mult.commute)
    then have "unat bytes div K = 1024 * v0 + r" using spec(2) by simp
    then have "unat bytes = K * (1024 * v0 + r) + unat bytes mod K" by (metis div_mult_mod_eq mult.commute)
    then show ?thesis by (simp add: algebra_simps)
  qed
  have low: "unat bytes mod K < K" by (simp add: K_def)
  note t = tenths_error(1,2) [OF r, folded t_def]
  have up: "K * (1024 * t) \<le> K * (r * 10 + 512)" using t(1) by (rule mult_le_mono2)
  have "r * 10 + 512 + 1 \<le> 1024 * t + 1024" using t(2) by simp
  then have down: "K * (r * 10 + 513) \<le> K * (1024 * t + 1024)" by (intro mult_le_mono2) simp
  show "1 < unit" "tenths < 10" using parts by simp_all
  show "1024 ^ unit * (10 * v + tenths) \<le> 10 * unat bytes + 512 * 1024 ^ (unit - 1)"
    unfolding parts(2,4) pow K_def [symmetric] using up split by (simp add: algebra_simps)
  show "10 * unat bytes < 1024 ^ unit * (10 * v + tenths) + 521 * 1024 ^ (unit - 1)"
    unfolding parts(2,4) pow K_def [symmetric] using down split low by (simp add: algebra_simps)
qed

lemma half_kib: "(b + 512) div (1024 :: nat) = (if 1024 \<le> b mod 1024 * 2 then b div 1024 + 1 else b div 1024)"
proof -
  have "b + 512 = (b mod 1024 + 512) + b div 1024 * 1024" by simp
  then have "(b + 512) div 1024 = ((b mod 1024 + 512) + b div 1024 * 1024) div 1024" by (rule arg_cong)
  also have "\<dots> = b div 1024 + (b mod 1024 + 512) div 1024" by (rule div_mult_self1) simp
  finally have "(b + 512) div 1024 = b div 1024 + (b mod 1024 + 512) div 1024" .
  moreover have "(b mod 1024 + 512) div 1024 = (if 1024 \<le> b mod 1024 * 2 then 1 else 0)"
    using mod_less_divisor [of 1024 b] by (auto intro: div_nat_eqI)
  ultimately show ?thesis by simp
qed

lemma ratio_exact:
  "case ratio_basis_points used capacity of
      None \<Rightarrow> used = None \<or> capacity = None \<or> capacity = Some 0
    | Some bp \<Rightarrow> unat bp \<le> 10000 \<and> gauge_fill_width bp \<le> GAUGE_WIDTH \<and>
        (\<forall>u c. used = Some u \<and> capacity = Some c \<and> unat u \<le> u64_max div 10000 \<longrightarrow>
           unat bp = min (unat u * 10000 div unat c) 10000)"
proof (cases "ratio_basis_points used capacity")
  case None
  then show ?thesis
    by (auto simp: ratio_basis_points_def word_gt_0 split: option.splits if_splits)
next
  case (Some bp)
  then obtain u c where args: "used = Some u" "capacity = Some c"
    "bp = of_nat (min (unat (u64_saturating_mul u 10000) div unat c) 10000)"
    by (auto simp: ratio_basis_points_def split: option.splits if_splits)
  have "unat (of_nat n :: u16) = n" if "n \<le> 10000" for n
    using that by (simp add: of_nat_inverse)
  then have bp: "unat bp = min (unat (u64_saturating_mul u 10000) div unat c) 10000" using args(3) by simp
  have "unat (u64_saturating_mul u 10000) = unat u * 10000" if "unat u \<le> u64_max div 10000"
  proof -
    have "unat u * 10000 \<le> u64_max" using that by (simp add: u64_max_def)
    then show ?thesis by (simp add: u64_saturating_mul_def u64_max_def of_nat_inverse)
  qed
  then show ?thesis using Some args bp by (auto simp: gauge_fill_width_def GAUGE_WIDTH_def)
qed
text \<open>
  Figures in the menu bar are bounded and honest. A percentage is the used share rounded down to a hundredth of a
  percent, capped at the full bar, for every reading below 1.8 petabytes, and a gauge never paints beyond its width. A
  size is printed in the largest unit it fills, exactly in bytes, to the nearest KiB, and from MiB up with one decimal
  that is off by less than 0.051 units.
\<close>

theorem tray_figures_honest:
  "(case ratio_basis_points used capacity of
      None \<Rightarrow> used = None \<or> capacity = None \<or> capacity = Some 0
    | Some bp \<Rightarrow> unat bp \<le> 10000 \<and> gauge_fill_width bp \<le> GAUGE_WIDTH \<and>
        (\<forall>u c. used = Some u \<and> capacity = Some c \<and> unat u \<le> u64_max div 10000 \<longrightarrow>
           unat bp = min (unat u * 10000 div unat c) 10000)) \<and>
   (case byte_parts bytes of (v, tenths, unit) \<Rightarrow>
      unit < 5 \<and> (unit = 0 \<or> 1024 ^ unit \<le> unat bytes) \<and> (unit = 4 \<or> unat bytes < 1024 ^ (unit + 1)) \<and>
      (case tenths of
         None \<Rightarrow> (unit = 0 \<and> v = unat bytes) \<or> (unit = 1 \<and> v = (unat bytes + 512) div 1024)
       | Some t \<Rightarrow> 1 < unit \<and> t < 10 \<and>
           1024 ^ unit * (10 * v + t) \<le> 10 * unat bytes + 512 * 1024 ^ (unit - 1) \<and>
           10 * unat bytes < 1024 ^ unit * (10 * v + t) + 521 * 1024 ^ (unit - 1)))"
proof -
  obtain v tenths unit where parts: "byte_parts bytes = (v, tenths, unit)" by (metis prod_cases3)
  obtain v0 r where scaled: "scale_units (unat bytes) 0 0 = (v0, r, unit)"
    using parts by (auto simp: byte_parts_def Let_def split: prod.splits if_splits)
  note spec = scale_units_spec [of "unat bytes" "unat bytes" 0 0 v0 r unit]
  have facts: "v0 = unat bytes div 1024 ^ unit" "unit < 5" "unit = 4 \<or> v0 < 1024"
    "unit \<noteq> 0 \<Longrightarrow> r = unat bytes div 1024 ^ (unit - 1) mod 1024 \<and> 0 < v0" "unit = 0 \<Longrightarrow> r = 0"
    using spec scaled by (auto split: if_splits)
  have low: "unit = 0 \<or> 1024 ^ unit \<le> unat bytes" using facts(1,4) by (auto simp: div_greater_zero_iff)
  have high: "unit = 4 \<or> unat bytes < 1024 ^ (unit + 1)"
    using facts(1,3) by (auto simp: div_less_iff_less_mult mult.commute)
  have whole: "(unit = 0 \<and> v = unat bytes) \<or> (unit = 1 \<and> v = (unat bytes + 512) div 1024)" if "tenths = None"
  proof (cases "unit = 0")
    case True
    then show ?thesis using parts that scaled facts(1,5) by (auto simp: byte_parts_def Let_def split: if_splits)
  next
    case False
    then have "unit = 1" "v = (if 1024 \<le> r * 2 then v0 + 1 else v0)"
      using parts that scaled by (auto simp: byte_parts_def Let_def split: if_splits)
    moreover have "v0 = unat bytes div 1024" "r = unat bytes mod 1024" using facts(1,4) \<open>unit = 1\<close> by simp_all
    ultimately show ?thesis using half_kib [of "unat bytes"] by simp
  qed
  have "case tenths of
      None \<Rightarrow> (unit = 0 \<and> v = unat bytes) \<or> (unit = 1 \<and> v = (unat bytes + 512) div 1024)
    | Some t \<Rightarrow> 1 < unit \<and> t < 10 \<and>
        1024 ^ unit * (10 * v + t) \<le> 10 * unat bytes + 512 * 1024 ^ (unit - 1) \<and>
        10 * unat bytes < 1024 ^ unit * (10 * v + t) + 521 * 1024 ^ (unit - 1)"
  proof (cases tenths)
    case None
    then show ?thesis using whole by simp
  next
    case (Some t)
    then show ?thesis using byte_parts_error [of bytes v t unit] parts by simp
  qed
  moreover have "case ratio_basis_points used capacity of
      None \<Rightarrow> used = None \<or> capacity = None \<or> capacity = Some 0
    | Some bp \<Rightarrow> unat bp \<le> 10000 \<and> gauge_fill_width bp \<le> GAUGE_WIDTH \<and>
        (\<forall>u c. used = Some u \<and> capacity = Some c \<and> unat u \<le> u64_max div 10000 \<longrightarrow>
           unat bp = min (unat u * 10000 div unat c) 10000)"
    by (rule ratio_exact)
  ultimately show ?thesis using parts facts(2) low high by simp
qed

text \<open>1101107 bytes are 1.0501 MiB and are shown as 1.0 MiB.\<close>

theorem tray_figures_honest_witness:
  "ratio_basis_points (Some 3) (Some 4) = Some 7500 \<and> unat (7500 :: u16) = min (3 * 10000 div 4) 10000 \<and>
   byte_parts 1101107 = (1, Some 0, 2) \<and> 10 * 1101107 < (1024 :: nat) ^ 2 * 10 + 521 * 1024"
proof -
  have shown: "ratio_basis_points (Some 3) (Some 4) = Some 7500" "byte_parts 1101107 = (1, Some 0, 2)" by code_simp+
  then show ?thesis
    using tray_figures_honest [of "Some 3" "Some 4" 1101107] by (simp add: u64_max_def)
qed

end
