(* ===== verification/Pipes.thy ===== *)
theory Pipes
  imports Local_Ipc Text_Lines
begin

text \<open>
  The local socket on Windows (\<open>crates/rackio-windows-ipc\<close> and the Windows half of \<open>runtime/local_ipc.rs\<close>): the pipe's
  name, the client that opens it, the security descriptor that guards it, the check of a caller's token while the thread
  impersonates the caller, and the loop that hands authorized connections to the daemon. The Win32 calls are parameters:
  each returns its documented results or an error number.
\<close>

unbundle bit_operations_syntax

section \<open>Names and constants\<close>

datatype PipeError =
  PipePrefixMissing | PipeNameInvalid | OsError u32 | PipeTimedOut | NullText | NotUtf16 | CallerDenied

abbreviation backslash :: char where "backslash \<equiv> CHR 0x5C"

definition pipe_namespace :: string where
  "pipe_namespace = [backslash, backslash, CHR ''.'', backslash] @ ''pipe'' @ [backslash]"

definition DEFAULT_PIPE_NAME :: string where
  "DEFAULT_PIPE_NAME = pipe_namespace @ ''rackio-agent''"

definition VIEWER_GROUP_NAME :: string where
  "VIEWER_GROUP_NAME = ''Rackio Viewers''"

definition PIPE_SDDL_PREFIX :: string where
  "PIPE_SDDL_PREFIX = ''D:P(A;;GA;;;SY)(A;;GA;;;BA)(A;;0x100183;;;''"

text \<open>The variable \<open>RACKIO_PIPE\<close> is \<open>None\<close> when it is unset or not Unicode.\<close>

definition configured_pipe_name :: "string option \<Rightarrow> (PipeError, string) result" where
  "configured_pipe_name var =
     (let name = (case var of None \<Rightarrow> DEFAULT_PIPE_NAME | Some n \<Rightarrow> n)
      in rbind (ok_or PipePrefixMissing (strip_prefix pipe_namespace name)) (\<lambda>suffix.
           if suffix = [] \<or> list_ex (\<lambda>c. c = backslash \<or> c = CHR ''/'') suffix then Inl PipeNameInvalid
           else Inr name))"

section \<open>The client\<close>

text \<open>The access rights and error numbers of the Win32 headers.\<close>

definition FILE_READ_DATA :: u32 where "FILE_READ_DATA = 0x1"
definition FILE_WRITE_DATA :: u32 where "FILE_WRITE_DATA = 0x2"
definition FILE_CREATE_PIPE_INSTANCE :: u32 where "FILE_CREATE_PIPE_INSTANCE = 0x4"
definition FILE_READ_ATTRIBUTES :: u32 where "FILE_READ_ATTRIBUTES = 0x80"
definition FILE_WRITE_ATTRIBUTES :: u32 where "FILE_WRITE_ATTRIBUTES = 0x100"
definition SYNCHRONIZE :: u32 where "SYNCHRONIZE = 0x100000"
definition ERROR_FILE_NOT_FOUND :: u32 where "ERROR_FILE_NOT_FOUND = 2"
definition ERROR_INSUFFICIENT_BUFFER :: u32 where "ERROR_INSUFFICIENT_BUFFER = 122"
definition ERROR_PIPE_BUSY :: u32 where "ERROR_PIPE_BUSY = 231"

definition desired_access :: u32 where
  "desired_access =
     FILE_READ_DATA OR FILE_WRITE_DATA OR FILE_READ_ATTRIBUTES OR FILE_WRITE_ATTRIBUTES OR SYNCHRONIZE"

definition transient :: "u32 \<Rightarrow> bool" where
  "transient e \<longleftrightarrow> e = ERROR_PIPE_BUSY \<or> e = ERROR_FILE_NOT_FOUND"

text \<open>
  \<open>opens attempt\<close> is what opening the pipe gives at that attempt. The loop also reports how many milliseconds it slept.
\<close>

fun connect_attempts :: "(nat \<Rightarrow> (u32, 'h) result) \<Rightarrow> nat list \<Rightarrow> (PipeError, 'h) result \<times> nat" where
  "connect_attempts opens [] = (Inl PipeTimedOut, 0)"
| "connect_attempts opens (attempt # rest) =
     (case opens attempt of
        Inr client \<Rightarrow> (Inr client, 0)
      | Inl e \<Rightarrow>
          if attempt < 19 \<and> transient e
          then (case connect_attempts opens rest of (res, slept) \<Rightarrow> (res, 50 + slept))
          else (Inl (OsError e), 0))"

definition connect_client :: "(nat \<Rightarrow> (u32, 'h) result) \<Rightarrow> (PipeError, 'h) result \<times> nat" where
  "connect_client opens = connect_attempts opens [0..<20]"

section \<open>The guard of the pipe\<close>

text \<open>
  The Win32 calls: the sizes a first lookup reports with the last error, the lookup into buffers of these sizes, the text
  of an identifier (\<open>None\<close> for a null pointer, otherwise the memory it points to), the descriptor of a text, the
  buffer and size of a well-known identifier, and the two conversions between UTF-8 and UTF-16.
\<close>

record 'd win_api =
  wa_sizes :: "u16 list \<Rightarrow> u32 \<times> u32 \<times> u32"
  wa_lookup :: "u16 list \<Rightarrow> u32 \<Rightarrow> u32 \<Rightarrow> (u32, bytes) result"
  wa_sid_text :: "bytes \<Rightarrow> (u32, u16 list option) result"
  wa_descriptor :: "u16 list \<Rightarrow> (u32, 'd) result"
  wa_well_known :: "nat \<Rightarrow> nat \<Rightarrow> (u32, bytes \<times> u32) result"
  wa_encode :: "string \<Rightarrow> u16 list"
  wa_decode :: "u16 list \<Rightarrow> string option"

definition wide :: "'d win_api \<Rightarrow> string \<Rightarrow> u16 list" where
  "wide win s = wa_encode win s @ [0]"

definition wide_ptr_to_string :: "'d win_api \<Rightarrow> u16 list option \<Rightarrow> (PipeError, string) result" where
  "wide_ptr_to_string win p =
     rbind (ok_or NullText p) (\<lambda>memory. ok_or NotUtf16 (wa_decode win (takeWhile (\<lambda>w. w \<noteq> 0) memory)))"

definition lookup_account_sid :: "'d win_api \<Rightarrow> string \<Rightarrow> (PipeError, bytes) result" where
  "lookup_account_sid win account =
     (case wa_sizes win (wide win account) of
        (e, sid_size, domain_size) \<Rightarrow>
          if e \<noteq> ERROR_INSUFFICIENT_BUFFER then Inl (OsError e)
          else map_err OsError (wa_lookup win (wide win account) sid_size domain_size))"

definition sid_to_string :: "'d win_api \<Rightarrow> bytes \<Rightarrow> (PipeError, string) result" where
  "sid_to_string win sid = rbind (map_err OsError (wa_sid_text win sid)) (wide_ptr_to_string win)"

definition security_descriptor :: "'d win_api \<Rightarrow> string \<Rightarrow> (PipeError, 'd) result" where
  "security_descriptor win sddl = map_err OsError (wa_descriptor win (wide win sddl))"

definition SECURITY_MAX_SID_SIZE :: nat where "SECURITY_MAX_SID_SIZE = 68"
definition WinBuiltinAdministratorsSid :: nat where "WinBuiltinAdministratorsSid = 26"

definition well_known_sid :: "'d win_api \<Rightarrow> nat \<Rightarrow> (PipeError, bytes) result" where
  "well_known_sid win kind =
     (case wa_well_known win kind SECURITY_MAX_SID_SIZE of
        Inl e \<Rightarrow> Inl (OsError e) | Inr (sid, sid_size) \<Rightarrow> Inr (take (unat sid_size) sid))"

record 'd PipeSecurity =
  ps_descriptor :: 'd
  ps_viewer_group_sid :: bytes
  ps_administrators_sid :: bytes

definition for_local_group :: "'d win_api \<Rightarrow> string \<Rightarrow> (PipeError, 'd PipeSecurity) result" where
  "for_local_group win group_name =
     rbind (lookup_account_sid win group_name) (\<lambda>viewer_group_sid.
     rbind (sid_to_string win viewer_group_sid) (\<lambda>sid.
     rbind (security_descriptor win (PIPE_SDDL_PREFIX @ sid @ '')'')) (\<lambda>descriptor.
     rbind (well_known_sid win WinBuiltinAdministratorsSid) (\<lambda>administrators_sid.
       Inr \<lparr>ps_descriptor = descriptor, ps_viewer_group_sid = viewer_group_sid,
            ps_administrators_sid = administrators_sid\<rparr>))))"

section \<open>The check of a caller\<close>

text \<open>
  A caller's side of the check: the error of impersonating it, the answer for a group (an error, or the flag that
  \<open>CheckTokenMembership\<close> writes), and the error of returning to the daemon's own identity. The thread's identity is part
  of the result, since a pooled thread that kept the caller's would run later work as the caller.
\<close>

record caller =
  ca_impersonate :: "u32 option"
  ca_membership :: "bytes \<Rightarrow> (u32, int) result"
  ca_revert :: "u32 option"

datatype identity = AsDaemon | AsCaller

datatype verdict = Decided "(PipeError, unit) result" | Aborted

definition token_is_member :: "caller \<Rightarrow> bytes \<Rightarrow> (PipeError, bool) result" where
  "token_is_member who sid =
     (case ca_membership who sid of Inl e \<Rightarrow> Inl (OsError e) | Inr is_member \<Rightarrow> Inr (is_member \<noteq> 0))"

definition verify_client_after_read :: "'d PipeSecurity \<Rightarrow> caller \<Rightarrow> verdict \<times> identity" where
  "verify_client_after_read security who =
     (case ca_impersonate who of
        Some e \<Rightarrow> (Decided (Inl (OsError e)), AsDaemon)
      | None \<Rightarrow>
          let authorized =
                rbind (token_is_member who (ps_viewer_group_sid security)) (\<lambda>viewer.
                  if viewer then Inr True else token_is_member who (ps_administrators_sid security))
          in case ca_revert who of
               Some _ \<Rightarrow> (Aborted, AsCaller)
             | None \<Rightarrow>
                 (Decided (rbind authorized (\<lambda>allowed. if allowed then Inr () else Inl CallerDenied)), AsDaemon))"

section \<open>The server\<close>

text \<open>
  One turn of the loop: waiting for a caller may fail, so may creating the next instance of the pipe; then the caller
  sends its first byte, closes, or stays silent for two seconds.
\<close>

datatype first_byte = FirstByte char | FirstClosed | FirstLate

record pipe_turn =
  pt_connect :: "u32 option"
  pt_next :: "u32 option"
  pt_first :: first_byte
  pt_caller :: caller
  pt_arrival :: arrival

datatype server_state = Listening | Failed PipeError | ProcessAborted

text \<open>\<open>run_local_server\<close>: the connections handed to \<open>serve_local_stream_prefixed\<close>, each with the byte already read.\<close>

fun pipe_loop :: "'d PipeSecurity \<Rightarrow> pipe_turn list \<Rightarrow> (char \<times> pipe_turn) list \<times> server_state" where
  "pipe_loop security [] = ([], Listening)"
| "pipe_loop security (t # rest) =
     (case pt_connect t of
        Some e \<Rightarrow> ([], Failed (OsError e))
      | None \<Rightarrow>
          (case pt_next t of
             Some e \<Rightarrow> ([], Failed (OsError e))
           | None \<Rightarrow>
               (case pt_first t of
                  FirstClosed \<Rightarrow> pipe_loop security rest
                | FirstLate \<Rightarrow> pipe_loop security rest
                | FirstByte b \<Rightarrow>
                    (case verify_client_after_read security (pt_caller t) of
                       (Aborted, _) \<Rightarrow> ([], ProcessAborted)
                     | (Decided (Inl _), _) \<Rightarrow> pipe_loop security rest
                     | (Decided (Inr _), _) \<Rightarrow> map_prod (Cons (b, t)) id (pipe_loop security rest)))))"

text \<open>The pipe is guarded before it exists: its first instance is created with the descriptor of the viewer group.\<close>

definition run_local_server_windows ::
  "'d win_api \<Rightarrow> string option \<Rightarrow> ('d \<Rightarrow> string \<Rightarrow> u32 option) \<Rightarrow> pipe_turn list \<Rightarrow>
   (char \<times> pipe_turn) list \<times> server_state" where
  "run_local_server_windows win var create turns =
     (case for_local_group win VIEWER_GROUP_NAME of
        Inl e \<Rightarrow> ([], Failed e)
      | Inr security \<Rightarrow>
          (case configured_pipe_name var of
             Inl e \<Rightarrow> ([], Failed e)
           | Inr pipe_name \<Rightarrow>
               (case create (ps_descriptor security) pipe_name of
                  Some e \<Rightarrow> ([], Failed (OsError e))
                | None \<Rightarrow> pipe_loop security turns)))"

text \<open>The commands of the served connections, in the order they were handed over.\<close>

definition serve_pipes ::
  "(pipe_turn \<Rightarrow> ('cert, 'url, 'g, 'f, 'j, 'h) local_env) \<Rightarrow> (string \<Rightarrow> LocalCommand option) \<Rightarrow> (char \<times> pipe_turn) list \<Rightarrow>
   ('g, 'f, 'j, 'c, 'h) LocalContext \<Rightarrow> ('g, 'f, 'j, 'c, 'h) LocalContext" where
  "serve_pipes envs parse served ctx =
     foldl (\<lambda>c (b, t). snd (serve_local_stream_prefixed (envs t) parse [b] (pt_arrival t) c)) ctx served"

section \<open>The client asks for no more than the pipe grants\<close>

definition hex_digit_value :: "char \<Rightarrow> nat" where
  "hex_digit_value c = (if char_in 48 57 c then of_char c - 48 else of_char c - 87)"

definition hex_value :: "string \<Rightarrow> nat" where
  "hex_value = foldl (\<lambda>n c. 16 * n + hex_digit_value c) 0"

lemma desired_access_mask: "desired_access = 0x100183"
  by (simp add: desired_access_def FILE_READ_DATA_def FILE_WRITE_DATA_def FILE_READ_ATTRIBUTES_def
      FILE_WRITE_ATTRIBUTES_def SYNCHRONIZE_def)

lemma sddl_grants_mask:
  "PIPE_SDDL_PREFIX = ''D:P(A;;GA;;;SY)(A;;GA;;;BA)'' @ ''(A;;0x'' @ ''100183'' @ '';;;''"
  "hex_value ''100183'' = unat desired_access"
  by (simp_all add: PIPE_SDDL_PREFIX_def hex_value_def hex_digit_value_def char_in_def desired_access_mask)

text \<open>An attempt after which the client does not try again.\<close>

definition final_attempt :: "(nat \<Rightarrow> (u32, 'h) result) \<Rightarrow> nat \<Rightarrow> bool" where
  "final_attempt opens n \<longleftrightarrow> n = 19 \<or> (case opens n of Inl e \<Rightarrow> \<not> transient e | Inr _ \<Rightarrow> True)"

lemma connect_attempts_final:
  "k < 20 \<Longrightarrow> final_attempt opens k \<Longrightarrow> connect_attempts opens [k..<20] = (map_err OsError (opens k), 0)"
  using connect_attempts.simps(2) [of opens k "[Suc k..<20]"]
  by (auto simp: final_attempt_def upt_conv_Cons [of k 20, symmetric] split: sum.splits)

lemma connect_attempts_again:
  "k < 20 \<Longrightarrow> \<not> final_attempt opens k \<Longrightarrow>
    k < 19 \<and> connect_attempts opens [k..<20] =
      (fst (connect_attempts opens [Suc k..<20]), 50 + snd (connect_attempts opens [Suc k..<20]))"
  using connect_attempts.simps(2) [of opens k "[Suc k..<20]"]
  by (auto simp: final_attempt_def upt_conv_Cons [of k 20, symmetric] split: sum.splits prod.splits)

lemma connect_attempts_stop:
  assumes "k < 20"
  shows "\<exists>n. k \<le> n \<and> n < 20 \<and> (\<forall>m. k \<le> m \<and> m < n \<longrightarrow> \<not> final_attempt opens m) \<and> final_attempt opens n \<and>
    connect_attempts opens [k..<20] = (map_err OsError (opens n), 50 * (n - k))"
  using assms
proof (induction "19 - k" arbitrary: k)
  case 0
  then have "k = 19" by simp
  then have "final_attempt opens k" by (simp add: final_attempt_def)
  then show ?case using connect_attempts_final [of k opens] 0(2) by (intro exI [of _ k]) auto
next
  case (Suc d)
  show ?case
  proof (cases "final_attempt opens k")
    case True
    then show ?thesis using connect_attempts_final [of k opens] Suc.prems by (intro exI [of _ k]) auto
  next
    case False
    note again = connect_attempts_again [OF Suc.prems False]
    have step: "d = 19 - Suc k" "Suc k < 20" using Suc.hyps(2) again by simp_all
    obtain n where n: "Suc k \<le> n" "n < 20" "\<forall>m. Suc k \<le> m \<and> m < n \<longrightarrow> \<not> final_attempt opens m" "final_attempt opens n"
      "connect_attempts opens [Suc k..<20] = (map_err OsError (opens n), 50 * (n - Suc k))"
      using Suc.hyps(1) [OF step] by blast
    have "connect_attempts opens [k..<20] = (map_err OsError (opens n), 50 * (n - k))"
      unfolding conjunct2 [OF again] n(5) using n(1) by simp
    moreover have "\<forall>m. k \<le> m \<and> m < n \<longrightarrow> \<not> final_attempt opens m"
      using n(3) False by (metis Suc_leI le_neq_implies_less)
    ultimately show ?thesis using n by (intro exI [of _ n]) simp
  qed
qed

text \<open>
  C31. A client of the pipe gives up in time and asks for no right it should not have. Opening is tried until the first
  attempt that succeeds or fails for another reason than a busy or missing pipe, at most twenty times with fifty
  milliseconds between two attempts, and the answer is that attempt's own: the error for a pipe that never became
  available is unreachable. The rights asked for are exactly those the pipe's descriptor grants to the viewer group, and the
  right to create another instance of the pipe is not among them.
\<close>

theorem pipe_client_bounded:
  fixes opens :: "nat \<Rightarrow> (u32, 'h) result"
  shows "(\<exists>n<20. (\<forall>m<n. \<not> final_attempt opens m) \<and> final_attempt opens n \<and>
      connect_client opens = (map_err OsError (opens n), 50 * n)) \<and>
    fst (connect_client opens) \<noteq> Inl PipeTimedOut \<and> snd (connect_client opens) \<le> 950 \<and>
    (\<exists>head mask. PIPE_SDDL_PREFIX = head @ ''(A;;0x'' @ mask @ '';;;'' \<and> hex_value mask = unat desired_access) \<and>
    desired_access AND FILE_CREATE_PIPE_INSTANCE = 0"
proof -
  obtain n where n: "n < 20" "\<forall>m<n. \<not> final_attempt opens m" "final_attempt opens n"
    "connect_client opens = (map_err OsError (opens n), 50 * n)"
    using connect_attempts_stop [of 0 opens] by (auto simp: connect_client_def)
  have "fst (connect_client opens) \<noteq> Inl PipeTimedOut" using n(4) by (auto simp: map_err_eq_Inl)
  moreover have "snd (connect_client opens) \<le> 950" using n(1,4) by simp
  moreover have "desired_access AND FILE_CREATE_PIPE_INSTANCE = 0"
    by (simp add: desired_access_mask FILE_CREATE_PIPE_INSTANCE_def)
  ultimately show ?thesis using n sddl_grants_mask by blast
qed

section \<open>Only viewers and administrators are served\<close>

definition is_member :: "caller \<Rightarrow> bytes \<Rightarrow> bool" where
  "is_member who sid \<longleftrightarrow> (case ca_membership who sid of Inl _ \<Rightarrow> False | Inr n \<Rightarrow> n \<noteq> 0)"

definition entitled :: "'d PipeSecurity \<Rightarrow> caller \<Rightarrow> bool" where
  "entitled security who \<longleftrightarrow> ca_impersonate who = None \<and> ca_revert who = None \<and>
     (is_member who (ps_viewer_group_sid security) \<or>
      ca_membership who (ps_viewer_group_sid security) = Inr 0 \<and> is_member who (ps_administrators_sid security))"

definition stranded :: "caller \<Rightarrow> bool" where
  "stranded who \<longleftrightarrow> ca_impersonate who = None \<and> ca_revert who \<noteq> None"

lemma verify_client_cases:
  "fst (verify_client_after_read security who) = Decided (Inr ()) \<longleftrightarrow> entitled security who"
  "fst (verify_client_after_read security who) = Aborted \<longleftrightarrow> stranded who"
  "snd (verify_client_after_read security who) = AsCaller \<longleftrightarrow> stranded who"
  by (auto simp: verify_client_after_read_def entitled_def stranded_def is_member_def token_is_member_def Let_def
      rbind_def split: option.splits sum.splits if_splits)

text \<open>The byte a turn hands to the daemon, and the turns that stop the loop.\<close>

definition handed_over :: "'d PipeSecurity \<Rightarrow> pipe_turn \<Rightarrow> (char \<times> pipe_turn) option" where
  "handed_over security t =
     (case pt_first t of
        FirstByte b \<Rightarrow> if entitled security (pt_caller t) then Some (b, t) else None | _ \<Rightarrow> None)"

definition ends_loop :: "pipe_turn \<Rightarrow> bool" where
  "ends_loop t \<longleftrightarrow> pt_connect t \<noteq> None \<or> pt_next t \<noteq> None \<or> (\<exists>b. pt_first t = FirstByte b) \<and> stranded (pt_caller t)"

lemma verify_client_decided:
  "verify_client_after_read security who = (v, i) \<Longrightarrow> \<not> stranded who \<Longrightarrow>
    v = Decided (Inr ()) \<and> entitled security who \<or> (\<exists>e. v = Decided (Inl e)) \<and> \<not> entitled security who"
  using verify_client_cases(1,2) [of security who]
  by (cases v) (metis fst_conv old.sum.exhaust old.unit.exhaust verdict.inject, simp)

lemma pipe_loop_serves:
  "fst (pipe_loop security turns) = List.map_filter (handed_over security) (takeWhile (\<lambda>t. \<not> ends_loop t) turns) \<and>
   (snd (pipe_loop security turns) = Listening \<longleftrightarrow> (\<forall>t\<in>set turns. \<not> ends_loop t))"
proof (induction turns)
  case (Cons t turns)
  show ?case
  proof (cases "pt_first t")
    case (FirstByte b)
    obtain v i where v: "verify_client_after_read security (pt_caller t) = (v, i)" by fastforce
    show ?thesis
      using Cons FirstByte v verify_client_cases(2) [of security "pt_caller t"] verify_client_decided [OF v]
      by (cases "stranded (pt_caller t)")
        (auto simp: ends_loop_def handed_over_def List.map_filter_simps split: option.splits)
  qed (use Cons in \<open>auto simp: ends_loop_def handed_over_def List.map_filter_simps split: option.splits\<close>)
qed (simp add: List.map_filter_simps)

text \<open>
  C23. On Windows no one but a member of the viewer group or an administrator is served. The pipe exists only once the group
  was found, under a valid name, and with the descriptor made for it; from then on the connections handed to the daemon are exactly
  those, up to the turn that ends the loop, whose first byte arrived and whose token passed the check. A caller that fails
  the check, closes or stays silent changes nothing. The thread that checks never goes on with a caller's identity: when
  that cannot be dropped the process stops. The loop ends only for that reason or because the system refuses a pipe.
\<close>

theorem pipe_serves_only_the_entitled:
  assumes run: "run_local_server_windows win var create turns = (served, st)"
    and security: "for_local_group win VIEWER_GROUP_NAME = Inr security"
    and name: "configured_pipe_name var = Inr pipe_name" and created: "create (ps_descriptor security) pipe_name = None"
  shows "served = List.map_filter (handed_over security) (takeWhile (\<lambda>t. \<not> ends_loop t) turns) \<and>
    (st = Listening \<longleftrightarrow> (\<forall>t\<in>set turns. \<not> ends_loop t)) \<and>
    (\<forall>(b, t)\<in>set served. t \<in> set turns \<and> pt_first t = FirstByte b \<and> entitled security (pt_caller t)) \<and>
    ((\<forall>t\<in>set turns. \<not> entitled security (pt_caller t)) \<longrightarrow> serve_pipes envs parse served ctx = ctx) \<and>
    (snd (verify_client_after_read security who) = AsCaller \<longleftrightarrow> fst (verify_client_after_read security who) = Aborted) \<and>
    lookup_account_sid win VIEWER_GROUP_NAME = Inr (ps_viewer_group_sid security) \<and>
    (\<exists>suffix. pipe_name = pipe_namespace @ suffix \<and> suffix \<noteq> [] \<and> backslash \<notin> set suffix \<and> CHR ''/'' \<notin> set suffix)"
proof (intro conjI)
  have loop: "pipe_loop security turns = (served, st)"
    using run security name created by (simp add: run_local_server_windows_def)
  show served: "served = List.map_filter (handed_over security) (takeWhile (\<lambda>t. \<not> ends_loop t) turns)"
    and "st = Listening \<longleftrightarrow> (\<forall>t\<in>set turns. \<not> ends_loop t)"
    using pipe_loop_serves [of security turns] loop by simp_all
  show members: "\<forall>(b, t)\<in>set served. t \<in> set turns \<and> pt_first t = FirstByte b \<and> entitled security (pt_caller t)"
    unfolding served List.map_filter_def
    by (auto simp: handed_over_def dest: set_takeWhileD split: first_byte.splits if_splits)
  show "(\<forall>t\<in>set turns. \<not> entitled security (pt_caller t)) \<longrightarrow> serve_pipes envs parse served ctx = ctx"
    using members by (cases served) (auto simp: serve_pipes_def)
  show "lookup_account_sid win VIEWER_GROUP_NAME = Inr (ps_viewer_group_sid security)"
    using security by (auto simp: for_local_group_def rbind_eq_Inr)
  show "\<exists>suffix. pipe_name = pipe_namespace @ suffix \<and> suffix \<noteq> [] \<and> backslash \<notin> set suffix \<and> CHR ''/'' \<notin> set suffix"
    using name
    by (auto simp: configured_pipe_name_def rbind_eq_Inr Let_def list_ex_iff dest!: strip_prefix_Some split: if_splits)
qed (simp add: verify_client_cases)

section \<open>Witnesses\<close>

definition witness_win :: "string win_api" where
  "witness_win =
     \<lparr>wa_sizes = (\<lambda>_. (ERROR_INSUFFICIENT_BUFFER, 2, 1)), wa_lookup = (\<lambda>_ _ _. Inr [1, 5]),
      wa_sid_text = (\<lambda>_. Inr (Some [83, 0])), wa_descriptor = (\<lambda>_. Inr ''descriptor''),
      wa_well_known = (\<lambda>_ _. Inr ([1, 2, 0, 0], 2)), wa_encode = map (\<lambda>c. of_nat (of_char c)),
      wa_decode = (\<lambda>ws. Some (map (\<lambda>w. char_of (unat w)) ws))\<rparr>"

definition witness_security :: "string PipeSecurity" where
  "witness_security = \<lparr>ps_descriptor = ''descriptor'', ps_viewer_group_sid = [1, 5], ps_administrators_sid = [1, 2]\<rparr>"

definition witness_caller :: "int \<Rightarrow> int \<Rightarrow> u32 option \<Rightarrow> caller" where
  "witness_caller viewer admin revert =
     \<lparr>ca_impersonate = None, ca_membership = (\<lambda>sid. Inr (if sid = [1, 5] then viewer else admin)), ca_revert = revert\<rparr>"

definition witness_turn :: "caller \<Rightarrow> pipe_turn" where
  "witness_turn who =
     \<lparr>pt_connect = None, pt_next = None, pt_first = FirstByte CHR 0x7B, pt_caller = who, pt_arrival = Silent\<rparr>"

definition witness_turns :: "pipe_turn list" where
  "witness_turns = [witness_turn (witness_caller 1 0 None), witness_turn (witness_caller 0 0 None),
     witness_turn (witness_caller 0 1 None), witness_turn (witness_caller 1 1 (Some 6))]"

lemma witness_group: "for_local_group witness_win VIEWER_GROUP_NAME = Inr witness_security"
  by (simp add: for_local_group_def witness_win_def witness_security_def lookup_account_sid_def sid_to_string_def
      wide_ptr_to_string_def security_descriptor_def well_known_sid_def)

lemma witness_pipe_name: "configured_pipe_name None = Inr DEFAULT_PIPE_NAME"
  by (simp add: configured_pipe_name_def DEFAULT_PIPE_NAME_def)

lemma witness_pipes:
  "run_local_server_windows witness_win None (\<lambda>_ _. None) witness_turns =
    ([(CHR 0x7B, witness_turns ! 0), (CHR 0x7B, witness_turns ! 2)], ProcessAborted)"
  by (simp add: run_local_server_windows_def witness_group witness_pipe_name witness_turns_def witness_turn_def
      witness_caller_def witness_security_def verify_client_after_read_def token_is_member_def)

theorem pipe_serves_only_the_entitled_witness:
  "[(CHR 0x7B, witness_turns ! 0), (CHR 0x7B, witness_turns ! 2)] =
     List.map_filter (handed_over witness_security) (takeWhile (\<lambda>t. \<not> ends_loop t) witness_turns)
   \<and> (\<exists>t\<in>set witness_turns. ends_loop t)"
  using conjunct1 [OF pipe_serves_only_the_entitled [OF witness_pipes witness_group witness_pipe_name]]
    conjunct1 [OF conjunct2 [OF pipe_serves_only_the_entitled [OF witness_pipes witness_group witness_pipe_name]]]
  by simp

theorem pipe_client_bounded_witness:
  "(\<exists>n<20. connect_client (\<lambda>k. if k < 3 then Inl ERROR_PIPE_BUSY else Inr k) =
      (map_err OsError (if n < 3 then Inl ERROR_PIPE_BUSY else Inr n), 50 * n))
   \<and> snd (connect_client (\<lambda>k. if k < 3 then Inl ERROR_PIPE_BUSY else Inr k :: (u32, nat) result)) \<le> 950"
  using pipe_client_bounded [of "\<lambda>k. if k < 3 then Inl ERROR_PIPE_BUSY else Inr k"] by blast

end
