(* ===== verification/Command_Line.thy ===== *)
theory Command_Line
  imports Pipes
begin

text \<open>
  The command line of the agent (\<open>apps/agent/src/main.rs\<close>) and its client of the local socket (\<open>request_local\<close> of
  \<open>runtime/local_ipc.rs\<close>): the subcommands, their translation into the daemon's commands, one exchange with the daemon,
  and the exit status. The argument parser is a parameter whose documented checks are the predicate \<open>clap_accepts\<close>; reading
  a floating-point number from text is part of the model, since \<open>finite_threshold\<close> rests on it.
\<close>

section \<open>Subcommands\<close>

datatype PairingCommand = CliPairingCreate | CliPairingImport string
datatype MachineCommand = CliMachineRemove string
datatype PeerCommand = CliPeerList | CliPeerRevoke string

text \<open>The options of \<open>set\<close> are the threshold, the samples, the severity, the metric and the comparison.\<close>

datatype CliAlertCommand =
  CliAlertList
| CliAlertSet string "fl option" "u32 option" "string option" "string option" "string option"
| CliAlertDisable string
| CliAlertEnable string
| CliAlertReset "string option"
| CliAlertOff
| CliAlertOn

datatype ListenPortCommand = CliListenPortSet string
datatype AdvertiseAddressCommand = CliAddressAdd string | CliAddressRemove string | CliAddressList
datatype RelayCommand = CliRelaySet string "string option"

datatype Command =
  CliDaemon | CliStatus | CliFleet
| CliHistory string u16 string
| CliPairing PairingCommand
| CliMachine MachineCommand
| CliPeer PeerCommand
| CliRelay RelayCommand
| CliAlerts CliAlertCommand
| CliListenPort ListenPortCommand
| CliAdvertiseAddress AdvertiseAddressCommand
| CliDoctor

section \<open>Numbers from text\<close>

text \<open>\<open>str::parse::<u16>\<close>: an optional plus sign and at least one digit.\<close>

definition drop_plus :: "string \<Rightarrow> string" where
  "drop_plus s = (case s of [] \<Rightarrow> [] | c # rest \<Rightarrow> if c = CHR ''+'' then rest else s)"

definition parse_u16 :: "string \<Rightarrow> u16 option" where
  "parse_u16 s =
     (case digits 10 (drop_plus s) of
        (ds, rest) \<Rightarrow> if ds = [] \<or> rest \<noteq> [] \<or> 65535 < digits_value 10 ds then None else Some (of_nat (digits_value 10 ds)))"

text \<open>\<open>str::parse::<f64>\<close>: a sign, then a name of an infinity, of no number, or digits with a point and an exponent.\<close>

definition split_sign :: "string \<Rightarrow> bool \<times> string" where
  "split_sign s =
     (case s of [] \<Rightarrow> (False, []) | c # rest \<Rightarrow> if c = CHR ''-'' then (True, rest) else (False, drop_plus s))"

definition parse_exponent :: "string \<Rightarrow> int option" where
  "parse_exponent s =
     (case s of
        [] \<Rightarrow> Some 0
      | c # rest \<Rightarrow>
          if to_ascii_lowercase c \<noteq> CHR ''e'' then None
          else case split_sign rest of
                 (negative, rest) \<Rightarrow>
                   (case digits 10 rest of
                      (ds, rest) \<Rightarrow>
                        if ds = [] \<or> rest \<noteq> [] then None
                        else Some (if negative then - int (digits_value 10 ds) else int (digits_value 10 ds))))"

definition parse_number :: "bool \<Rightarrow> string \<Rightarrow> fl option" where
  "parse_number negative s =
     (case digits 10 s of
        (whole, rest) \<Rightarrow>
          (case (case rest of [] \<Rightarrow> ([], []) | c # r \<Rightarrow> if c = CHR ''.'' then digits 10 r else ([], rest)) of
             (part, rest) \<Rightarrow>
               if whole = [] \<and> part = [] then None
               else map_option
                 (\<lambda>e. let magnitude = of_nat (digits_value 10 (whole @ part)) * (10 :: rat) powi (e - int (length part))
                      in if magnitude = 0 then zero_of negative
                         else round_to f64_fmt (if negative then - magnitude else magnitude))
                 (parse_exponent rest)))"

definition parse_f64 :: "string \<Rightarrow> fl option" where
  "parse_f64 s =
     (case split_sign s of
        (negative, body) \<Rightarrow>
          let name = map to_ascii_lowercase body
          in if name = ''inf'' \<or> name = ''infinity'' then Some (Inf negative)
             else if name = ''nan'' then Some NaN
             else parse_number negative body)"

datatype CliError =
  NotANumber string | NotFinite string | PortNotANumber | PathsUnavailable string | DaemonStopped string
| SocketsUnreachable "string list" | PipeUnavailable PipeError | ExchangeFailed | ConnectionClosed | ResponseMalformed
| RequestFailed LocalError | RequestFailedSilently

definition finite_threshold :: "string \<Rightarrow> (CliError, fl) result" where
  "finite_threshold s =
     rbind (ok_or (NotANumber s) (parse_f64 s)) (\<lambda>parsed. if is_finite parsed then Inr parsed else Inl (NotFinite s))"

text \<open>What the declared value parsers guarantee of a parsed command.\<close>

fun clap_accepts :: "Command \<Rightarrow> bool" where
  "clap_accepts (CliHistory _ hours resolution) \<longleftrightarrow> 1 \<le> hours \<and> hours \<le> 168 \<and> resolution \<in> {''minute'', ''raw''}"
| "clap_accepts (CliAlerts (CliAlertSet _ threshold samples severity metric comparison)) \<longleftrightarrow>
     (case threshold of None \<Rightarrow> True | Some t \<Rightarrow> is_finite t) \<and>
     (case samples of None \<Rightarrow> True | Some n \<Rightarrow> 1 \<le> n) \<and>
     (case severity of None \<Rightarrow> True | Some s \<Rightarrow> s \<in> {''warning'', ''critical''}) \<and>
     (case metric of None \<Rightarrow> True | Some m \<Rightarrow> m \<in> set ALERT_METRICS) \<and>
     (case comparison of None \<Rightarrow> True | Some c \<Rightarrow> c \<in> {''at-or-above'', ''at-or-below''})"
| "clap_accepts _ \<longleftrightarrow> True"

section \<open>From subcommands to requests\<close>

definition cli_history_request :: "i64 \<Rightarrow> string \<Rightarrow> u16 \<Rightarrow> string \<Rightarrow> LocalCommand" where
  "cli_history_request now eid hours resolution =
     LocalQueryHistory eid (i64_saturating_sub now (int (unat hours) * 60 * 60 * 1000)) now
       (if resolution = ''raw'' then Raw else Minute)"

definition comparison_from :: "string \<Rightarrow> Comparison" where
  "comparison_from s = (if s = ''at-or-below'' then LessThanOrEqual else GreaterThanOrEqual)"

definition severity_from :: "string \<Rightarrow> NodeState" where
  "severity_from s = (if s = ''critical'' then Critical else Warning)"

fun alert_request :: "CliAlertCommand \<Rightarrow> AlertCommand" where
  "alert_request CliAlertList = AlertList"
| "alert_request (CliAlertSet rid threshold samples severity metric comparison) =
     AlertSet rid metric (map_option comparison_from comparison) threshold samples (map_option severity_from severity)"
| "alert_request (CliAlertDisable rid) = AlertRuleEnabled rid False"
| "alert_request (CliAlertEnable rid) = AlertRuleEnabled rid True"
| "alert_request (CliAlertReset rid) = AlertReset rid"
| "alert_request CliAlertOff = AlertEnabled False"
| "alert_request CliAlertOn = AlertEnabled True"

definition relay_request :: "string \<Rightarrow> string option \<Rightarrow> LocalCommand" where
  "relay_request url ca_certificate = RelaySet (if url = ''direct-only'' then None else Some url) ca_certificate"

definition port_request :: "string \<Rightarrow> (CliError, LocalCommand) result" where
  "port_request p =
     (if p = ''ephemeral'' then Inr (BindPortSet None)
      else rbind (ok_or PortNotANumber (parse_u16 p)) (\<lambda>n. Inr (BindPortSet (Some n))))"

fun address_request :: "AdvertiseAddressCommand \<Rightarrow> LocalCommand" where
  "address_request (CliAddressAdd address) = AdvertiseAddressAdd address"
| "address_request (CliAddressRemove address) = AdvertiseAddressRemove address"
| "address_request CliAddressList = AdvertiseAddressList"

text \<open>The request of each subcommand; \<open>daemon\<close> sends none.\<close>

fun local_request :: "i64 \<Rightarrow> Command \<Rightarrow> (CliError, LocalCommand option) result" where
  "local_request now CliDaemon = Inr None"
| "local_request now CliStatus = Inr (Some Status)"
| "local_request now CliFleet = Inr (Some FleetSnapshot)"
| "local_request now (CliHistory eid hours resolution) = Inr (Some (cli_history_request now eid hours resolution))"
| "local_request now (CliPairing CliPairingCreate) = Inr (Some PairingCreate)"
| "local_request now (CliPairing (CliPairingImport encoded)) = Inr (Some (PairingImport encoded))"
| "local_request now (CliMachine (CliMachineRemove eid)) = Inr (Some (MachineRemove eid))"
| "local_request now (CliPeer CliPeerList) = Inr (Some PeerList)"
| "local_request now (CliPeer (CliPeerRevoke eid)) = Inr (Some (PeerRevoke eid))"
| "local_request now (CliRelay (CliRelaySet url ca_certificate)) = Inr (Some (relay_request url ca_certificate))"
| "local_request now (CliListenPort (CliListenPortSet p)) = map_result Some (port_request p)"
| "local_request now (CliAlerts command) = Inr (Some (Alerts (alert_request command)))"
| "local_request now (CliAdvertiseAddress command) = Inr (Some (address_request command))"
| "local_request now CliDoctor = Inr (Some Doctor)"

section \<open>One exchange\<close>

text \<open>What a connected daemon answers to the request line: a line, the end of the stream, or an error.\<close>

datatype reply_line = ReplyLine string | ReplyClosed | ReplyFailed

definition read_reply :: "(string \<Rightarrow> LocalResponse option) \<Rightarrow> reply_line \<Rightarrow> (CliError, LocalResponse) result" where
  "read_reply parse reply =
     (case reply of
        ReplyFailed \<Rightarrow> Inl ExchangeFailed
      | ReplyClosed \<Rightarrow> Inl ConnectionClosed
      | ReplyLine line \<Rightarrow> ok_or ResponseMalformed (parse line))"

text \<open>On Unix the candidates are tried in order, and the error names every one of them.\<close>

definition request_local ::
  "(string \<Rightarrow> LocalResponse option) \<Rightarrow> (string \<Rightarrow> bool) \<Rightarrow> (string \<Rightarrow> LocalCommand \<Rightarrow> reply_line) \<Rightarrow> string list \<Rightarrow>
   LocalCommand \<Rightarrow> (CliError, LocalResponse) result" where
  "request_local parse answers exchange candidates command =
     (case connected_socket answers candidates of
        None \<Rightarrow> Inl (SocketsUnreachable candidates)
      | Some path \<Rightarrow> read_reply parse (exchange path command))"

definition request_local_windows ::
  "(string \<Rightarrow> LocalResponse option) \<Rightarrow> (string \<Rightarrow> nat \<Rightarrow> (u32, 'h) result) \<Rightarrow> ('h \<Rightarrow> LocalCommand \<Rightarrow> reply_line) \<Rightarrow>
   string option \<Rightarrow> LocalCommand \<Rightarrow> (CliError, LocalResponse) result" where
  "request_local_windows parse opens exchange var command =
     rbind (map_err PipeUnavailable (configured_pipe_name var)) (\<lambda>pipe_name.
     rbind (map_err PipeUnavailable (fst (connect_client (opens pipe_name)))) (\<lambda>client.
       read_reply parse (exchange client command)))"

section \<open>The program\<close>

definition print_response :: "LocalResponse \<Rightarrow> (CliError, unit) result" where
  "print_response response =
     (if lr_ok response then Inr ()
      else Inl (case lr_error response of None \<Rightarrow> RequestFailedSilently | Some e \<Rightarrow> RequestFailed e))"

text \<open>
  \<open>main\<close>: its result is the exit status; what it printed and what it asked the daemon are listed beside it.
\<close>

definition cli_main ::
  "(string, AppPaths) result \<Rightarrow> i64 \<Rightarrow> (AppPaths \<Rightarrow> (string, unit) result) \<Rightarrow>
   (AppPaths \<Rightarrow> LocalCommand \<Rightarrow> (CliError, LocalResponse) result) \<Rightarrow> Command \<Rightarrow>
   (CliError, unit) result \<times> LocalResponse list \<times> LocalCommand list" where
  "cli_main paths now daemon request command =
     (case paths of
        Inl e \<Rightarrow> (Inl (PathsUnavailable e), [], [])
      | Inr ps \<Rightarrow>
          (case local_request now command of
             Inl e \<Rightarrow> (Inl e, [], [])
           | Inr None \<Rightarrow> (map_err DaemonStopped (daemon ps), [], [])
           | Inr (Some asked) \<Rightarrow>
               (case request ps asked of
                  Inl e \<Rightarrow> (Inl e, [], [asked])
                | Inr response \<Rightarrow> (print_response response, [response], [asked]))))"

section \<open>Facts\<close>

lemma show_nat_digits_hd: "to_digit 10 (hd (show_nat n)) \<noteq> None"
  using show_nat_digits [of n] by (metis hd_in_set show_nat_not_Nil)

lemma drop_plus_show_nat [simp]: "drop_plus (show_nat n) = show_nat n"
  using show_nat_digits_hd [of n] by (cases "show_nat n") (auto simp: drop_plus_def to_digit_def)

lemma parse_u16_show_nat: "parse_u16 (show_nat n) = (if n \<le> 65535 then Some (of_nat n) else None)"
proof -
  have "digits 10 (show_nat n) = (map (\<lambda>c. the (to_digit 10 c)) (show_nat n), [])"
    using digits_append [OF show_nat_digits, of n "[]"] by simp
  then show ?thesis by (auto simp: parse_u16_def show_nat_value)
qed

lemma show_nat_not_ephemeral: "show_nat n \<noteq> ''ephemeral''"
proof
  assume "show_nat n = ''ephemeral''"
  then show False using show_nat_digits_hd [of n] by (simp add: to_digit_def)
qed

text \<open>Going back at most a week from a clock that is not at the very beginning of its range is exact, and within the range that history may span.\<close>

lemma hours_back:
  fixes hours :: u16
  assumes "1 \<le> hours" and "hours \<le> 168" and "i64_min + 604800000 \<le> now" and "now \<le> i64_max"
  shows "i64_saturating_sub now (int (unat hours) * 60 * 60 * 1000) = now - int (unat hours) * 3600000"
    and "now - int (unat hours) * 3600000 < now" and "in_i64 (now - int (unat hours) * 3600000)"
    and "i64_saturating_sub now (now - int (unat hours) * 3600000) \<le> MAX_HISTORY_RANGE_MS"
proof -
  define h where "h = int (unat hours)"
  have "1 \<le> unat hours" "unat hours \<le> 168" using assms(1,2) by (simp_all add: word_le_nat_alt)
  then have h: "1 \<le> h" "h \<le> 168" unfolding h_def by linarith+
  show "i64_saturating_sub now (int (unat hours) * 60 * 60 * 1000) = now - int (unat hours) * 3600000"
    using assms(3,4) h unfolding h_def [symmetric] by (simp add: i64_saturating_sub_def i64_saturate_def)
  show "now - int (unat hours) * 3600000 < now" "in_i64 (now - int (unat hours) * 3600000)"
    using assms(3,4) h unfolding h_def [symmetric] by (simp_all add: in_i64_def)
  show "i64_saturating_sub now (now - int (unat hours) * 3600000) \<le> MAX_HISTORY_RANGE_MS"
    using h unfolding h_def [symmetric]
    by (simp add: i64_saturating_sub_def i64_saturate_def MAX_HISTORY_RANGE_MS_def i64_limits)
qed

lemma cli_main_status:
  "fst (cli_main (Inr ps) now daemon request command) = Inr () \<and> command \<noteq> CliDaemon \<longleftrightarrow>
    (\<exists>a r. local_request now command = Inr (Some a) \<and> request ps a = Inr r \<and> lr_ok r)"
  by (auto simp: cli_main_def print_response_def map_result_def elim!: local_request.elims
      split: sum.splits option.splits if_splits)

lemma digit_not_letter:
  assumes "to_digit 10 c \<noteq> None"
  shows "to_ascii_lowercase c = c" and "c \<noteq> CHR ''-''" and "c \<noteq> CHR ''+''" and "c \<noteq> CHR ''i''" and "c \<noteq> CHR ''n''"
  using assms by (auto simp: to_digit_def to_ascii_lowercase_def char_in_def Let_def split: if_splits)

lemma round_to_0: "round_to F 0 = Fin 0"
  by (simp add: round_to_def)

lemma parse_f64_show_nat: "parse_f64 (show_nat n) = Some (round_to f64_fmt (of_nat n))"
proof -
  obtain c s where s: "show_nat n = c # s" using show_nat_not_Nil [of n] by (meson list.exhaust)
  note c = digit_not_letter [OF show_nat_digits_hd [of n, unfolded s list.sel]]
  have digits: "digits 10 (show_nat n) = (map (\<lambda>c. the (to_digit 10 c)) (show_nat n), [])"
    using digits_append [OF show_nat_digits, of n "[]"] by simp
  have "parse_number False (show_nat n) = Some (round_to f64_fmt (of_nat n))"
    unfolding parse_number_def digits
    by (cases "n = 0") (simp_all add: show_nat_value parse_exponent_def zero_of_def round_to_0)
  moreover have "split_sign (show_nat n) = (False, show_nat n)"
    using c(2,3) by (simp add: split_sign_def s drop_plus_def)
  ultimately show ?thesis using c(1,4,5) unfolding parse_f64_def s by (simp add: s)
qed

lemma cli_main_once: "length (snd (snd (cli_main paths now daemon request command))) \<le> 1"
  by (simp add: cli_main_def split: sum.splits option.splits)

lemma history_request_range:
  assumes "clap_accepts command" and now: "i64_min + 604800000 \<le> now" "now \<le> i64_max"
    and command: "command = CliHistory eid hours resolution"
  shows "\<exists>from_ms. local_request now command =
        Inr (Some (LocalQueryHistory eid from_ms now (if resolution = ''raw'' then Raw else Minute))) \<and>
      now - from_ms = int (unat hours) * 3600000 \<and> from_ms < now \<and> i64_saturating_sub now from_ms \<le> MAX_HISTORY_RANGE_MS"
proof -
  have hours: "1 \<le> hours" "hours \<le> 168" using assms(1) command by simp_all
  show ?thesis using hours_back [OF hours now]
    by (intro exI [of _ "now - int (unat hours) * 3600000"]) (simp add: command cli_history_request_def)
qed

lemma port_zero_refused:
  assumes "command = CliListenPort (CliListenPortSet ''0'')" and "local_request now command = Inr (Some a)"
  shows "\<exists>e. handle_local env a ctx = (Some (failure (LocalConfig e)), ctx)"
proof -
  have "parse_u16 ''0'' = Some 0" by (simp add: parse_u16_def drop_plus_def to_digit_def digits_value_def)
  then show ?thesis using assms by (auto simp: port_request_def set_bind_port_def validate_bind_port_def)
qed

lemma direct_only_with_ca_refused:
  "command = CliRelay (CliRelaySet ''direct-only'' (Some path)) \<Longrightarrow> local_request now command = Inr (Some a) \<Longrightarrow>
    handle_local env a ctx = (Some (failure (LocalConfig RelayCaWithoutRelay)), ctx)"
  by (auto simp: relay_request_def set_relay_def validate_relay_url_def validate_relay_ca_def)

lemma alert_set_request:
  assumes "clap_accepts command"
    and "command = CliAlerts (CliAlertSet rid threshold samples severity metric comparison)"
  shows "\<exists>c s. local_request now command = Inr (Some (Alerts (AlertSet rid metric c threshold samples s))) \<and>
      (c = None \<longleftrightarrow> comparison = None) \<and> (s = None \<longleftrightarrow> severity = None) \<and>
      (\<forall>t. threshold = Some t \<longrightarrow> is_finite t) \<and> samples \<noteq> Some 0 \<and>
      s \<in> {None, Some Warning, Some Critical} \<and> (s = Some Critical \<longleftrightarrow> severity = Some ''critical'')"
  using assms by (cases severity) (auto simp: severity_from_def)

section \<open>What the operator typed is what the daemon is asked\<close>


section \<open>Witness\<close>


end
