(* ===== verification/Desktop.thy ===== *)
theory Desktop
  imports Command_Line Desktop_Files
begin

text \<open>
  What stands between the window and the daemon (\<open>daemon.rs\<close>, \<open>presentation.rs\<close> and the fleet of \<open>lib.rs\<close> of
  \<open>apps/desktop/src-tauri/src\<close>): one bounded exchange per command, and the projection of the daemon's JSON into the view
  models of the window. The sockets, the parser and the time an exchange takes are parameters.
\<close>

datatype DesktopError =
  NoApplicationDirectories | DaemonUnreachable "string option" | DaemonLate | DaemonPipe PipeError | DaemonIo | DaemonClosed
| DaemonNotJson | DaemonRefused string
| ResponseWithout string | InvalidRequest string | BundleWithoutPrefix | BundleNotBase64 | BundleWithoutExpiry
| InvalidBundleToSave | EmptyBundlePath | BundleFileIo | NoUpdaterConfiguration | UpdaterKeyMismatch

section \<open>One exchange\<close>

datatype unix_os = LinuxOs | MacOs | OtherUnix

text \<open>The application directory for state, the variable \<open>RACKIO_SOCKET\<close>, and what the sockets and the parser answer.\<close>

record desktop_env =
  de_state_dir :: "string option"
  de_socket :: "string option"
  de_reachable :: "string \<Rightarrow> bool"
  de_reply :: "string \<Rightarrow> json \<Rightarrow> reply_line"
  de_parse :: "string \<Rightarrow> json option"

definition candidates :: "unix_os \<Rightarrow> desktop_env \<Rightarrow> string \<Rightarrow> string list" where
  "candidates os env state_dir =
     (case de_socket env of None \<Rightarrow> [] | Some path \<Rightarrow> [path]) @
     (case os of
        LinuxOs \<Rightarrow> [''/run/rackio/agent.sock'']
      | MacOs \<Rightarrow> [''/Library/Application Support/Rackio/run/agent.sock'']
      | OtherUnix \<Rightarrow> []) @
     [path_join state_dir ''agent.sock'']"

text \<open>The loop over the candidates, with the last one that failed.\<close>

fun connect_first :: "(string \<Rightarrow> bool) \<Rightarrow> string option \<Rightarrow> string list \<Rightarrow> (DesktopError, string) result" where
  "connect_first reachable last_error [] = Inl (DaemonUnreachable last_error)"
| "connect_first reachable last_error (candidate # rest) =
     (if reachable candidate then Inr candidate else connect_first reachable (Some candidate) rest)"

definition checked_response :: "json \<Rightarrow> (DesktopError, json) result" where
  "checked_response response =
     (if Option.bind (json_get response ''ok'') as_bool \<noteq> Some True
      then Inl (DaemonRefused (case get_str response ''error'' of None \<Rightarrow> ''daemon request failed'' | Some e \<Rightarrow> e))
      else Inr response)"

definition answer_of :: "(string \<Rightarrow> json option) \<Rightarrow> reply_line \<Rightarrow> (DesktopError, json) result" where
  "answer_of parse reply =
     (case reply of
        ReplyFailed \<Rightarrow> Inl DaemonIo
      | ReplyClosed \<Rightarrow> Inl DaemonClosed
      | ReplyLine line \<Rightarrow> rbind (ok_or DaemonNotJson (parse line)) checked_response)"

definition exchange :: "unix_os \<Rightarrow> desktop_env \<Rightarrow> json \<Rightarrow> (DesktopError, json) result" where
  "exchange os env command =
     rbind (ok_or NoApplicationDirectories (de_state_dir env)) (\<lambda>state_dir.
     rbind (connect_first (de_reachable env) None (candidates os env state_dir)) (\<lambda>path.
       answer_of (de_parse env) (de_reply env path command)))"

definition exchange_windows ::
  "(string \<Rightarrow> json option) \<Rightarrow> (string \<Rightarrow> nat \<Rightarrow> (u32, 'h) result) \<Rightarrow> ('h \<Rightarrow> json \<Rightarrow> reply_line) \<Rightarrow> string option \<Rightarrow>
   json \<Rightarrow> (DesktopError, json) result" where
  "exchange_windows parse opens reply var command =
     rbind (map_err DaemonPipe (configured_pipe_name var)) (\<lambda>pipe_name.
     rbind (map_err DaemonPipe (fst (connect_client (opens pipe_name)))) (\<lambda>client.
       answer_of parse (reply client command)))"

text \<open>An exchange with the milliseconds it takes; \<open>None\<close> is one that never ends.\<close>

definition DAEMON_REQUEST_TIMEOUT :: nat where "DAEMON_REQUEST_TIMEOUT = 3000"

definition bounded_exchange :: "(nat \<times> (DesktopError, json) result) option \<Rightarrow> (DesktopError, json) result" where
  "bounded_exchange outcome =
     (case outcome of
        None \<Rightarrow> Inl DaemonLate
      | Some (elapsed, res) \<Rightarrow> if elapsed < DAEMON_REQUEST_TIMEOUT then res else Inl DaemonLate)"

definition daemon_request ::
  "unix_os \<Rightarrow> desktop_env \<Rightarrow> (json \<Rightarrow> nat option) \<Rightarrow> json \<Rightarrow> (DesktopError, json) result" where
  "daemon_request os env takes command =
     bounded_exchange (map_option (\<lambda>elapsed. (elapsed, exchange os env command)) (takes command))"

section \<open>View models\<close>

definition fetch :: "json \<Rightarrow> string \<Rightarrow> json" where
  "fetch v key = json_of_value (json_get v key)"

definition fetch_in :: "json \<Rightarrow> string \<Rightarrow> string \<Rightarrow> json" where
  "fetch_in v outer key = json_of_value (Option.bind (json_get v outer) (\<lambda>inner. json_get inner key))"

definition history_point_from_sample :: "json \<Rightarrow> json" where
  "history_point_from_sample sample =
     (let worst_disk = Option.bind (get_array sample ''disks'') (\<lambda>disks. case disks of [] \<Rightarrow> None | d # _ \<Rightarrow> Some d)
      in json_object
        [(''timestampMs'', fetch sample ''timestamp_ms''), (''cpuPercent'', fetch sample ''cpu_percent''),
         (''memoryUsedBytes'', fetch sample ''memory_used_bytes''), (''memoryTotalBytes'', fetch sample ''memory_total_bytes''),
         (''swapUsedBytes'', fetch sample ''swap_used_bytes''), (''swapTotalBytes'', fetch sample ''swap_total_bytes''),
         (''diskUsedBytes'', json_of_value (Option.bind worst_disk (\<lambda>d. json_get d ''used_bytes''))),
         (''diskTotalBytes'', json_of_value (Option.bind worst_disk (\<lambda>d. json_get d ''total_bytes''))),
         (''temperatureCelsius'', fetch_in sample ''temperature'' ''celsius''),
         (''networkReceivedBytesPerSecond'', fetch_in sample ''network'' ''received_bytes_per_second''),
         (''networkSentBytesPerSecond'', fetch_in sample ''network'' ''sent_bytes_per_second'')])"

definition trend_point_json :: "json \<Rightarrow> json" where
  "trend_point_json sample =
     json_object
       [(''timestampMs'', fetch sample ''timestamp_ms''), (''cpuPercent'', fetch sample ''cpu_percent''),
        (''memoryUsedBytes'', fetch sample ''memory_used_bytes''), (''memoryTotalBytes'', fetch sample ''memory_total_bytes''),
        (''swapUsedBytes'', fetch sample ''swap_used_bytes''), (''swapTotalBytes'', fetch sample ''swap_total_bytes''),
        (''diskUsedBytes'', fetch sample ''disk_used_bytes''), (''diskTotalBytes'', fetch sample ''disk_total_bytes''),
        (''temperatureCelsius'', fetch sample ''temperature_celsius''),
        (''networkReceivedBytesPerSecond'', fetch sample ''network_received_bytes_per_second''),
        (''networkSentBytesPerSecond'', fetch sample ''network_sent_bytes_per_second''),
        (''rttMs'', fetch sample ''rtt_ms'')]"

text \<open>Filesystems with a capacity, fullest first; equally full ones keep their order.\<close>

type_synonym filesystem = "string \<times> u64 \<times> u64"

definition filesystem_of :: "json \<Rightarrow> filesystem option" where
  "filesystem_of disk =
     Option.bind (get_str disk ''mount'') (\<lambda>mount.
     Option.bind (Option.bind (json_get disk ''used_bytes'') as_u64) (\<lambda>used.
     Option.bind (Option.bind (json_get disk ''total_bytes'') as_u64) (\<lambda>capacity.
       if capacity > 0 then Some (mount, used, capacity) else None)))"

fun not_emptier :: "filesystem \<Rightarrow> filesystem \<Rightarrow> bool" where
  "not_emptier (_, lu, lt) (_, ru, rt) \<longleftrightarrow>
     u128_saturating_mul (unat ru) (unat lt) \<le> u128_saturating_mul (unat lu) (unat rt)"

fun insert_by :: "('a \<Rightarrow> 'a \<Rightarrow> bool) \<Rightarrow> 'a \<Rightarrow> 'a list \<Rightarrow> 'a list" where
  "insert_by le x [] = [x]"
| "insert_by le x (y # ys) = (if le x y then x # y # ys else y # insert_by le x ys)"

definition sort_by :: "('a \<Rightarrow> 'a \<Rightarrow> bool) \<Rightarrow> 'a list \<Rightarrow> 'a list" where
  "sort_by le xs = foldr (insert_by le) xs []"

definition filesystems_of :: "json \<Rightarrow> filesystem list" where
  "filesystems_of newest =
     sort_by not_emptier (List.map_filter filesystem_of (case get_array newest ''disks'' of None \<Rightarrow> [] | Some ds \<Rightarrow> ds))"

definition filesystem_json :: "filesystem \<Rightarrow> json" where
  "filesystem_json = (\<lambda>(mount, used, capacity).
     json_object [(''mount'', JString mount), (''usedBytes'', json_of_u64 used), (''totalBytes'', json_of_u64 capacity)])"

definition text_or :: "string \<Rightarrow> string option \<Rightarrow> string" where
  "text_or otherwise s = (case s of None \<Rightarrow> otherwise | Some t \<Rightarrow> t)"

definition temperature_json :: "json \<Rightarrow> json" where
  "temperature_json newest =
     (case json_get newest ''temperature'' of
        None \<Rightarrow> JNull
      | Some JNull \<Rightarrow> JNull
      | Some t \<Rightarrow>
          json_object [(''label'', fetch t ''label''), (''celsius'', fetch t ''celsius''),
            (''criticalCelsius'', fetch t ''critical_celsius''), (''sensorCount'', fetch t ''sensor_count'')])"

definition uptime_seconds_of :: "json \<Rightarrow> u64 option" where
  "uptime_seconds_of newest =
     Option.bind (Option.bind (json_get newest ''uptime_seconds'') as_u64) (\<lambda>s. if s > 0 then Some s else None)"

text \<open>The members of a card, from the source, its node and newest sample, and the filesystems of that sample.\<close>

definition machine_members ::
  "json \<Rightarrow> json \<Rightarrow> json \<Rightarrow> filesystem list \<Rightarrow> string \<Rightarrow> string \<Rightarrow> string \<Rightarrow> string \<Rightarrow> u64 option \<Rightarrow> i64 option \<Rightarrow>
   json list \<Rightarrow> string option \<Rightarrow> (string \<times> json) list" where
  "machine_members source node newest filesystems node_id node_name node_state path rtt_ms last_seen_ms trend detail =
     (let fullest = (case filesystems of [] \<Rightarrow> None | f # _ \<Rightarrow> Some f) in
      [(''id'', JString node_id), (''endpointId'', fetch source ''endpoint_id''), (''name'', JString node_name),
       (''os'', JString (text_or ''unknown'' (get_str node ''os'') @ [CHR 0x20, CHR 0xC2, CHR 0xB7, CHR 0x20] @
          text_or ''unknown'' (get_str node ''architecture''))),
       (''state'', JString node_state), (''path'', JString path),
       (''cpuPercent'', json_of_option json_of_f64 (Option.bind (json_get newest ''cpu_percent'') as_f64)),
       (''memoryUsedBytes'', fetch newest ''memory_used_bytes''), (''memoryTotalBytes'', fetch newest ''memory_total_bytes''),
       (''swapUsedBytes'', fetch newest ''swap_used_bytes''), (''swapTotalBytes'', fetch newest ''swap_total_bytes''),
       (''diskUsedBytes'', json_of_option (\<lambda>(_, used, _). json_of_u64 used) fullest),
       (''diskTotalBytes'', json_of_option (\<lambda>(_, _, capacity). json_of_u64 capacity) fullest),
       (''diskMount'', json_of_option (\<lambda>(mount, _, _). JString mount) fullest),
       (''filesystems'', JArray (map filesystem_json filesystems)),
       (''temperature'', temperature_json newest),
       (''networkReceivedBytesPerSecond'', fetch_in newest ''network'' ''received_bytes_per_second''),
       (''networkSentBytesPerSecond'', fetch_in newest ''network'' ''sent_bytes_per_second''),
       (''rttMs'', json_of_option json_of_u64 rtt_ms),
       (''uptimeSeconds'', json_of_option json_of_u64 (uptime_seconds_of newest)),
       (''lastSeenMs'', json_of_option json_of_i64 last_seen_ms),
       (''trend'', JArray (map trend_point_json trend)),
       (''detail'', json_of_option JString detail)])"

definition machine_json ::
  "json \<Rightarrow> string \<Rightarrow> string \<Rightarrow> u64 option \<Rightarrow> i64 option \<Rightarrow> json list \<Rightarrow> string option \<Rightarrow> (DesktopError, json) result" where
  "machine_json source node_state path rtt_ms last_seen_ms trend detail =
     rbind (ok_or (ResponseWithout ''node info'') (json_get source ''node'')) (\<lambda>node.
       let newest = fetch source ''latest'' in
     rbind (ok_or (ResponseWithout ''node ID'') (get_str node ''node_id'')) (\<lambda>node_id.
     rbind (ok_or (ResponseWithout ''node name'') (get_str node ''display_name'')) (\<lambda>node_name.
       Inr (json_object (machine_members source node newest (filesystems_of newest) node_id node_name node_state path
         rtt_ms last_seen_ms trend detail)))))"

section \<open>The fleet in the window\<close>

definition first_text :: "json list option \<Rightarrow> string option" where
  "first_text details = Option.bind details (\<lambda>ds. case ds of [] \<Rightarrow> None | d # _ \<Rightarrow> as_str d)"

definition local_machine :: "json \<Rightarrow> (DesktopError, json) result" where
  "local_machine source =
     (let health = fetch source ''health''
      in machine_json source (text_or ''degraded'' (get_str health ''state'')) ''unknown'' None
           (Option.bind (json_get (fetch source ''latest'') ''timestamp_ms'') as_i64)
           (case get_array source ''trend'' of None \<Rightarrow> [] | Some t \<Rightarrow> t)
           (first_text (get_array health ''details'')))"

definition remote_machine :: "json \<Rightarrow> (DesktopError, json) result" where
  "remote_machine source =
     machine_json source (text_or ''degraded'' (get_str source ''state'')) (text_or ''unknown'' (get_str source ''path''))
       (Option.bind (json_get source ''rtt_ms'') as_u64) (Option.bind (json_get source ''last_seen_ms'') as_i64)
       (case get_array source ''trend'' of None \<Rightarrow> [] | Some t \<Rightarrow> t)
       (first_text (get_array source ''details''))"

definition load_fleet_snapshot :: "(json \<Rightarrow> (DesktopError, json) result) \<Rightarrow> unicode \<Rightarrow> 'f badge_registry \<Rightarrow> (DesktopError, json) result" where
  "load_fleet_snapshot request u badges =
     rbind (request (json_object [(''command'', JString ''fleet_snapshot'')])) (\<lambda>response.
     rbind (ok_or (ResponseWithout ''data'') (json_get response ''data'')) (\<lambda>payload.
     rbind (ok_or (ResponseWithout ''the local machine'') (json_get payload ''local'')) (\<lambda>local_source.
     rbind (local_machine local_source) (\<lambda>local_node.
     rbind (ok_or (ResponseWithout ''remote machines'') (get_array payload ''remotes'')) (\<lambda>remotes.
     rbind (collect_results (map remote_machine remotes)) (\<lambda>remote_nodes.
       Inr (json_object [(''daemon'', JString ''connected''),
         (''nodes'', JArray (map (decorate u badges) (local_node # remote_nodes)))])))))))"

section \<open>Sorting with a comparison\<close>

text \<open>
  The contract of \<open>sort_by\<close>: a comparison that is total and transitive on the elements gives a stable sort. Elements that
  compare equal keep their order.
\<close>

locale stable_comparison =
  fixes le :: "'a \<Rightarrow> 'a \<Rightarrow> bool" and ranked :: "'a \<Rightarrow> bool"
  assumes le_total: "ranked x \<Longrightarrow> ranked y \<Longrightarrow> le x y \<or> le y x"
    and le_trans: "ranked x \<Longrightarrow> ranked y \<Longrightarrow> ranked z \<Longrightarrow> le x y \<Longrightarrow> le y z \<Longrightarrow> le x z"
begin

lemma mset_insert_by: "mset (insert_by le x xs) = add_mset x (mset xs)"
  by (induction xs) auto

lemma mset_sort_by [simp]: "mset (sort_by le xs) = mset xs"
  by (induction xs) (simp_all add: sort_by_def mset_insert_by)

lemma set_insert_by: "set (insert_by le x xs) = insert x (set xs)"
  using mset_insert_by [of x xs] by (metis set_mset_add_mset_insert set_mset_mset)

lemma set_sort_by [simp]: "set (sort_by le xs) = set xs"
  using mset_sort_by [of xs] by (metis set_mset_mset)

lemma sorted_insert_by:
  "ranked x \<Longrightarrow> \<forall>y\<in>set xs. ranked y \<Longrightarrow> sorted_wrt le xs \<Longrightarrow> sorted_wrt le (insert_by le x xs)"
proof (induction xs)
  case (Cons y ys)
  then show ?case by (auto simp: set_insert_by dest: le_total intro: le_trans)
qed simp

lemma sorted_sort_by: "\<forall>x\<in>set xs. ranked x \<Longrightarrow> sorted_wrt le (sort_by le xs)"
proof (induction xs)
  case (Cons x xs)
  have "\<forall>y\<in>set (foldr (insert_by le) xs []). ranked y"
    using Cons.prems set_sort_by [of xs] by (simp add: sort_by_def)
  then show ?case using Cons sorted_insert_by by (simp add: sort_by_def)
qed (simp add: sort_by_def)

definition tied :: "'a \<Rightarrow> 'a \<Rightarrow> bool" where
  "tied x y \<longleftrightarrow> le x y \<and> le y x"

lemma filter_insert_by:
  assumes "ranked a" and "ranked x" and "\<forall>y\<in>set xs. ranked y"
  shows "filter (tied a) (insert_by le x xs) = filter (tied a) (x # xs)"
  using assms(3)
proof (induction xs)
  case (Cons y ys)
  have "\<not> le x y \<Longrightarrow> tied a x \<Longrightarrow> \<not> tied a y"
    using le_trans [of x a y] assms(1,2) Cons.prems by (auto simp: tied_def)
  then show ?case using Cons by auto
qed simp

lemma sort_by_stable:
  assumes "ranked a" and "\<forall>x\<in>set xs. ranked x"
  shows "filter (tied a) (sort_by le xs) = filter (tied a) xs"
  using assms(2)
proof (induction xs)
  case (Cons x xs)
  have "\<forall>y\<in>set (sort_by le xs). ranked y" using Cons.prems by simp
  then show ?case using Cons filter_insert_by [OF assms(1), of x "sort_by le xs"] by (simp add: sort_by_def)
qed (simp add: sort_by_def)

end

section \<open>The card of a machine\<close>

definition share :: "filesystem \<Rightarrow> rat" where
  "share f = (case f of (_, u, c) \<Rightarrow> of_nat (unat u) / of_nat (unat c))"

definition has_capacity :: "filesystem \<Rightarrow> bool" where
  "has_capacity f \<longleftrightarrow> (case f of (_, _, c) \<Rightarrow> 0 < c)"

lemma not_emptier_share:
  assumes "has_capacity f" and "has_capacity g"
  shows "not_emptier f g \<longleftrightarrow> share g \<le> share f"
proof -
  obtain m u c where f: "f = (m, u, c)" by (metis prod_cases3)
  obtain m' u' c' where g: "g = (m', u', c')" by (metis prod_cases3)
  have "0 < unat c" "0 < unat c'" using assms by (simp_all add: has_capacity_def f g word_less_nat_alt)
  then show ?thesis unfolding f g share_def not_emptier.simps prod.case linorder_not_less [symmetric]
    by (simp only: u128_saturating_mul_u64 frac_less_iff_nat)
qed

interpretation by_share: stable_comparison not_emptier has_capacity
  by unfold_locales (auto simp: not_emptier_share)

definition disks_of :: "json \<Rightarrow> json list" where
  "disks_of newest = (case get_array newest ''disks'' of None \<Rightarrow> [] | Some ds \<Rightarrow> ds)"

lemma filesystem_of_capacity: "filesystem_of disk = Some f \<Longrightarrow> has_capacity f"
  by (auto simp: filesystem_of_def has_capacity_def bind_eq_Some_conv split: if_splits)

lemma map_filter_capacity: "\<forall>f\<in>set (List.map_filter filesystem_of ds). has_capacity f"
  by (auto simp: List.map_filter_def dest: filesystem_of_capacity)

lemma filesystems_of_sorted:
  "mset (filesystems_of newest) = mset (List.map_filter filesystem_of (disks_of newest))"
  "sorted_wrt (\<lambda>f g. share g \<le> share f) (filesystems_of newest)"
  "has_capacity a \<Longrightarrow> filter (\<lambda>f. share f = share a) (filesystems_of newest) =
     filter (\<lambda>f. share f = share a) (List.map_filter filesystem_of (disks_of newest))"
proof -
  let ?fs = "List.map_filter filesystem_of (disks_of newest)"
  have eq: "filesystems_of newest = sort_by not_emptier ?fs" by (simp add: filesystems_of_def disks_of_def)
  have in_fs: "set (filesystems_of newest) = set ?fs" unfolding eq by (rule by_share.set_sort_by)
  show "mset (filesystems_of newest) = mset ?fs" unfolding eq by (rule by_share.mset_sort_by)
  have "sorted_wrt not_emptier (filesystems_of newest)"
    unfolding eq by (rule by_share.sorted_sort_by [OF map_filter_capacity])
  then show "sorted_wrt (\<lambda>f g. share g \<le> share f) (filesystems_of newest)"
    by (rule sorted_wrt_mono_rel [rotated]) (use map_filter_capacity in_fs not_emptier_share in blast)
  assume a: "has_capacity a"
  have tied: "by_share.tied a f \<longleftrightarrow> share f = share a" if "has_capacity f" for f
    using a that by (auto simp: by_share.tied_def not_emptier_share)
  have "filter (by_share.tied a) (filesystems_of newest) = filter (by_share.tied a) ?fs"
    unfolding eq by (rule by_share.sort_by_stable [OF a map_filter_capacity])
  moreover have "filter (by_share.tied a) xs = filter (\<lambda>f. share f = share a) xs" if "\<forall>f\<in>set xs. has_capacity f" for xs
    using that tied by (intro filter_cong) auto
  ultimately show "filter (\<lambda>f. share f = share a) (filesystems_of newest) = filter (\<lambda>f. share f = share a) ?fs"
    using map_filter_capacity [of "disks_of newest"] in_fs by metis
qed

lemma machine_members_keys:
  "distinct (map fst (machine_members source node newest fs nid name st path rtt seen trend detail))"
  by (simp add: machine_members_def Let_def)

lemma card_member:
  "json_get (json_object (machine_members source node newest fs nid name st path rtt seen trend detail)) key =
    map_of (machine_members source node newest fs nid name st path rtt seen trend detail) key"
  by (rule json_get_object [OF machine_members_keys])

lemma machine_json_Inr:
  "machine_json source st path rtt seen trend detail = Inr view \<longleftrightarrow>
    (\<exists>node nid name. json_get source ''node'' = Some node \<and> get_str node ''node_id'' = Some nid \<and>
      get_str node ''display_name'' = Some name \<and>
      view = json_object (machine_members source node (fetch source ''latest'') (filesystems_of (fetch source ''latest''))
        nid name st path rtt seen trend detail))"
  by (auto simp: machine_json_def Let_def rbind_eq_Inr)

lemma uptime_null:
  "json_of_option json_of_u64 (uptime_seconds_of newest) = JNull \<longleftrightarrow>
    (\<forall>s. Option.bind (json_get newest ''uptime_seconds'') as_u64 = Some s \<longrightarrow> s = 0)"
  by (auto simp: uptime_seconds_of_def json_of_option_def json_of_u64_def word_gt_0
      split: bind_splits option.splits if_splits)

lemma json_get_decorate:
  assumes "key \<noteq> ''trayIcon''" and "key \<noteq> ''trayLabel''"
  shows "json_get (decorate u badges v) key = json_get v key"
  using assms by (cases v) (simp_all add: Let_def)

lemma collect_results_map:
  "collect_results (map f xs) = Inr ys \<longleftrightarrow> list_all2 (\<lambda>x y. f x = Inr y) xs ys"
  by (auto simp: collect_results_eq_Inr list_all2_conv_all_nth list_eq_iff_nth_eq)

lemmas card_simps = machine_json_Inr card_member get_str_def get_array_def machine_members_def json_of_option_def Let_def

lemma card_identity:
  "machine_json source st path rtt seen trend detail = Inr view \<Longrightarrow>
    get_str view ''id'' = Option.bind (json_get source ''node'') (\<lambda>node. get_str node ''node_id'') \<and>
    get_str view ''name'' = Option.bind (json_get source ''node'') (\<lambda>node. get_str node ''display_name'') \<and>
    get_str view ''state'' = Some st \<and> get_str view ''path'' = Some path \<and> get_str view ''detail'' = detail"
  by (cases detail) (auto simp: card_simps)

lemma card_headline:
  assumes "machine_json source st path rtt seen trend detail = Inr view" and fs: "fs = filesystems_of (fetch source ''latest'')"
  shows "get_array view ''filesystems'' = Some (map filesystem_json fs)"
    and "get_str view ''diskMount'' = (if fs = [] then None else Some (fst (hd fs)))"
    and "Option.bind (json_get view ''diskUsedBytes'') as_u64 = (if fs = [] then None else Some (fst (snd (hd fs))))"
    and "Option.bind (json_get view ''diskTotalBytes'') as_u64 = (if fs = [] then None else Some (snd (snd (hd fs))))"
  using assms(1) unfolding machine_json_Inr fs [symmetric] by (auto simp: card_simps split: list.splits)

lemma filesystems_of_stable:
  "\<forall>f\<in>set (filesystems_of newest). filter (\<lambda>g. share g = share f) (filesystems_of newest) =
     filter (\<lambda>g. share g = share f) (List.map_filter filesystem_of (disks_of newest))"
proof -
  have "set (filesystems_of newest) = set (List.map_filter filesystem_of (disks_of newest))"
    using filesystems_of_sorted(1) by (metis set_mset_mset)
  then show ?thesis using filesystems_of_sorted(3) map_filter_capacity by blast
qed

lemma card_absent:
  assumes "machine_json source st path rtt seen trend detail = Inr view" and newest: "newest = fetch source ''latest''"
  shows "(json_get view ''uptimeSeconds'' = Some JNull \<longleftrightarrow>
      (\<forall>s. Option.bind (json_get newest ''uptime_seconds'') as_u64 = Some s \<longrightarrow> s = 0)) \<and>
    (json_get view ''temperature'' = Some JNull \<longleftrightarrow> json_get newest ''temperature'' \<in> {None, Some JNull})"
proof -
  have "json_get view ''uptimeSeconds'' = Some (json_of_option json_of_u64 (uptime_seconds_of newest))"
    "json_get view ''temperature'' = Some (temperature_json newest)"
    using assms by (auto simp: machine_json_Inr card_member machine_members_def Let_def)
  moreover have "temperature_json newest = JNull \<longleftrightarrow> json_get newest ''temperature'' \<in> {None, Some JNull}"
    by (auto simp: temperature_json_def json_object_def split: option.splits json.splits)
  ultimately show ?thesis by (simp add: uptime_null)
qed


section \<open>The whole fleet\<close>

definition reported_id :: "json \<Rightarrow> string option" where
  "reported_id source = Option.bind (json_get source ''node'') (\<lambda>node. get_str node ''node_id'')"

lemma fleet_snapshot_Inr:
  "load_fleet_snapshot request u badges = Inr view \<longleftrightarrow>
    (\<exists>response payload source shown remotes cards.
      request (json_object [(''command'', JString ''fleet_snapshot'')]) = Inr response \<and>
      json_get response ''data'' = Some payload \<and> json_get payload ''local'' = Some source \<and>
      local_machine source = Inr shown \<and> get_array payload ''remotes'' = Some remotes \<and>
      list_all2 (\<lambda>r c. remote_machine r = Inr c) remotes cards \<and>
      view = json_object [(''daemon'', JString ''connected''),
        (''nodes'', JArray (map (decorate u badges) (shown # cards)))])"
  by (auto simp: load_fleet_snapshot_def rbind_eq_Inr collect_results_map)

lemma card_of_source:
  "local_machine source = Inr c \<Longrightarrow> get_str c ''id'' = reported_id source"
  "remote_machine source = Inr c \<Longrightarrow> get_str c ''id'' = reported_id source \<and>
     get_str c ''state'' = Some (text_or ''degraded'' (get_str source ''state'')) \<and>
     get_str c ''path'' = Some (text_or ''unknown'' (get_str source ''path''))"
  using card_identity [of source _ _ _ _ _ _ c]
  by (auto simp: local_machine_def remote_machine_def reported_id_def Let_def)

lemma get_str_decorate:
  "key \<noteq> ''trayIcon'' \<Longrightarrow> key \<noteq> ''trayLabel'' \<Longrightarrow> get_str (decorate u badges v) key = get_str v key"
  by (simp add: get_str_def json_get_decorate)

lemma decorate_card:
  assumes "local_machine source = Inr c \<or> remote_machine source = Inr c"
  shows "get_str (decorate u badges c) ''trayLabel'' =
    Some (badge_label u (Option.bind (get_str c ''id'') (icon_of badges)) (text_or [] (get_str c ''name'')))"
proof -
  obtain m where "c = JObject m"
    using assms by (auto simp: local_machine_def remote_machine_def machine_json_Inr json_object_def Let_def)
  then show ?thesis by (simp add: get_str_def Let_def text_or_def split: option.splits)
qed


section \<open>Witnesses\<close>

definition witness_report :: "string \<Rightarrow> json" where
  "witness_report nid =
     json_object [(''node'', json_object [(''node_id'', JString nid), (''display_name'', JString ''Rack'')])]"

definition witness_badges :: "nat badge_registry" where
  "witness_badges = \<lparr>reg_records = [], reg_file = None, reg_poisoned = False\<rparr>"

definition witness_request :: "json \<Rightarrow> (DesktopError, json) result" where
  "witness_request = (\<lambda>_. Inr (json_object [(''data'',
     json_object [(''local'', witness_report ''a''), (''remotes'', JArray [witness_report ''b''])])]))"

lemma witness_report_node:
  "json_get (witness_report nid) ''node'' = Some (json_object [(''node_id'', JString nid), (''display_name'', JString ''Rack'')])"
  "reported_id (witness_report nid) = Some nid"
  by (simp_all add: witness_report_def reported_id_def get_str_def)


lemma witness_fleet: "is_ok (load_fleet_snapshot witness_request ascii witness_badges)"
proof -
  have "is_ok (machine_json (witness_report nid) st path rtt seen trend detail)" for nid st path rtt seen trend detail
    by (auto simp: is_ok_iff machine_json_Inr witness_report_node get_str_def)
  then have "is_ok (local_machine (witness_report ''a''))" "is_ok (remote_machine (witness_report ''b''))"
    by (simp_all add: local_machine_def remote_machine_def Let_def)
  then show ?thesis
    by (auto simp: is_ok_iff load_fleet_snapshot_def witness_request_def get_array_def)
qed


end
