(* ===== verification/Window_Commands.thy ===== *)
theory Window_Commands
  imports Desktop
begin

text \<open>
  The commands of the window (\<open>lib.rs\<close>, \<open>settings.rs\<close>, \<open>pairing.rs\<close> and \<open>updater.rs\<close> of \<open>apps/desktop/src-tauri/src\<close>): what is
  checked and sent for each, the pairing share with its expiry and its file, the thresholds, and the key of the updater.
  The pictures of QR codes, base64, the JSON parser and the file system are parameters.
\<close>

section \<open>History and pairing\<close>

definition pair_machine_command :: "string \<Rightarrow> json" where
  "pair_machine_command bd = json_object [(''command'', JString ''pairing_import''), (''bundle'', JString bd)]"

definition pair_machine :: "(json \<Rightarrow> (DesktopError, json) result) \<Rightarrow> string \<Rightarrow> (DesktopError, json) result" where
  "pair_machine request bd =
     rbind (request (pair_machine_command bd)) (\<lambda>response. ok_or (ResponseWithout ''data'') (json_get response ''data''))"

definition machine_history_command :: "i64 \<Rightarrow> string \<Rightarrow> u16 \<Rightarrow> (DesktopError, json) result" where
  "machine_history_command now endpoint_id hours =
     (if endpoint_id = [] \<or> hours < 1 \<or> hours > 168 then Inl (InvalidRequest ''history'')
      else Inr (json_object
        [(''command'', JString ''query_history''), (''endpoint_id'', JString endpoint_id),
         (''from_ms'', json_of_i64 (i64_saturating_sub now (int (unat hours) * 60 * 60 * 1000))),
         (''to_ms'', json_of_i64 now), (''resolution'', JString ''minute'')]))"

definition machine_history :: "(json \<Rightarrow> (DesktopError, json) result) \<Rightarrow> i64 \<Rightarrow> string \<Rightarrow> u16 \<Rightarrow> (DesktopError, json) result" where
  "machine_history request now endpoint_id hours =
     rbind (machine_history_command now endpoint_id hours) (\<lambda>command.
     rbind (request command) (\<lambda>response.
     rbind (ok_or (ResponseWithout ''samples'') (get_array response ''data'')) (\<lambda>samples.
       Inr (JArray (map history_point_from_sample samples)))))"

definition bundle_expiry :: "codecs \<Rightarrow> (bytes \<Rightarrow> json option) \<Rightarrow> string \<Rightarrow> (DesktopError, i64) result" where
  "bundle_expiry cs parse bd =
     rbind (ok_or BundleWithoutPrefix (strip_prefix ''rackio-pair:'' bd)) (\<lambda>payload.
     rbind (ok_or BundleNotBase64 (b64_decode cs payload)) (\<lambda>decoded.
       ok_or BundleWithoutExpiry
         (Option.bind (Option.bind (parse decoded) (\<lambda>v. json_get v ''expires_at_ms'')) as_i64)))"

text \<open>The picture of a bundle, or why there is none; the QR encoder and its drawing are \<open>draw\<close>, standard base64 is \<open>b64\<close>.\<close>

definition qr_data_url :: "(string \<Rightarrow> (string, string) result) \<Rightarrow> (string \<Rightarrow> string) \<Rightarrow> string \<Rightarrow> (string, string) result" where
  "qr_data_url draw b64 bd =
     rbind (map_err (\<lambda>e. ''Pairing bundle is too large for a QR code: '' @ e) (draw bd)) (\<lambda>svg.
       Inr (''data:image/svg+xml;base64,'' @ b64 svg))"

definition create_pairing_share ::
  "codecs \<Rightarrow> (bytes \<Rightarrow> json option) \<Rightarrow> (string \<Rightarrow> (string, string) result) \<Rightarrow> (string \<Rightarrow> string) \<Rightarrow>
   (json \<Rightarrow> (DesktopError, json) result) \<Rightarrow> (DesktopError, json) result" where
  "create_pairing_share cs parse draw b64 request =
     rbind (request (json_object [(''command'', JString ''pairing_create'')])) (\<lambda>response.
     rbind (ok_or (ResponseWithout ''a bundle'') (get_str response ''data'')) (\<lambda>bd.
     rbind (bundle_expiry cs parse bd) (\<lambda>expires_at_ms.
       let lan_warning = json_of_option JString (first_text (get_array response ''warnings''))
       in Inr (json_object
            [(''bundle'', JString bd), (''expiresAtMs'', json_of_i64 expires_at_ms),
             (case qr_data_url draw b64 bd of Inr url \<Rightarrow> (''qrDataUrl'', JString url) | Inl e \<Rightarrow> (''qrError'', JString e)),
             (''lanWarning'', lan_warning)]))))"

text \<open>
  \<open>save_pairing_bundle\<close>: the file is its contents and its mode, nothing when it does not exist. Opening (0) creates it for the owner
  only or truncates it and keeps its mode; narrowing the mode (1) and writing (2) may fail, a failed write leaving some first bytes.
\<close>

type_synonym stored_file = "(string \<times> nat) option"

definition owner_only :: nat where "owner_only = 384"

definition save_pairing_bundle ::
  "(nat \<Rightarrow> bool) \<Rightarrow> nat \<Rightarrow> string \<Rightarrow> string \<Rightarrow> stored_file \<Rightarrow> (DesktopError, unit) result \<times> stored_file" where
  "save_pairing_bundle io partial path bd stored =
     (if \<not> starts_with ''rackio-pair:'' bd \<or> 16 * 1024 < length bd then (Inl InvalidBundleToSave, stored)
      else if path = [] then (Inl EmptyBundlePath, stored)
      else if io 0 then (Inl BundleFileIo, stored)
      else if io 1 then (Inl BundleFileIo, Some ([], case stored of None \<Rightarrow> owner_only | Some (_, mode) \<Rightarrow> mode))
      else
        let contents = bd @ [CHR 0x0A]
        in if io 2 then (Inl BundleFileIo, Some (take partial contents, owner_only))
           else (Inr (), Some (contents, owner_only)))"

section \<open>Thresholds\<close>

definition RULE_SEVERITIES :: "string list" where
  "RULE_SEVERITIES = [''warning'', ''critical'']"

definition COMPARISONS :: "string list" where
  "COMPARISONS = [''greater_than_or_equal'', ''less_than_or_equal'']"

record AlertRuleEdit =
  ae_id :: string
  ae_metric :: "string option"
  ae_comparison :: "string option"
  ae_threshold :: "fl option"
  ae_consecutive_samples :: "u32 option"
  ae_severity :: "string option"

definition require_id :: "string \<Rightarrow> (DesktopError, unit) result" where
  "require_id rule_id = (if trim_text rule_id = [] then Inl (InvalidRequest ''id'') else Inr ())"

definition optional_members :: "(string \<times> json option) list \<Rightarrow> (string \<times> json) list" where
  "optional_members members = List.map_filter (\<lambda>(key, v). map_option (\<lambda>x. (key, x)) v) members"

definition alerts_set_command :: "AlertRuleEdit \<Rightarrow> (DesktopError, json) result" where
  "alerts_set_command edit =
     rbind (require_id (ae_id edit)) (\<lambda>_.
       if (case ae_threshold edit of Some t \<Rightarrow> \<not> is_finite t | None \<Rightarrow> False) then Inl (InvalidRequest ''threshold'')
       else if ae_consecutive_samples edit = Some 0 then Inl (InvalidRequest ''consecutive samples'')
       else if (case ae_severity edit of Some s \<Rightarrow> s \<notin> set RULE_SEVERITIES | None \<Rightarrow> False) then Inl (InvalidRequest ''severity'')
       else if (case ae_comparison edit of Some c \<Rightarrow> c \<notin> set COMPARISONS | None \<Rightarrow> False)
       then Inl (InvalidRequest ''comparison'')
       else Inr (json_object
         ([(''command'', JString ''alerts''), (''alerts'', JString ''set''), (''id'', JString (ae_id edit))] @
          optional_members
            [(''metric'', map_option JString (ae_metric edit)), (''comparison'', map_option JString (ae_comparison edit)),
             (''threshold'', map_option json_of_f64 (ae_threshold edit)),
             (''consecutive_samples'', map_option (\<lambda>n. json_of_u64 (ucast n)) (ae_consecutive_samples edit)),
             (''severity'', map_option JString (ae_severity edit))])))"

definition alerts_rule_enabled_command :: "string \<Rightarrow> bool \<Rightarrow> (DesktopError, json) result" where
  "alerts_rule_enabled_command rule_id enabled =
     rbind (require_id rule_id) (\<lambda>_. Inr (json_object
       [(''command'', JString ''alerts''), (''alerts'', JString ''rule_enabled''), (''id'', JString rule_id),
        (''enabled'', JBool enabled)]))"

definition alerts_reset_command :: "string option \<Rightarrow> (DesktopError, json) result" where
  "alerts_reset_command rule_id =
     (let command = [(''command'', JString ''alerts''), (''alerts'', JString ''reset'')]
      in case rule_id of
           None \<Rightarrow> Inr (json_object command)
         | Some r \<Rightarrow> rbind (require_id r) (\<lambda>_. Inr (json_object (command @ [(''id'', JString r)]))))"

definition desktop_alert_listing :: "json \<Rightarrow> (DesktopError, json) result" where
  "desktop_alert_listing response =
     (case json_get response ''data'' of
        Some payload \<Rightarrow> if get_array payload ''rules'' \<noteq> None then Inr payload else Inl (ResponseWithout ''rules'')
      | None \<Rightarrow> Inl (ResponseWithout ''rules''))"

text \<open>The five Tauri commands: each sends one command and answers with the rules it is told.\<close>

datatype threshold_command =
  ListRules | SetRule AlertRuleEdit | EnableRule string bool | ResetRules "string option" | EnableAlerts bool

fun threshold_request :: "threshold_command \<Rightarrow> (DesktopError, json) result" where
  "threshold_request ListRules = Inr (json_object [(''command'', JString ''alerts''), (''alerts'', JString ''list'')])"
| "threshold_request (SetRule edit) = alerts_set_command edit"
| "threshold_request (EnableRule rule_id enabled) = alerts_rule_enabled_command rule_id enabled"
| "threshold_request (ResetRules rule_id) = alerts_reset_command rule_id"
| "threshold_request (EnableAlerts enabled) =
     Inr (json_object [(''command'', JString ''alerts''), (''alerts'', JString ''enabled''), (''enabled'', JBool enabled)])"

definition threshold_call ::
  "(json \<Rightarrow> (DesktopError, json) result) \<Rightarrow> threshold_command \<Rightarrow> (DesktopError, json) result" where
  "threshold_call request call =
     rbind (threshold_request call) (\<lambda>command. rbind (request command) desktop_alert_listing)"

section \<open>Updates\<close>

definition configured_public_key :: "string option \<Rightarrow> string option" where
  "configured_public_key v =
     Option.bind v (\<lambda>key. if trim_text key = [] then None else Some (trim_text key))"

definition verify_updater_config :: "string \<Rightarrow> json option \<Rightarrow> (DesktopError, unit) result" where
  "verify_updater_config embedded_key config =
     (case configured_public_key (Option.bind config (\<lambda>c. get_str c ''pubkey'')) of
        None \<Rightarrow> Inl NoUpdaterConfiguration
      | Some configured \<Rightarrow> if configured = embedded_key then Inr () else Inl UpdaterKeyMismatch)"

text \<open>Whether the updater plugin is registered.\<close>

definition register_with_key :: "string option \<Rightarrow> json option \<Rightarrow> (DesktopError, bool) result" where
  "register_with_key key config =
     (case key of None \<Rightarrow> Inr False | Some k \<Rightarrow> map_result (\<lambda>_. True) (verify_updater_config k config))"

section \<open>What the daemon reads\<close>

text \<open>
  The documented reading of the derived deserializers of \<open>LocalCommand\<close> and \<open>AlertCommand\<close>: the variant is named by the tag
  in snake case, an absent or null member of an optional field is \<open>None\<close>, and a present one has to be of the field's
  type. Only the commands the window sends are described.
\<close>

definition read_optional :: "(json \<Rightarrow> 'a option) \<Rightarrow> json \<Rightarrow> string \<Rightarrow> 'a option option" where
  "read_optional rd v key =
     (case json_get v key of None \<Rightarrow> Some None | Some JNull \<Rightarrow> Some None | Some w \<Rightarrow> map_option Some (rd w))"

definition read_comparison :: "json \<Rightarrow> Comparison option" where
  "read_comparison v =
     (if as_str v = Some ''greater_than_or_equal'' then Some GreaterThanOrEqual
      else if as_str v = Some ''less_than_or_equal'' then Some LessThanOrEqual else None)"

definition read_severity :: "json \<Rightarrow> NodeState option" where
  "read_severity v =
     (if as_str v = Some ''warning'' then Some Warning else if as_str v = Some ''critical'' then Some Critical else None)"

definition read_u32 :: "json \<Rightarrow> u32 option" where
  "read_u32 v = Option.bind (as_u64 v) (\<lambda>n. if n \<le> 0xFFFFFFFF then Some (ucast n) else None)"

definition derived_alert :: "json \<Rightarrow> AlertCommand option" where
  "derived_alert v =
     (let tag = get_str v ''alerts'' in
      if tag = Some ''list'' then Some AlertList
      else if tag = Some ''set'' then
        Option.bind (get_str v ''id'') (\<lambda>rid.
        Option.bind (read_optional as_str v ''metric'') (\<lambda>metric.
        Option.bind (read_optional read_comparison v ''comparison'') (\<lambda>comparison.
        Option.bind (read_optional as_f64 v ''threshold'') (\<lambda>threshold.
        Option.bind (read_optional read_u32 v ''consecutive_samples'') (\<lambda>samples.
        Option.bind (read_optional read_severity v ''severity'') (\<lambda>severity.
          Some (AlertSet rid metric comparison threshold samples severity)))))))
      else if tag = Some ''rule_enabled'' then
        Option.bind (get_str v ''id'') (\<lambda>rid.
        Option.bind (Option.bind (json_get v ''enabled'') as_bool) (\<lambda>enabled. Some (AlertRuleEnabled rid enabled)))
      else if tag = Some ''reset'' then map_option AlertReset (read_optional as_str v ''id'')
      else if tag = Some ''enabled'' then map_option AlertEnabled (Option.bind (json_get v ''enabled'') as_bool)
      else None)"

definition derived_command :: "json \<Rightarrow> LocalCommand option" where
  "derived_command v =
     (let tag = get_str v ''command'' in
      if tag = Some ''fleet_snapshot'' then Some FleetSnapshot
      else if tag = Some ''pairing_create'' then Some PairingCreate
      else if tag = Some ''pairing_import'' then map_option PairingImport (get_str v ''bundle'')
      else if tag = Some ''query_history'' then
        Option.bind (get_str v ''endpoint_id'') (\<lambda>eid.
        Option.bind (Option.bind (json_get v ''from_ms'') as_i64) (\<lambda>from_ms.
        Option.bind (Option.bind (json_get v ''to_ms'') as_i64) (\<lambda>to_ms.
          if get_str v ''resolution'' = Some ''minute'' then Some (LocalQueryHistory eid from_ms to_ms Minute) else None)))
      else if tag = Some ''alerts'' then map_option Alerts (derived_alert v)
      else None)"

definition serde_reads :: "(json \<Rightarrow> LocalCommand option) \<Rightarrow> bool" where
  "serde_reads of_json \<longleftrightarrow> (\<forall>v command. derived_command v = Some command \<longrightarrow> of_json v = Some command)"

section \<open>Window and command line mean the same\<close>

lemma optional_members_keys: "set (map fst (optional_members ms)) \<subseteq> set (map fst ms)"
  by (induction ms) (auto simp: optional_members_def List.map_filter_simps split: option.splits)

lemma optional_members_distinct: "distinct (map fst ms) \<Longrightarrow> distinct (map fst (optional_members ms))"
proof (induction ms)
  case (Cons m ms)
  then show ?case using optional_members_keys [of ms]
    by (cases m) (auto simp: optional_members_def List.map_filter_simps split: option.splits)
qed (simp add: optional_members_def List.map_filter_simps)

lemma map_of_optional:
  "distinct (map fst ms) \<Longrightarrow> map_of (optional_members ms) key = Option.bind (map_of ms key) id"
proof (induction ms)
  case (Cons m ms)
  obtain k v where m: "m = (k, v)" by fastforce
  have "k \<notin> set (map fst ms)" using Cons.prems m by simp
  then have "map_of ms k = None" by (simp add: map_of_eq_None_iff)
  then show ?case using Cons m by (auto simp: optional_members_def List.map_filter_simps split: option.splits)
qed (simp add: optional_members_def List.map_filter_simps)

text \<open>The command line's spelling of a comparison.\<close>

definition spelled :: "string \<Rightarrow> string" where
  "spelled comparison = (if comparison = ''less_than_or_equal'' then ''at-or-below'' else ''at-or-above'')"

definition as_typed :: "AlertRuleEdit \<Rightarrow> CliAlertCommand" where
  "as_typed edit =
     CliAlertSet (ae_id edit) (ae_threshold edit) (ae_consecutive_samples edit) (ae_severity edit) (ae_metric edit)
       (map_option spelled (ae_comparison edit))"

fun typed :: "threshold_command \<Rightarrow> CliAlertCommand" where
  "typed ListRules = CliAlertList"
| "typed (SetRule edit) = as_typed edit"
| "typed (EnableRule rid enabled) = (if enabled then CliAlertEnable rid else CliAlertDisable rid)"
| "typed (ResetRules rid) = CliAlertReset rid"
| "typed (EnableAlerts enabled) = (if enabled then CliAlertOn else CliAlertOff)"

definition set_members :: "AlertRuleEdit \<Rightarrow> (string \<times> json option) list" where
  "set_members edit =
     [(''metric'', map_option JString (ae_metric edit)), (''comparison'', map_option JString (ae_comparison edit)),
      (''threshold'', map_option json_of_f64 (ae_threshold edit)),
      (''consecutive_samples'', map_option (\<lambda>n. json_of_u64 (ucast n)) (ae_consecutive_samples edit)),
      (''severity'', map_option JString (ae_severity edit))]"

definition edit_ok :: "AlertRuleEdit \<Rightarrow> bool" where
  "edit_ok edit \<longleftrightarrow> trim_text (ae_id edit) \<noteq> [] \<and> (\<forall>t. ae_threshold edit = Some t \<longrightarrow> is_finite t) \<and>
     ae_consecutive_samples edit \<noteq> Some 0 \<and>
     ae_severity edit \<in> {None, Some ''warning'', Some ''critical''} \<and>
     ae_comparison edit \<in> {None, Some ''greater_than_or_equal'', Some ''less_than_or_equal''}"

definition set_json :: "AlertRuleEdit \<Rightarrow> json" where
  "set_json edit =
     json_object ([(''command'', JString ''alerts''), (''alerts'', JString ''set''), (''id'', JString (ae_id edit))] @
       optional_members (set_members edit))"

lemma alerts_set_command_cases: "alerts_set_command edit = Inr v \<longleftrightarrow> edit_ok edit \<and> v = set_json edit"
  by (cases "ae_threshold edit"; cases "ae_severity edit"; cases "ae_comparison edit")
    (auto simp: alerts_set_command_def edit_ok_def require_id_def RULE_SEVERITIES_def COMPARISONS_def set_json_def set_members_def)

lemma set_members_keys:
  "map fst (set_members edit) = [''metric'', ''comparison'', ''threshold'', ''consecutive_samples'', ''severity'']"
  by (simp add: set_members_def)

lemma set_json_get:
  "json_get (set_json edit) key =
    (case map_of [(''command'', JString ''alerts''), (''alerts'', JString ''set''), (''id'', JString (ae_id edit))] key of
       Some v \<Rightarrow> Some v | None \<Rightarrow> Option.bind (map_of (set_members edit) key) id)"
proof -
  let ?fixed = "[(''command'', JString ''alerts''), (''alerts'', JString ''set''), (''id'', JString (ae_id edit))]"
  let ?given = "optional_members (set_members edit)"
  have distinct: "distinct (map fst (set_members edit))" unfolding set_members_keys by simp
  have disjoint: "set (map fst ?fixed) \<inter> set (map fst (set_members edit)) = {}" unfolding set_members_keys by simp
  have fixed: "map_of ?given k = None" if "k \<in> set (map fst ?fixed)" for k
  proof -
    have "k \<notin> set (map fst ?given)" using that disjoint optional_members_keys [of "set_members edit"] by blast
    then show ?thesis by (simp add: map_of_eq_None_iff)
  qed
  have "distinct (map fst (?fixed @ ?given))"
    using disjoint optional_members_keys [of "set_members edit"] optional_members_distinct [OF distinct] by auto
  then have "json_get (set_json edit) key = map_of (?fixed @ ?given) key"
    unfolding set_json_def by (rule json_get_object)
  then show ?thesis using fixed [of key] unfolding map_of_append map_add_def map_of_optional [OF distinct]
    by (auto split: option.splits dest: map_of_SomeD)
qed

lemma set_json_members:
  "json_get (set_json edit) ''command'' = Some (JString ''alerts'')"
  "json_get (set_json edit) ''alerts'' = Some (JString ''set'')"
  "json_get (set_json edit) ''id'' = Some (JString (ae_id edit))"
  "json_get (set_json edit) ''metric'' = map_option JString (ae_metric edit)"
  "json_get (set_json edit) ''comparison'' = map_option JString (ae_comparison edit)"
  "json_get (set_json edit) ''threshold'' = map_option json_of_f64 (ae_threshold edit)"
  "json_get (set_json edit) ''consecutive_samples'' = map_option (\<lambda>n. json_of_u64 (ucast n)) (ae_consecutive_samples edit)"
  "json_get (set_json edit) ''severity'' = map_option JString (ae_severity edit)"
  by (simp_all add: set_json_get set_members_def)

lemma read_optional_given:
  assumes "json_get v key = map_option f x" and "\<And>y. x = Some y \<Longrightarrow> f y \<noteq> JNull \<and> rd (f y) = Some (g y)"
  shows "read_optional rd v key = Some (map_option g x)"
proof (cases x)
  case (Some y)
  then show ?thesis using assms(1) assms(2) [OF Some] by (cases "f y") (simp_all add: read_optional_def)
qed (simp add: read_optional_def assms(1))

lemma read_u32_of_u32: "read_u32 (json_of_u64 (ucast n)) = Some n" for n :: u32
proof -
  have bound: "unat n < 2 ^ 32" using unat_u32_bound [of n] by simp
  then have wide: "unat (ucast n :: u64) = unat n" by (simp add: unsigned_ucast_eq take_bit_nat_eq_self)
  have "(ucast n :: u64) \<le> 0xFFFFFFFF" using bound by (simp add: word_le_nat_alt wide)
  moreover have "ucast (ucast n :: u64) = n"
    by (simp add: word_unat_eq_iff unsigned_ucast_eq take_bit_nat_eq_self take_bit_word_eq_self)
  ultimately show ?thesis by (simp add: read_u32_def)
qed

lemma derived_set:
  assumes "edit_ok edit"
  shows "derived_command (set_json edit) = Some (Alerts (alert_request (as_typed edit)))"
proof -
  have "read_optional as_str (set_json edit) ''metric'' = Some (map_option (\<lambda>m. m) (ae_metric edit))"
    by (rule read_optional_given [OF set_json_members(4)]) simp
  moreover have "read_optional read_comparison (set_json edit) ''comparison'' =
      Some (map_option (\<lambda>c. comparison_from (spelled c)) (ae_comparison edit))"
    using assms by (intro read_optional_given [OF set_json_members(5)])
      (auto simp: edit_ok_def read_comparison_def comparison_from_def spelled_def)
  moreover have "read_optional as_f64 (set_json edit) ''threshold'' = Some (map_option (\<lambda>t. t) (ae_threshold edit))"
    using assms by (intro read_optional_given [OF set_json_members(6)]) (simp add: edit_ok_def json_of_f64_def)
  moreover have "read_optional read_u32 (set_json edit) ''consecutive_samples'' = Some (map_option (\<lambda>n. n) (ae_consecutive_samples edit))"
    by (rule read_optional_given [OF set_json_members(7)]) (simp add: read_u32_of_u32, simp add: json_of_u64_def)
  moreover have "read_optional read_severity (set_json edit) ''severity'' = Some (map_option severity_from (ae_severity edit))"
    using assms by (intro read_optional_given [OF set_json_members(8)]) (auto simp: edit_ok_def read_severity_def severity_from_def)
  ultimately show ?thesis
    by (simp add: derived_command_def derived_alert_def get_str_def set_json_members as_typed_def option.map_comp comp_def
        option.map_ident)
qed

definition call_ok :: "threshold_command \<Rightarrow> bool" where
  "call_ok call \<longleftrightarrow>
     (case call of
        SetRule edit \<Rightarrow> edit_ok edit
      | EnableRule rid _ \<Rightarrow> trim_text rid \<noteq> []
      | ResetRules (Some rid) \<Rightarrow> trim_text rid \<noteq> []
      | _ \<Rightarrow> True)"

lemma threshold_request_ok: "is_ok (threshold_request call) \<longleftrightarrow> call_ok call"
proof (cases call)
  case (SetRule edit)
  then show ?thesis by (auto simp: is_ok_iff alerts_set_command_cases call_ok_def)
qed (auto simp: is_ok_iff call_ok_def alerts_rule_enabled_command_def alerts_reset_command_def require_id_def Let_def
    split: option.splits)

lemmas derived_simps = derived_command_def derived_alert_def get_str_def read_optional_def Let_def

lemma derived_threshold:
  assumes "threshold_request call = Inr v"
  shows "derived_command v = Some (Alerts (alert_request (typed call)))"
proof (cases call)
  case ListRules
  then have "v = json_object [(''command'', JString ''alerts''), (''alerts'', JString ''list'')]" using assms by simp
  then show ?thesis using ListRules by (simp add: derived_simps)
next
  case (SetRule edit)
  then show ?thesis using assms derived_set by (simp add: alerts_set_command_cases)
next
  case (EnableRule rid enabled)
  then have "v = json_object [(''command'', JString ''alerts''), (''alerts'', JString ''rule_enabled''), (''id'', JString rid),
      (''enabled'', JBool enabled)]"
    using assms by (simp add: alerts_rule_enabled_command_def rbind_eq_Inr)
  then show ?thesis using EnableRule by (simp add: derived_simps)
next
  case (ResetRules rid)
  show ?thesis
  proof (cases rid)
    case None
    then have "v = json_object [(''command'', JString ''alerts''), (''alerts'', JString ''reset'')]"
      using assms ResetRules by (simp add: alerts_reset_command_def)
    then show ?thesis using ResetRules None by (simp add: derived_simps)
  next
    case (Some r)
    then have "v = json_object [(''command'', JString ''alerts''), (''alerts'', JString ''reset''), (''id'', JString r)]"
      using assms ResetRules by (simp add: alerts_reset_command_def rbind_eq_Inr)
    then show ?thesis using ResetRules Some by (simp add: derived_simps)
  qed
next
  case (EnableAlerts enabled)
  then have "v = json_object [(''command'', JString ''alerts''), (''alerts'', JString ''enabled''), (''enabled'', JBool enabled)]"
    using assms by simp
  then show ?thesis using EnableAlerts by (simp add: derived_simps)
qed

lemma is_ok_if: "is_ok (if c then Inl e else Inr x) \<longleftrightarrow> \<not> c"
  by simp

lemma history_command_cases:
  "is_ok (machine_history_command now eid hours) \<longleftrightarrow> eid \<noteq> [] \<and> 1 \<le> hours \<and> hours \<le> 168"
  unfolding machine_history_command_def is_ok_if de_Morgan_disj not_less ..

lemma derived_history:
  assumes sent: "machine_history_command now eid hours = Inr v" and now: "i64_min + 604800000 \<le> now" "now \<le> i64_max"
  shows "derived_command v = Some (cli_history_request now eid hours ''minute'')"
proof -
  have hours: "1 \<le> hours" "hours \<le> 168"
    using sent history_command_cases [of now eid hours] by auto
  have "in_i64 now" using now by (simp add: in_i64_def)
  moreover have "v = json_object
      [(''command'', JString ''query_history''), (''endpoint_id'', JString eid),
       (''from_ms'', json_of_i64 (now - int (unat hours) * 3600000)),
       (''to_ms'', json_of_i64 now), (''resolution'', JString ''minute'')]"
    using sent unfolding machine_history_command_def hours_back(1) [OF hours now] by (simp split: if_splits)
  ultimately show ?thesis using hours_back(3) [OF hours now] unfolding cli_history_request_def hours_back(1) [OF hours now]
    by (simp add: derived_simps)
qed

lemma one_le_u32: "n \<noteq> 0 \<Longrightarrow> 1 \<le> n" for n :: u32
proof (rule ccontr)
  assume "n \<noteq> 0" "\<not> 1 \<le> n"
  then have "n < 1" by (simp only: not_le)
  then show False using \<open>n \<noteq> 0\<close> by simp
qed

lemma edit_accepted:
  assumes "edit_ok edit" and "ae_metric edit \<in> insert None (Some ` set ALERT_METRICS)"
  shows "clap_accepts (CliAlerts (as_typed edit))"
proof -
  have "case ae_consecutive_samples edit of None \<Rightarrow> True | Some n \<Rightarrow> 1 \<le> n"
    using assms(1) by (auto simp: edit_ok_def intro: one_le_u32 split: option.splits)
  moreover have "case ae_severity edit of None \<Rightarrow> True | Some s \<Rightarrow> s \<in> {''warning'', ''critical''}"
    using assms(1) by (auto simp: edit_ok_def)
  moreover have "case map_option spelled (ae_comparison edit) of None \<Rightarrow> True | Some c \<Rightarrow> c \<in> {''at-or-above'', ''at-or-below''}"
    by (simp add: spelled_def split: option.splits)
  moreover have "case ae_threshold edit of None \<Rightarrow> True | Some t \<Rightarrow> is_finite t"
    using assms(1) by (simp add: edit_ok_def split: option.splits)
  moreover have "case ae_metric edit of None \<Rightarrow> True | Some m \<Rightarrow> m \<in> set ALERT_METRICS"
    using assms(2) by (cases "ae_metric edit") auto
  ultimately show ?thesis unfolding as_typed_def clap_accepts.simps by blast
qed

text \<open>
  C22. A click in the window and a line on the command line are the same request. What the window sends for a change of the
  thresholds is read by the daemon as the command that the corresponding subcommand sends, field by field, whatever the
  edit leaves out; what the window refuses never reaches the daemon, and it refuses exactly blank identifiers, thresholds that are not
  finite, zero samples and unknown severities or comparisons. A history from the window is the
  subcommand's history for the same hours, and a bundle arrives as it was entered.
\<close>

theorem window_and_command_line_agree:
  assumes serde: "serde_reads of_json" and now: "i64_min + 604800000 \<le> now" "now \<le> i64_max"
  shows "(\<forall>call v. threshold_request call = Inr v \<longrightarrow> local_request now (CliAlerts (typed call)) = Inr (of_json v)) \<and>
    (\<forall>call. is_ok (threshold_request call) \<longleftrightarrow> call_ok call) \<and>
    (\<forall>call. \<not> call_ok call \<longrightarrow> (\<exists>e. \<forall>request. threshold_call request call = Inl e)) \<and>
    (\<forall>edit. edit_ok edit \<longrightarrow> ae_metric edit \<in> insert None (Some ` set ALERT_METRICS) \<longrightarrow>
      clap_accepts (CliAlerts (as_typed edit))) \<and>
    (\<forall>eid hours v. machine_history_command now eid hours = Inr v \<longrightarrow>
      clap_accepts (CliHistory eid hours ''minute'') \<and>
      local_request now (CliHistory eid hours ''minute'') = Inr (of_json v)) \<and>
    (\<forall>eid hours. is_ok (machine_history_command now eid hours) \<longleftrightarrow> eid \<noteq> [] \<and> 1 \<le> hours \<and> hours \<le> 168) \<and>
    (\<forall>bd. local_request now (CliPairing (CliPairingImport bd)) = Inr (of_json (pair_machine_command bd)))"
proof (intro conjI allI impI)
  have reads: "of_json v = Some command" if "derived_command v = Some command" for v command
    using serde that by (simp add: serde_reads_def)
  show "local_request now (CliAlerts (typed call)) = Inr (of_json v)" if "threshold_request call = Inr v" for call v
    using reads [OF derived_threshold [OF that]] by simp
  show "is_ok (threshold_request call) \<longleftrightarrow> call_ok call" for call by (rule threshold_request_ok)
  show "\<exists>e. \<forall>request. threshold_call request call = Inl e" if "\<not> call_ok call" for call
    using that threshold_request_ok [of call] by (cases "threshold_request call") (simp_all add: threshold_call_def)
  show "clap_accepts (CliAlerts (as_typed edit))"
    if "edit_ok edit" "ae_metric edit \<in> insert None (Some ` set ALERT_METRICS)" for edit
    using that by (rule edit_accepted)
  show "local_request now (CliHistory eid hours ''minute'') = Inr (of_json v)" "clap_accepts (CliHistory eid hours ''minute'')"
    if "machine_history_command now eid hours = Inr v" for eid hours v
    using reads [OF derived_history [OF that now]] history_command_cases [of now eid hours] that by simp_all
  show "is_ok (machine_history_command now eid hours) \<longleftrightarrow> eid \<noteq> [] \<and> 1 \<le> hours \<and> hours \<le> 168" for eid hours
    by (rule history_command_cases)
  show "local_request now (CliPairing (CliPairingImport bd)) = Inr (of_json (pair_machine_command bd))" for bd
    using reads [of "pair_machine_command bd" "PairingImport bd"] by (simp add: pair_machine_command_def derived_simps)
qed

section \<open>The pairing share\<close>

text \<open>What serde documents of a written bundle: the member \<open>expires_at_ms\<close> is its expiry.\<close>

definition expiry_written :: "codecs \<Rightarrow> (bytes \<Rightarrow> json option) \<Rightarrow> bool" where
  "expiry_written cs parse \<longleftrightarrow>
     (\<forall>b raw. bundle_to_json cs b = Some raw \<longrightarrow>
        (\<exists>v. parse raw = Some v \<and> json_get v ''expires_at_ms'' = Some (json_of_i64 (pb_expires_at_ms b))))"

lemma bundle_expiry_encoded:
  assumes "b64_faithful cs" and "expiry_written cs parse" and "bundle_encode cs b = Inr encoded" and "in_i64 (pb_expires_at_ms b)"
  shows "bundle_expiry cs parse encoded = Inr (pb_expires_at_ms b)"
proof -
  obtain raw where raw: "bundle_to_json cs b = Some raw" "encoded = bundle_prefix @ b64_encode cs raw"
    using assms(3) by (auto simp: bundle_encode_def rbind_eq_Inr)
  obtain v where "parse raw = Some v" "json_get v ''expires_at_ms'' = Some (json_of_i64 (pb_expires_at_ms b))"
    using assms(2) raw(1) by (auto simp: expiry_written_def)
  then show ?thesis using assms(1,4)
    unfolding bundle_expiry_def raw(2) bundle_prefix_def strip_prefix_append by (simp add: b64_faithful_def)
qed

lemma pairing_share_Inr:
  assumes "create_pairing_share cs parse draw b64 request = Inr view"
  shows "\<exists>response bd expires. request (json_object [(''command'', JString ''pairing_create'')]) = Inr response \<and>
    get_str response ''data'' = Some bd \<and> bundle_expiry cs parse bd = Inr expires \<and> get_str view ''bundle'' = Some bd \<and>
    json_get view ''expiresAtMs'' = Some (json_of_i64 expires) \<and>
    get_str view ''qrDataUrl'' = result_ok (qr_data_url draw b64 bd) \<and>
    (json_get view ''qrError'' = None \<longleftrightarrow> is_ok (qr_data_url draw b64 bd)) \<and>
    get_str view ''lanWarning'' = first_text (get_array response ''warnings'')"
proof -
  obtain response bd expires where sent: "request (json_object [(''command'', JString ''pairing_create'')]) = Inr response"
      "get_str response ''data'' = Some bd" "bundle_expiry cs parse bd = Inr expires"
    and view: "view = json_object
      [(''bundle'', JString bd), (''expiresAtMs'', json_of_i64 expires),
       (case qr_data_url draw b64 bd of Inr url \<Rightarrow> (''qrDataUrl'', JString url) | Inl e \<Rightarrow> (''qrError'', JString e)),
       (''lanWarning'', json_of_option JString (first_text (get_array response ''warnings'')))]"
    using assms by (auto simp: create_pairing_share_def rbind_eq_Inr Let_def)
  have "get_str view ''bundle'' = Some bd \<and> json_get view ''expiresAtMs'' = Some (json_of_i64 expires) \<and>
    get_str view ''qrDataUrl'' = result_ok (qr_data_url draw b64 bd) \<and>
    (json_get view ''qrError'' = None \<longleftrightarrow> is_ok (qr_data_url draw b64 bd)) \<and>
    get_str view ''lanWarning'' = first_text (get_array response ''warnings'')"
    unfolding view
    by (cases "qr_data_url draw b64 bd"; cases "first_text (get_array response ''warnings'')")
      (simp_all add: get_str_def json_of_option_def)
  with sent show ?thesis by (intro exI [of _ response] exI [of _ bd] exI [of _ expires]) simp
qed

text \<open>The bundle's file gives nothing away: whatever of the bundle is in it, only the owner can read it.\<close>

lemma saved_bundle_private:
  assumes "save_pairing_bundle io partial path bd stored = (res, stored')"
  shows "stored' = stored \<or> (\<exists>mode. stored' = Some ([], mode)) \<or> (\<exists>contents. stored' = Some (contents, owner_only))"
    and "res = Inr () \<Longrightarrow> stored' = Some (bd @ [CHR 0x0A], owner_only) \<and> starts_with ''rackio-pair:'' bd \<and> length bd \<le> 16384"
    and "\<not> starts_with ''rackio-pair:'' bd \<or> 16384 < length bd \<Longrightarrow> stored' = stored \<and> res = Inl InvalidBundleToSave"
  using assms by (auto simp: save_pairing_bundle_def Let_def split: if_splits)


section \<open>Updates\<close>

text \<open>
  The updater exists only in a build whose configuration names the key that was embedded, and a build with a key and
  without that configuration does not start.
\<close>

lemma updates_need_the_embedded_key:
  "register_with_key key config = Inr True \<longleftrightarrow>
    (\<exists>k. key = Some k \<and> configured_public_key (Option.bind config (\<lambda>c. get_str c ''pubkey'')) = Some k)"
  "register_with_key key config = Inr False \<longleftrightarrow> key = None"
  "configured_public_key v = Some k \<Longrightarrow> k \<noteq> []"
  by (auto simp: register_with_key_def verify_updater_config_def configured_public_key_def bind_eq_Some_conv
      split: option.splits if_splits)

section \<open>Witnesses\<close>

theorem window_and_command_line_agree_witness:
  "serde_reads derived_command \<and>
   (\<exists>v. threshold_request (EnableRule ''cpu'' False) = Inr v \<and>
      local_request 1750000000000 (CliAlerts (CliAlertDisable ''cpu'')) = Inr (derived_command v)) \<and>
   local_request 1750000000000 (CliPairing (CliPairingImport ''x'')) = Inr (derived_command (pair_machine_command ''x''))"
proof -
  have serde: "serde_reads derived_command" by (simp add: serde_reads_def)
  have "trim_text ''cpu'' = ''cpu''" by code_simp
  then have "call_ok (EnableRule ''cpu'' False)" by (simp add: call_ok_def)
  then obtain v where v: "threshold_request (EnableRule ''cpu'' False) = Inr v"
    using threshold_request_ok is_ok_iff by metis
  have now: "i64_min + 604800000 \<le> 1750000000000" "1750000000000 \<le> i64_max" by (simp_all add: i64_limits)
  note agree = window_and_command_line_agree [OF serde now]
  have "local_request 1750000000000 (CliAlerts (typed (EnableRule ''cpu'' False))) = Inr (derived_command v)"
    by (rule agree [THEN conjunct1, rule_format, OF v])
  moreover have "local_request 1750000000000 (CliPairing (CliPairingImport ''x'')) = Inr (derived_command (pair_machine_command ''x''))"
    by (rule agree [THEN conjunct2, THEN conjunct2, THEN conjunct2, THEN conjunct2, THEN conjunct2, THEN conjunct2, rule_format])
  ultimately show ?thesis using serde v by auto
qed

definition share_codecs :: codecs where
  "share_codecs = plain_codecs\<lparr>bundle_to_json := (\<lambda>b. if pb_expires_at_ms b = 301000 then Some [1] else None)\<rparr>"

definition share_parse :: "bytes \<Rightarrow> json option" where
  "share_parse = (\<lambda>_. Some (json_object [(''expires_at_ms'', json_of_i64 301000)]))"


end
