(* ===== verification/Spec2Isabelle.thy ===== *)
theory Spec2Isabelle
  imports Daemon Ssh_Bootstrap Desktop_Files Tray Window_Commands
begin

text \<open>
  A verification development for Rackio, a monitor for a handful of machines. Every machine runs an agent
  (\<open>apps/agent\<close>) that samples itself, stores its history, evaluates alert rules and answers paired viewers over an
  authenticated QUIC transport (\<open>crates/rackio-iroh\<close>); the same agent watches other machines for its operator. The
  data model, alerts, collector and store are \<open>crates/rackio-core\<close>, the messages \<open>crates/rackio-protocol\<close>.

  \<^bold>\<open>How the parts interact.\<close> The sampler takes a sample every two seconds, evaluates the rules, publishes the sample to
  the runtime, and writes batches to the store. The server answers requests of paired peers from the runtime and the
  store. Pairing opens a short window whose one-time secret admits one viewer into the peer registry. A viewer keeps a
  registry of machines and one monitor task per machine, which reconnects, follows the metric stream and persists the
  last view. Local commands of the operator reach all of these through one socket.

  \<^bold>\<open>Theories and the code they model.\<close>
    \<^item> \<open>Prelude\<close>, \<open>Btree\<close>, \<open>Ieee\<close>, \<open>Durable\<close>: results, saturating and wrapping machine integers, decimal text, the
      \<open>BTreeMap\<close> as a sorted association list (locale \<open>ordered_dict\<close>), IEEE-754 rounding over rationals, and the
      write-then-publish pattern of both registries and of the configuration file (locale \<open>durable_op\<close>).
    \<^item> \<open>Model\<close> (\<open>model.rs\<close>, \<open>clock.rs\<close>): samples, the fullest disk, the bounded trend window, the anchored clock.
    \<^item> \<open>Alert\<close> (\<open>alert.rs\<close>): shipped rules, merging an operator's overrides, readings, the debounced evaluator.
    \<^item> \<open>Collector\<close> (\<open>collector.rs\<close>): one sample from the readings of a host.
    \<^item> \<open>Storage\<close> (\<open>storage.rs\<close>): raw and per-minute tables, batches, paged queries, retention, size cap, migration.
    \<^item> \<open>Framing\<close>, \<open>Wire\<close> (\<open>rackio-protocol\<close>, \<open>protocol.rs\<close>): length-prefixed frames, versions, conversions.
    \<^item> \<open>Transport\<close>, \<open>Address_Text\<close> (\<open>transport.rs\<close>): path classification, relay trust, binding, socket-address text.
    \<^item> \<open>Pairing\<close>, \<open>Mdns\<close> (\<open>pairing.rs\<close>, \<open>mdns.rs\<close>): bundles, the window with its lockout, peers, the advertisement.
    \<^item> \<open>Server\<close> (\<open>server.rs\<close>): permissions, requests, history pages over a changing store (locale \<open>paged_source\<close>),
      live streams, the table of connections, revocation.
    \<^item> \<open>Machines\<close>, \<open>Monitor\<close>, \<open>Fleet\<close> (\<open>apps/agent/src/remote\<close>): the registry of machines (locale \<open>machine_op\<close>), a
      monitor's sessions and back-off, and the fleet as a step relation of operations and monitors.
    \<^item> \<open>Config\<close>, \<open>Local_Ipc\<close> (\<open>runtime/config.rs\<close>, \<open>runtime/local_ipc.rs\<close>): the configuration with its checks (locale
      \<open>address_change\<close>), and the local commands with their effect on file, rules, window, fleet and store.
    \<^item> \<open>Sampling\<close>, \<open>Identity\<close>, \<open>Daemon\<close> (\<open>runtime/sampling.rs\<close>, \<open>identity.rs\<close>, \<open>runtime.rs\<close>): the sampling loop with its
      buffer and the published health, the key file, and the start of the daemon from its files.
    \<^item> \<open>Text_Lines\<close>, \<open>Json\<close>, \<open>Ssh_Bootstrap\<close>, \<open>Desktop_Files\<close>, \<open>Tray\<close> (\<open>apps/desktop/src-tauri/src\<close>): text functions and JSON
      values, the installation over SSH with its trusted host keys, preferences and badges, and the status items.
    \<^item> \<open>Pipes\<close>, \<open>Command_Line\<close> (\<open>crates/rackio-windows-ipc\<close>, \<open>runtime/local_ipc.rs\<close>, \<open>main.rs\<close>): the named pipe of Windows with the
      check of its callers, and the subcommands of the agent with the requests they become.
    \<^item> \<open>Desktop\<close>, \<open>Window_Commands\<close> (\<open>daemon.rs\<close>, \<open>presentation.rs\<close>, \<open>lib.rs\<close>, \<open>settings.rs\<close>, \<open>pairing.rs\<close>, \<open>updater.rs\<close> of the
      desktop shell): one bounded exchange with the daemon, the view models (locale \<open>stable_comparison\<close>), the whole fleet, and
      the commands of the window, which are shown to be those of the command line.
    \<^item> This theory composes them: history end to end, and the door of an agent over any sequence of events.

  \<^bold>\<open>How code becomes definitions.\<close> Structs are records with prefixed fields, enums datatypes, \<open>u8\<close> to \<open>u64\<close> words,
  \<open>i64\<close> an \<open>int\<close> with the saturation or wrap-around the code asks for, floats the type \<open>fl\<close>. Errors are values of a
  sum. A poisoned lock is a boolean field. A stream, a session or a listener is the list of its events, a list that
  ends being one that is still running; monotonic instants are natural numbers of milliseconds. What is not in the
  repository is a parameter: SQLite (which statements fail, and the pragma values), serde, prost, base64, the text of
  identities, certificates, dialling, random bytes, the clocks and the file system (which step of a write fails). What is
  assumed of them is a named hypothesis (\<open>codec_faithful\<close>, \<open>b64_faithful\<close>, \<open>ids_faithful\<close>, \<open>json_decodes\<close>) with a
  concrete instance in the witnesses.

  \<^bold>\<open>What is shown.\<close> The functional behaviour of each operation on every branch; that stores and registries refine their
  contents and survive failed writes and restarts; that peers without a permission learn nothing and that pairing is the
  only way in, once per window; that history is exact through store, server, wire and client, also while it changes; that
  the fleet watches exactly the paired machines in every reachable state; that no sequence of local commands strands
  the daemon, that the sampler loses no sample it does not report, and that a restart resumes the daemon that ran; bounds on everything a peer or a local client can make the agent do.

  \<^bold>\<open>Bounds and fuel.\<close> No definition uses fuel. The history loop of the server recurses on the distance between its
  cursor and the end of the range, proved to shrink; all other loops recurse on their events.

  \<^bold>\<open>Not modelled.\<close> Task scheduling inside one operation (\<open>import_pairing\<close> and \<open>remove_machine\<close> are single steps of the
  fleet), QUIC itself, the memory handling around the Win32 calls, logging, the
  windowing system under the desktop shell, its web front end, packaging and scripts. White space is trimmed as ASCII.
\<close>

section \<open>A viewer and an agent\<close>

text \<open>
  The agent of the server theory as the peer of the client of the fleet theory: every response the server
  writes to the stream of a request arrives in order and in time.
\<close>

definition served_by ::
  "('f, 'j) server_env \<Rightarrow> ('f, 'j, 'c) NodeRuntime \<Rightarrow> client \<Rightarrow> RequestBody \<Rightarrow>
   (TransportError, history_turn list) result timed" where
  "served_by env rt cl body =
     InTime (Inr (map (\<lambda>response. (False, InTime (Inr (Some response))))
       (sent (snd (fst (handle_request env (cl_local_id cl) (cl_remote_id cl) rt [] (Some body)
          \<lparr>sent = [], room = None\<rparr>))))))"

lemma collect_served:
  assumes "length acc + length ss \<le> MAX_REMOTE_HISTORY_SAMPLES"
  shows "collect_history acc (map (\<lambda>response. (False, InTime (Inr (Some response))))
      (map sample_response ss @ [RStreamComplete])) =
    Some (Inr (acc @ map (\<lambda>s. metric_sample_of_wire (metric_sample_to_wire s)) ss))"
  using assms
proof (induction ss arbitrary: acc)
  case Nil
  then show ?case by (simp add: timed_result_def)
next
  case (Cons s ss)
  then show ?case by (simp add: timed_result_def)
qed

lemma raw_history_served:
  assumes "permissions (se_ids env) (rt_peers rt) remote_id = Inr (Some p)" and "pp_read_history p"
    and "i64_min \<le> from_ms" and "from_ms \<le> to_ms" and "to_ms < i64_max"
    and "\<And>k. raw_usable (source_at env (\<lambda>_. hist) k)"
  shows "sent (snd (fst (handle_request env remote_id local_id rt events
      (Some (history_request from_ms to_ms Raw)) \<lparr>sent = [], room = None\<rparr>))) =
    map sample_response (filter (\<lambda>s. from_ms \<le> ms_timestamp_ms s \<and> ms_timestamp_ms s \<le> to_ms)
      (sort_key ms_timestamp_ms hist)) @ [RStreamComplete]"
proof -
  let ?q = "\<lparr>whq_from_ms = from_ms, whq_to_ms = to_ms, whq_resolution = 1, whq_protocol = Some current_version\<rparr>"
  have rows: "raw_rows (source_at env (\<lambda>_. hist) k) = sort_key ms_timestamp_ms hist" for k
    by (simp add: raw_rows_def source_at_def)
  have loop: "history_loop (\<lambda>k cursor. query_page (se_sqlite env k) (se_json env) (se_stores env k) cursor
        to_ms Raw HISTORY_PAGE_SIZE) 0 from_ms empty_sink =
      write_responses empty_sink (map sample_response
        (filter (\<lambda>s. from_ms \<le> ms_timestamp_ms s \<and> ms_timestamp_ms s \<le> to_ms) (sort_key ms_timestamp_ms hist)))"
    using raw_pages.history_loop_sends_range [where srcs = "source_at env (\<lambda>_. hist)" and k = 0,
        OF conjI page_size_ok assms(5,3), OF assms(6) rows, of empty_sink]
    by (simp add: raw_fetch_def source_at_def)
  have "handle_history env empty_sink p ?q = then_reply
      (history_loop (\<lambda>k cursor. query_page (se_sqlite env k) (se_json env) (se_stores env k) cursor
         to_ms Raw HISTORY_PAGE_SIZE) 0 from_ms empty_sink)
      (\<lambda>_ send. write_response send RStreamComplete)"
    using handle_history_allowed [of p ?q current_version Raw env empty_sink] assms(2,4)
    by (simp add: compatible_def current_version_def resolution_of_def)
  then show ?thesis
    using assms(1)
    by (simp add: history_request_def handle_request_def handle_authorized_def loop)
qed



section \<open>The door of an agent\<close>

text \<open>
  What can happen to the pairing window and the peer registry of a running agent: the operator opens a window,
  a peer's request is handled, the operator revokes a peer.
\<close>

datatype ('f, 'j) door_event =
  OpenDoor ids codecs bytes i64 uuid endpoint_id "SocketAddr list" "string list"
| Knock "('f, 'j) server_env" endpoint_id endpoint_id "watch_event list" "RequestBody option"
| Revoke "('f, 'j) server_env" string

fun door_step :: "('f, 'j, 'c) NodeRuntime \<Rightarrow> ('f, 'j) door_event \<Rightarrow> ('f, 'j, 'c) NodeRuntime" where
  "door_step rt (OpenDoor ids cs secret now node_id eid direct relays) =
     rt\<lparr>rt_pairing := fst (open_window ids cs secret now (rt_pairing rt) node_id eid direct relays)\<rparr>"
| "door_step rt (Knock env remote_id local_id events request) =
     snd (handle_request env remote_id local_id rt events request \<lparr>sent = [], room = None\<rparr>)"
| "door_step rt (Revoke env eid) = snd (snd (revoke_peer env rt eid))"

text \<open>The peers that gained access at a step.\<close>

definition gains :: "ids \<Rightarrow> ('f, 'j, 'c) NodeRuntime \<Rightarrow> ('f, 'j, 'c) NodeRuntime \<Rightarrow> endpoint_id \<Rightarrow> bool" where
  "gains ids rt rt' eid \<longleftrightarrow> permissions ids (rt_peers rt) eid = Inr None \<and>
     (\<exists>p. permissions ids (rt_peers rt') eid = Inr (Some p))"

fun admissions :: "ids \<Rightarrow> ('f, 'j, 'c) NodeRuntime \<Rightarrow> ('f, 'j) door_event list \<Rightarrow> endpoint_id list" where
  "admissions ids rt [] = []"
| "admissions ids rt (ev # evs) =
     (case ev of
        Knock _ remote_id _ _ _ \<Rightarrow> (if gains ids rt (door_step rt ev) remote_id then [remote_id] else [])
      | _ \<Rightarrow> []) @ admissions ids (door_step rt ev) evs"

definition opens :: "('f, 'j) door_event list \<Rightarrow> nat" where
  "opens evs = length (filter (\<lambda>ev. case ev of OpenDoor _ _ _ _ _ _ _ _ \<Rightarrow> True | _ \<Rightarrow> False) evs)"

definition same_ids :: "ids \<Rightarrow> ('f, 'j) door_event \<Rightarrow> bool" where
  "same_ids ids ev = (case ev of Knock env _ _ _ _ \<Rightarrow> se_ids env = ids | _ \<Rightarrow> True)"

definition window_open :: "('f, 'j, 'c) NodeRuntime \<Rightarrow> nat" where
  "window_open rt = (if pm_active (rt_pairing rt) = None then 0 else 1)"

lemma knock_window:
  assumes "pm_active (rt_pairing rt) = None"
  shows "pm_active (rt_pairing (snd (handle_request env remote_id local_id rt events request send))) = None"
proof (cases "\<exists>pair. request = Some (Pair pair)")
  case True
  then obtain pair where "request = Some (Pair pair)" by blast
  then have eq: "handle_request env remote_id local_id rt events request send =
      handle_pair env remote_id local_id rt pair send" by (simp add: handle_request_def)
  show ?thesis
    unfolding eq using assms
    by (cases env remote_id local_id rt pair send rule: handle_pair_cases) auto
next
  case False
  then show ?thesis using handle_request_reads_only assms by metis
qed

lemma gain_closes_window:
  assumes "gains (se_ids env) rt (snd (handle_request env remote_id local_id rt events request send)) eid"
  shows "pm_active (rt_pairing rt) \<noteq> None \<and>
    pm_active (rt_pairing (snd (handle_request env remote_id local_id rt events request send))) = None"
proof (rule handle_request_peers [of env remote_id local_id rt events request send])
  assume "rt_peers (snd (handle_request env remote_id local_id rt events request send)) = rt_peers rt"
  then show ?thesis using assms by (auto simp: gains_def)
next
  fix pair
  assume "accepts env (rt_pairing rt) remote_id pair"
    and "pm_active (rt_pairing (snd (handle_request env remote_id local_id rt events request send))) = None"
  then show ?thesis by (auto simp: accepts_def split: option.splits)
qed

lemma revoke_keeps_window [simp]: "rt_pairing (snd (snd (revoke_peer env rt eid))) = rt_pairing rt"
  by (auto simp: revoke_peer_def Let_def split: prod.splits sum.splits)

text \<open>
  C2. One window admits one device. Over any sequence of opened windows, requests by any peers and revocations,
  however registry writes fail, the number of admissions (a peer going from no access to some) is at most the
  number of windows the operator opened, counting one that was open at the start.
\<close>

theorem one_window_one_device:
  assumes "\<forall>ev \<in> set evs. same_ids ids ev"
  shows "length (admissions ids rt evs) \<le> opens evs + window_open rt"
  using assms
proof (induction evs arbitrary: rt)
  case (Cons ev evs)
  then have IH: "length (admissions ids (door_step rt ev) evs) \<le> opens evs + window_open (door_step rt ev)" by simp
  show ?case
  proof (cases ev)
    case (OpenDoor i cs secret now node_id eid direct relays)
    then show ?thesis using IH by (simp add: opens_def window_open_def split: if_splits)
  next
    case (Knock env remote_id local_id events request)
    then have ids: "se_ids env = ids" using Cons.prems by (simp add: same_ids_def)
    let ?rt' = "snd (handle_request env remote_id local_id rt events request \<lparr>sent = [], room = None\<rparr>)"
    have closed: "window_open ?rt' \<le> window_open rt"
      using knock_window [of rt env remote_id local_id events request] by (simp add: window_open_def)
    show ?thesis
    proof (cases "gains ids rt ?rt' remote_id")
      case True
      then have "window_open rt = 1" "window_open ?rt' = 0"
        using gain_closes_window [of env rt remote_id local_id events request] ids
        by (auto simp: window_open_def)
      then show ?thesis using IH Knock True by (simp add: opens_def)
    next
      case False
      then show ?thesis using IH Knock closed by (simp add: opens_def)
    qed
  next
    case (Revoke env eid)
    then show ?thesis using IH by (simp add: opens_def window_open_def)
  qed
qed (simp add: opens_def)

theorem one_window_one_device_witness:
  "length (admissions bit_ids witness_rt
     [Knock (witness_env (\<lambda>_. MetricStore_new)) 3 5 [] (Some (Pair witness_pair)),
      Knock (witness_env (\<lambda>_. MetricStore_new)) 3 5 [] (Some (Pair witness_pair))]) \<le> 1"
  using one_window_one_device [of "[Knock (witness_env (\<lambda>_. MetricStore_new)) 3 5 [] (Some (Pair witness_pair)),
      Knock (witness_env (\<lambda>_. MetricStore_new)) 3 5 [] (Some (Pair witness_pair))]" bit_ids witness_rt]
  by (simp add: same_ids_def witness_env_def opens_def window_open_def witness_rt_def witness_manager_def)

end
